(* ===== verification/Prelude.thy ===== *)
theory Prelude
  imports Main "HOL-Library.Word" "HOL-Library.Char_ord" "HOL-Library.List_Lexorder"
begin

section \<open>Shared vocabulary of the development\<close>

text \<open>
  What every component theory uses: the Go integer types, errors as values, operations that
  thread a state and may fail, the effect orders that describe what an operation may do to its
  state, and tables (lists of rows) with the update and delete statements SQL has.

  An operation of the program that returns \<open>(T, error)\<close> and changes a state of type \<open>'s\<close> is
  a value of type \<open>('s, 't) op\<close>: it returns the error or the result together with the state
  it leaves behind. A state left by a failing operation is kept, as Go keeps it.
\<close>

subsection \<open>Collections of facts\<close>

named_theorems keeps_intros \<open>invariants kept by the operation combinators\<close>
named_theorems op_simps \<open>unfolding the operation combinators\<close>

subsection \<open>Types\<close>

type_synonym u32 = "32 word"
type_synonym u64 = "64 word"
type_synonym bytes = string

text \<open>A signed 64-bit value is an \<^typ>\<open>int\<close> brought back into range after each operation
  that Go performs modulo \<open>2 ^ 64\<close>.\<close>

definition wrap64 :: "int \<Rightarrow> int" where
  "wrap64 x = (x + 2 ^ 63) mod 2 ^ 64 - 2 ^ 63"

definition int64_range :: "int \<Rightarrow> bool" where
  "int64_range x \<longleftrightarrow> - (2 ^ 63) \<le> x \<and> x < 2 ^ 63"

lemma wrap64_id [simp]: "int64_range x \<Longrightarrow> wrap64 x = x"
  by (simp add: wrap64_def int64_range_def)

lemma wrap64_range: "int64_range (wrap64 x)"
proof -
  have "0 \<le> (x + 2 ^ 63) mod 2 ^ 64" "(x + 2 ^ 63) mod 2 ^ 64 < (2 ^ 64 :: int)"
    by simp_all
  then show ?thesis
    by (simp add: wrap64_def int64_range_def)
qed

subsection \<open>Errors\<close>

text \<open>The gRPC status codes the program returns or inspects.\<close>

datatype code =
    Canceled | UnknownCode | InvalidArgument | DeadlineExceeded | NotFound | PermissionDenied
  | ResourceExhausted | FailedPrecondition | Aborted | Internal | Unavailable | DataLoss
  | Unauthenticated

text \<open>\<open>Plain\<close> is an error made by \<open>errors.New\<close> or \<open>fmt.Errorf\<close>, \<open>Status\<close> one made by
  \<open>status.Error\<close>, \<open>External\<close> one that the operating system, SQLite or another library
  reports, and \<open>ErrStorageLimit\<close> the sentinel of the state package.\<close>

datatype err =
    Plain string
  | Status code string
  | External string
  | ErrStorageLimit

type_synonym 'a res = "err + 'a"

fun is_ok :: "'a res \<Rightarrow> bool" where
  "is_ok (Inl e) = False"
| "is_ok (Inr x) = True"

lemma is_ok_iff: "is_ok r \<longleftrightarrow> (\<exists>x. r = Inr x)"
  by (cases r) auto

subsection \<open>Operations on a state\<close>

type_synonym ('s, 'a) op = "'s \<Rightarrow> 'a res \<times> 's"

definition ret :: "'a \<Rightarrow> ('s, 'a) op" where
  "ret x = (\<lambda>s. (Inr x, s))"

definition fail :: "err \<Rightarrow> ('s, 'a) op" where
  "fail e = (\<lambda>s. (Inl e, s))"

text \<open>\<open>x, err := m(); if err != nil { return err }; ...\<close>\<close>

definition and_then :: "('s, 'a) op \<Rightarrow> ('a \<Rightarrow> ('s, 'b) op) \<Rightarrow> ('s, 'b) op" where
  "and_then m f = (\<lambda>s. case m s of (Inl e, t) \<Rightarrow> (Inl e, t) | (Inr x, t) \<Rightarrow> f x t)"

text \<open>\<open>x, err := m()\<close> where the caller looks at \<open>err\<close> itself (or discards it).\<close>

definition attempt :: "('s, 'a) op \<Rightarrow> ('s, 'a res) op" where
  "attempt m = (\<lambda>s. case m s of (r, t) \<Rightarrow> (Inr r, t))"

definition lift_res :: "'a res \<Rightarrow> ('s, 'a) op" where
  "lift_res r = (\<lambda>s. (r, s))"

definition state_get :: "('s \<Rightarrow> 'a) \<Rightarrow> ('s, 'a) op" where
  "state_get f = (\<lambda>s. (Inr (f s), s))"

definition state_upd :: "('s \<Rightarrow> 's) \<Rightarrow> ('s, unit) op" where
  "state_upd f = (\<lambda>s. (Inr (), f s))"

declare ret_def [op_simps] fail_def [op_simps] and_then_def [op_simps] attempt_def [op_simps]
  lift_res_def [op_simps] state_get_def [op_simps] state_upd_def [op_simps]

text \<open>Reading an outcome backwards.\<close>

named_theorems outcome_simps \<open>when an operation gives an outcome\<close>

lemma and_then_Inr [outcome_simps]:
  "and_then m f s = (Inr x, t) \<longleftrightarrow> (\<exists>y u. m s = (Inr y, u) \<and> f y u = (Inr x, t))"
  by (auto simp: and_then_def split: prod.splits sum.splits)

lemma and_then_Inl [outcome_simps]:
  "and_then m f s = (Inl e, t) \<longleftrightarrow>
     m s = (Inl e, t) \<or> (\<exists>y u. m s = (Inr y, u) \<and> f y u = (Inl e, t))"
  by (auto simp: and_then_def split: prod.splits sum.splits)

lemma outcome_ret [outcome_simps]: "ret x s = (r, t) \<longleftrightarrow> r = Inr x \<and> t = s"
  by (auto simp: ret_def)

lemma outcome_fail [outcome_simps]: "fail e s = (r, t) \<longleftrightarrow> r = Inl e \<and> t = s"
  by (auto simp: fail_def)

lemma outcome_lift_res [outcome_simps]: "lift_res q s = (r, t) \<longleftrightarrow> r = q \<and> t = s"
  by (auto simp: lift_res_def)

lemma outcome_state_get [outcome_simps]: "state_get g s = (r, t) \<longleftrightarrow> r = Inr (g s) \<and> t = s"
  by (auto simp: state_get_def)

lemma outcome_state_upd [outcome_simps]: "state_upd h s = (r, t) \<longleftrightarrow> r = Inr () \<and> t = h s"
  by (auto simp: state_upd_def)

lemma outcome_attempt [outcome_simps]: "attempt m s = (r, t) \<longleftrightarrow> (\<exists>q. r = Inr q \<and> m s = (q, t))"
  by (auto simp: attempt_def split: prod.splits)

lemma and_then_assoc: "and_then (and_then m f) g = and_then m (\<lambda>x. and_then (f x) g)"
  by (rule ext) (auto simp: and_then_def split: prod.splits sum.splits)

text \<open>Running the first step of a sequence.\<close>

lemma and_then_state_upd: "and_then (state_upd f) g s = g () (f s)"
  by (simp add: and_then_def state_upd_def)

lemma and_then_attempt: "m s = (q, t) \<Longrightarrow> and_then (attempt m) f s = f q t"
  by (simp add: and_then_def attempt_def)

lemma and_then_lift_Inr: "and_then (lift_res (Inr x)) f = f x"
  by (rule ext) (simp add: and_then_def lift_res_def)

subsection \<open>Effect orders\<close>

text \<open>
  What an operation may do to its state, as a reflexive and transitive relation between the
  state before and after. \<open>within R m\<close> says that \<open>m\<close> stays inside \<open>R\<close> whether it
  succeeds or fails. The locale proves once that the combinators compose such effects; it is
  interpreted on the audit order of the database and on the runs of the step relation.
\<close>

definition within :: "('s \<Rightarrow> 's \<Rightarrow> bool) \<Rightarrow> ('s, 'a) op \<Rightarrow> bool" where
  "within R m \<longleftrightarrow> (\<forall>s. R s (snd (m s)))"

locale effect_order =
  fixes R :: "'s \<Rightarrow> 's \<Rightarrow> bool"
  assumes eff_refl: "R s s"
    and eff_trans: "R s t \<Longrightarrow> R t u \<Longrightarrow> R s u"
begin

lemma within_ret: "within R (ret x)"
  by (simp add: within_def ret_def eff_refl)

lemma within_fail: "within R (fail e)"
  by (simp add: within_def fail_def eff_refl)

lemma within_lift_res: "within R (lift_res r)"
  by (simp add: within_def lift_res_def eff_refl)

lemma within_state_get: "within R (state_get f)"
  by (simp add: within_def state_get_def eff_refl)

lemma within_and_then:
  assumes m: "within R m" and f: "\<And>x. within R (f x)"
  shows "within R (and_then m f)"
  unfolding within_def
proof
  fix s
  have "R s (snd (m s))" using m by (simp add: within_def)
  then show "R s (snd (and_then m f s))"
    using f by (auto simp: and_then_def within_def split: prod.splits sum.splits
        intro: eff_trans)
qed

lemma within_attempt: "within R m \<Longrightarrow> within R (attempt m)"
  by (simp add: within_def attempt_def split: prod.splits) (metis snd_conv)

lemmas within_intros =
  within_ret within_fail within_lift_res within_state_get within_and_then within_attempt

end

text \<open>Branches of an operation, for any effect.\<close>

lemma within_if: "(b \<Longrightarrow> within R m) \<Longrightarrow> (\<not> b \<Longrightarrow> within R n) \<Longrightarrow> within R (if b then m else n)"
  by simp

lemma within_case_option:
  "(x = None \<Longrightarrow> within R m) \<Longrightarrow> (\<And>y. x = Some y \<Longrightarrow> within R (n y)) \<Longrightarrow>
    within R (case x of None \<Rightarrow> m | Some y \<Rightarrow> n y)"
  by (cases x) auto

lemma within_case_sum:
  "(\<And>e. x = Inl e \<Longrightarrow> within R (m e)) \<Longrightarrow> (\<And>y. x = Inr y \<Longrightarrow> within R (n y)) \<Longrightarrow>
    within R (case x of Inl e \<Rightarrow> m e | Inr y \<Rightarrow> n y)"
  by (cases x) auto

lemma within_case_prod:
  "(\<And>a b. x = (a, b) \<Longrightarrow> within R (m a b)) \<Longrightarrow> within R (case x of (a, b) \<Rightarrow> m a b)"
  by (cases x) auto

lemma withinI: "(\<And>s. R s (snd (m s))) \<Longrightarrow> within R m"
  by (simp add: within_def)

lemma withinD: "within R m \<Longrightarrow> R s (snd (m s))"
  by (simp add: within_def)

lemmas within_branches = within_if within_case_option within_case_sum within_case_prod

text \<open>An invariant kept by an operation is the effect order \<open>P s \<longrightarrow> P t\<close>.\<close>

definition keeps :: "('s \<Rightarrow> bool) \<Rightarrow> ('s, 'a) op \<Rightarrow> bool" where
  "keeps P m \<longleftrightarrow> within (\<lambda>s t. P s \<longrightarrow> P t) m"

lemma keepsD: "keeps P m \<Longrightarrow> P s \<Longrightarrow> P (snd (m s))"
  by (simp add: keeps_def within_def)

lemma keepsI: "(\<And>s. P s \<Longrightarrow> P (snd (m s))) \<Longrightarrow> keeps P m"
  by (simp add: keeps_def within_def)

interpretation inv_order: effect_order "\<lambda>s t. P s \<longrightarrow> P t" for P
  by unfold_locales auto

lemma keeps_ret [keeps_intros]: "keeps P (ret x)"
  and keeps_fail [keeps_intros]: "keeps P (fail e)"
  and keeps_lift_res [keeps_intros]: "keeps P (lift_res r)"
  and keeps_state_get [keeps_intros]: "keeps P (state_get f)"
  by (simp_all add: keeps_def inv_order.within_intros)

lemma keeps_and_then [keeps_intros]:
  "keeps P m \<Longrightarrow> (\<And>x. keeps P (f x)) \<Longrightarrow> keeps P (and_then m f)"
  by (simp add: keeps_def inv_order.within_and_then)

lemma keeps_attempt [keeps_intros]: "keeps P m \<Longrightarrow> keeps P (attempt m)"
  by (simp add: keeps_def inv_order.within_attempt)

lemma keeps_if [keeps_intros]:
  "(b \<Longrightarrow> keeps P m) \<Longrightarrow> (\<not> b \<Longrightarrow> keeps P n) \<Longrightarrow> keeps P (if b then m else n)"
  by simp

lemma keeps_case_option [keeps_intros]:
  "(x = None \<Longrightarrow> keeps P m) \<Longrightarrow> (\<And>y. x = Some y \<Longrightarrow> keeps P (n y)) \<Longrightarrow>
    keeps P (case x of None \<Rightarrow> m | Some y \<Rightarrow> n y)"
  by (cases x) auto

lemma keeps_case_sum [keeps_intros]:
  "(\<And>e. x = Inl e \<Longrightarrow> keeps P (m e)) \<Longrightarrow> (\<And>y. x = Inr y \<Longrightarrow> keeps P (n y)) \<Longrightarrow>
    keeps P (case x of Inl e \<Rightarrow> m e | Inr y \<Rightarrow> n y)"
  by (cases x) auto

lemma keeps_case_prod [keeps_intros]:
  "(\<And>a b. x = (a, b) \<Longrightarrow> keeps P (m a b)) \<Longrightarrow> keeps P (case x of (a, b) \<Rightarrow> m a b)"
  by (cases x) auto

subsection \<open>Tables\<close>

text \<open>\<open>UPDATE t SET f WHERE p\<close> and \<open>SELECT ... WHERE key = k\<close> on a list of rows.\<close>

definition update_where :: "('r \<Rightarrow> bool) \<Rightarrow> ('r \<Rightarrow> 'r) \<Rightarrow> 'r list \<Rightarrow> 'r list" where
  "update_where p f rows = map (\<lambda>r. if p r then f r else r) rows"

definition rows_matching :: "('r \<Rightarrow> bool) \<Rightarrow> 'r list \<Rightarrow> nat" where
  "rows_matching p rows = length (filter p rows)"

definition lookup_by :: "('r \<Rightarrow> 'k) \<Rightarrow> 'k \<Rightarrow> 'r list \<Rightarrow> 'r option" where
  "lookup_by key k rows = find (\<lambda>r. key r = k) rows"

lemma lookup_by_Nil [simp]: "lookup_by key k [] = None"
  by (simp add: lookup_by_def)

lemma lookup_by_Cons [simp]:
  "lookup_by key k (r # rows) = (if key r = k then Some r else lookup_by key k rows)"
  by (simp add: lookup_by_def)

lemma lookup_by_SomeD:
  "lookup_by key k rows = Some r \<Longrightarrow> r \<in> set rows \<and> key r = k"
  by (induction rows) (auto split: if_splits)

lemma lookup_by_None_iff: "lookup_by key k rows = None \<longleftrightarrow> k \<notin> key ` set rows"
  by (induction rows) auto

lemma lookup_by_distinct:
  "distinct (map key rows) \<Longrightarrow> r \<in> set rows \<Longrightarrow> lookup_by key (key r) rows = Some r"
  by (induction rows) (auto simp: rev_image_eqI)

lemma lookup_by_distinct_iff:
  "distinct (map key rows) \<Longrightarrow> lookup_by key k rows = Some r \<longleftrightarrow> r \<in> set rows \<and> key r = k"
  by (blast dest: lookup_by_SomeD lookup_by_distinct)

lemma lookup_by_append:
  "lookup_by key k (rows @ rows') =
    (case lookup_by key k rows of None \<Rightarrow> lookup_by key k rows' | Some r \<Rightarrow> Some r)"
  by (induction rows) auto

lemma lookup_by_update_where:
  "(\<And>r. key (f r) = key r) \<Longrightarrow>
    lookup_by key k (update_where p f rows) =
      map_option (\<lambda>r. if p r then f r else r) (lookup_by key k rows)"
  by (induction rows) (auto simp: update_where_def)

lemma map_update_where [simp]:
  "(\<And>r. g (f r) = g r) \<Longrightarrow> map g (update_where p f rows) = map g rows"
  by (induction rows) (auto simp: update_where_def)

lemma update_where_Nil [simp]: "update_where p f [] = []"
  by (simp add: update_where_def)

lemma length_update_where [simp]: "length (update_where p f rows) = length rows"
  by (simp add: update_where_def)

lemma set_update_where:
  "set (update_where p f rows) = {if p r then f r else r | r. r \<in> set rows}"
  by (auto simp: update_where_def)

lemma update_where_none: "(\<And>r. r \<in> set rows \<Longrightarrow> \<not> p r) \<Longrightarrow> update_where p f rows = rows"
  by (induction rows) (auto simp: update_where_def)

lemma rows_matching_distinct:
  assumes "distinct (map key rows)"
  shows "rows_matching (\<lambda>r. key r = k \<and> q r) rows =
    (case lookup_by key k rows of None \<Rightarrow> 0 | Some r \<Rightarrow> if q r then 1 else 0)"
  using assms
proof (induction rows)
  case (Cons r rows)
  have "lookup_by key (key r) rows = None"
    using Cons.prems by (simp add: lookup_by_None_iff)
  with Cons show ?case
    by (auto simp: rows_matching_def)
qed (simp add: rows_matching_def)

end
