(* ===== verification/Go_Std.thy ===== *)
theory Go_Std
  imports Prelude
begin

section \<open>The parts of Go's standard library the program uses\<close>

text \<open>
  Go strings are byte strings, so a Go \<open>string\<close> is a HOL \<^typ>\<open>string\<close> whose characters are
  bytes. This theory models \<open>unicode/utf8\<close> decoding (the code converts between bytes and runes
  when it compiles globs, trims white space and quotes text), the functions of \<open>strings\<close> and
  \<open>path/filepath\<close> that are called, and decimal and hexadecimal printing.
\<close>

subsection \<open>UTF-8\<close>

definition byte :: "char \<Rightarrow> nat" where
  "byte c = of_char c"

definition rune_error :: nat where
  "rune_error = 0xFFFD"

definition cont_byte :: "nat \<Rightarrow> bool" where
  "cont_byte b \<longleftrightarrow> 0x80 \<le> b \<and> b \<le> 0xBF"

text \<open>The byte at an index, 0 past the end (0 is no continuation byte).\<close>

definition byte_at :: "string \<Rightarrow> nat \<Rightarrow> nat" where
  "byte_at s i = (if i < length s then byte (s ! i) else 0)"

text \<open>\<open>utf8.DecodeRuneInString\<close>: the first rune and its width. An invalid encoding (a stray
  continuation byte, an overlong or surrogate form, a truncated sequence) is \<open>rune_error\<close> of
  width 1.\<close>

definition decode_rune :: "string \<Rightarrow> nat \<times> nat" where
  "decode_rune s =
    (if s = [] then (rune_error, 0)
     else let b0 = byte_at s 0; b1 = byte_at s 1; b2 = byte_at s 2; b3 = byte_at s 3 in
       if b0 < 0x80 then (b0, 1)
       else if 0xC2 \<le> b0 \<and> b0 \<le> 0xDF \<and> cont_byte b1
       then ((b0 - 0xC0) * 64 + (b1 - 0x80), 2)
       else if 0xE0 \<le> b0 \<and> b0 \<le> 0xEF \<and> cont_byte b1 \<and> cont_byte b2
         \<and> (b0 = 0xE0 \<longrightarrow> 0xA0 \<le> b1) \<and> (b0 = 0xED \<longrightarrow> b1 \<le> 0x9F)
       then ((b0 - 0xE0) * 4096 + (b1 - 0x80) * 64 + (b2 - 0x80), 3)
       else if 0xF0 \<le> b0 \<and> b0 \<le> 0xF4 \<and> cont_byte b1 \<and> cont_byte b2 \<and> cont_byte b3
         \<and> (b0 = 0xF0 \<longrightarrow> 0x90 \<le> b1) \<and> (b0 = 0xF4 \<longrightarrow> b1 \<le> 0x8F)
       then ((b0 - 0xF0) * 262144 + (b1 - 0x80) * 4096 + (b2 - 0x80) * 64 + (b3 - 0x80), 4)
       else (rune_error, 1))"

lemma decode_rune_width: "s \<noteq> [] \<Longrightarrow> 0 < snd (decode_rune s)"
  by (simp add: decode_rune_def Let_def)

text \<open>\<open>for _, r := range s\<close>\<close>

function runes :: "string \<Rightarrow> nat list" where
  "runes s = (if s = [] then [] else fst (decode_rune s) # runes (drop (snd (decode_rune s)) s))"
  by pat_completeness auto
termination
  by (relation "measure length") (auto simp: decode_rune_width)

declare runes.simps [simp del]

lemma runes_Nil [simp]: "runes [] = []"
  by (simp add: runes.simps)

definition ascii :: "string \<Rightarrow> bool" where
  "ascii s \<longleftrightarrow> (\<forall>c \<in> set s. byte c < 0x80)"

lemma decode_rune_ascii: "byte c < 0x80 \<Longrightarrow> decode_rune (c # s) = (byte c, 1)"
  by (simp add: decode_rune_def byte_at_def)

lemma runes_ascii_Cons: "byte c < 0x80 \<Longrightarrow> runes (c # s) = byte c # runes s"
  by (subst runes.simps) (simp add: decode_rune_ascii)

lemma runes_ascii: "ascii s \<Longrightarrow> runes s = map byte s"
  by (induction s) (auto simp: ascii_def runes_ascii_Cons)

lemma runes_ascii_append: "ascii s \<Longrightarrow> runes (s @ t) = map byte s @ runes t"
  by (induction s) (auto simp: ascii_def runes_ascii_Cons)

lemma byte_inject [simp]: "byte a = byte b \<longleftrightarrow> a = b"
  by (simp add: byte_def)

text \<open>A rune below 0x80 is a byte of its own; every other rune is made of bytes from 0x80 on.\<close>

lemma decoded_values_high:
  fixes b0 b1 x y :: nat
  shows "0xC2 \<le> b0 \<Longrightarrow> 0x80 \<le> (b0 - 0xC0) * 64 + x"
    and "0xE0 \<le> b0 \<Longrightarrow> b0 = 0xE0 \<longrightarrow> 0xA0 \<le> b1 \<Longrightarrow>
      0x80 \<le> (b0 - 0xE0) * 4096 + (b1 - 0x80) * 64 + x"
    and "0xF0 \<le> b0 \<Longrightarrow> b0 = 0xF0 \<longrightarrow> 0x90 \<le> b1 \<Longrightarrow>
      0x80 \<le> (b0 - 0xF0) * 262144 + (b1 - 0x80) * 4096 + x + y"
  by arith+

lemma decode_rune_conts:
  "1 < snd (decode_rune s) \<Longrightarrow> cont_byte (byte_at s 1)"
  "2 < snd (decode_rune s) \<Longrightarrow> cont_byte (byte_at s 2)"
  "3 < snd (decode_rune s) \<Longrightarrow> cont_byte (byte_at s 3)"
  "snd (decode_rune s) \<le> 4"
  by (simp_all add: decode_rune_def Let_def del: One_nat_def split: if_splits)

lemma decode_rune_high:
  assumes "s \<noteq> []" "0x80 \<le> byte (hd s)"
  shows "0x80 \<le> fst (decode_rune s)" "\<forall>c \<in> set (take (snd (decode_rune s)) s). 0x80 \<le> byte c"
proof -
  obtain c cs where s: "s = c # cs" using assms by (cases s) auto
  have cont: "cont_byte (byte_at s i) \<Longrightarrow> i < length s \<and> 0x80 \<le> byte (s ! i)" for i
    by (auto simp: cont_byte_def byte_at_def split: if_splits)
  have b0: "byte_at s 0 = byte c" "0x80 \<le> byte c"
    using assms by (simp_all add: s byte_at_def)
  show "0x80 \<le> fst (decode_rune s)"
    using assms b0 decoded_values_high
    by (simp add: decode_rune_def Let_def rune_error_def del: One_nat_def add_diff_assoc)
  have "0x80 \<le> byte (s ! i)" if w: "i < snd (decode_rune s)" for i
  proof -
    consider "i = 0" | "i = 1" | "i = 2" | "i = 3"
      using w decode_rune_conts(4) [of s] by linarith
    then have "i = 0 \<or> cont_byte (byte_at s i)"
      using w decode_rune_conts(1-3) [of s] by cases auto
    moreover have "0x80 \<le> byte (s ! 0)" by (simp add: s b0)
    ultimately show ?thesis using cont by blast
  qed
  then show "\<forall>c \<in> set (take (snd (decode_rune s)) s). 0x80 \<le> byte c"
    by (auto simp: in_set_conv_nth)
qed

lemma runes_low_mem: "byte c < 0x80 \<Longrightarrow> byte c \<in> set (runes s) \<longleftrightarrow> c \<in> set s"
proof (induction s rule: runes.induct)
  case (1 s)
  show ?case
  proof (cases s)
    case (Cons a as)
    show ?thesis
    proof (cases "byte a < 0x80")
      case True
      then have "runes s = byte a # runes as" "drop (snd (decode_rune s)) s = as"
        by (simp_all add: Cons runes_ascii_Cons decode_rune_ascii)
      with 1 Cons show ?thesis by auto
    next
      case False
      let ?w = "snd (decode_rune s)"
      note high = decode_rune_high [of s]
      have "c \<notin> set (take ?w s)" "fst (decode_rune s) \<noteq> byte c"
        using high False 1 Cons by fastforce+
      moreover have "set s = set (take ?w s) \<union> set (drop ?w s)"
        by (metis append_take_drop_id set_append)
      moreover have "runes s = fst (decode_rune s) # runes (drop ?w s)"
        using Cons by (subst runes.simps) simp
      ultimately show ?thesis using 1 Cons by auto
    qed
  qed simp
qed

lemma runes_low_inj: "runes s = map byte t \<Longrightarrow> ascii t \<Longrightarrow> s = t"
proof (induction t arbitrary: s)
  case Nil
  then show ?case by (cases s) (auto simp: runes.simps)
next
  case (Cons c t)
  then have "s \<noteq> []" "byte c < 0x80" by (auto simp: ascii_def)
  moreover have "fst (decode_rune s) = byte c"
    using Cons.prems \<open>s \<noteq> []\<close> by (simp add: runes.simps [of s])
  ultimately have low: "byte (hd s) < 0x80"
    using decode_rune_high(1) [of s] by force
  obtain a as where s: "s = a # as" using \<open>s \<noteq> []\<close> by (cases s) auto
  with low Cons.prems have "byte a = byte c" "runes as = map byte t"
    by (simp_all add: runes_ascii_Cons)
  with Cons s show ?case by (simp add: ascii_def)
qed

lemma length_runes: "length (runes s) \<le> length s"
proof (induction s rule: runes.induct)
  case (1 s)
  show ?case
  proof (cases s)
    case (Cons c cs)
    then have "0 < snd (decode_rune s)" "0 < length s" by (simp_all add: decode_rune_width)
    moreover from this have "length (runes (drop (snd (decode_rune s)) s)) \<le> length s - snd (decode_rune s)"
      using 1 Cons by simp
    moreover have "runes s = fst (decode_rune s) # runes (drop (snd (decode_rune s)) s)"
      using Cons by (subst runes.simps) simp
    ultimately show ?thesis by (simp only: list.size)
  qed simp
qed

text \<open>\<open>utf8.DecodeLastRuneInString\<close>: look back at most four bytes for a byte that can start a
  rune, decode there, and accept the rune only when it ends the string.\<close>

definition decode_last_rune :: "string \<Rightarrow> nat \<times> nat" where
  "decode_last_rune s =
    (let n = length s in
     if n = 0 then (rune_error, 0)
     else if byte_at s (n - 1) < 0x80 then (byte_at s (n - 1), 1)
     else case find (\<lambda>k. k \<le> n \<and> \<not> cont_byte (byte_at s (n - k))) [2, 3, 4] of
         None \<Rightarrow> (rune_error, 1)
       | Some k \<Rightarrow>
           (let (r, w) = decode_rune (drop (n - k) s) in if w = k then (r, w) else (rune_error, 1)))"

subsection \<open>strings\<close>

definition contains_byte :: "string \<Rightarrow> char \<Rightarrow> bool" where
  "contains_byte s c \<longleftrightarrow> c \<in> set s"

definition NUL :: char where
  "NUL = CHR 0x00"

definition has_prefix :: "string \<Rightarrow> string \<Rightarrow> bool" where
  "has_prefix s p \<longleftrightarrow> take (length p) s = p"

definition trim_prefix :: "string \<Rightarrow> string \<Rightarrow> string" where
  "trim_prefix s p = (if has_prefix s p then drop (length p) s else s)"

text \<open>\<open>unicode.IsSpace\<close>\<close>

definition is_space :: "nat \<Rightarrow> bool" where
  "is_space r \<longleftrightarrow> r \<in> set [0x09, 0x0A, 0x0B, 0x0C, 0x0D, 0x20, 0x85, 0xA0, 0x1680, 0x2028, 0x2029,
      0x202F, 0x205F, 0x3000] \<or> (0x2000 \<le> r \<and> r \<le> 0x200A)"

function trim_left :: "string \<Rightarrow> string" where
  "trim_left s =
    (if s \<noteq> [] \<and> is_space (fst (decode_rune s)) then trim_left (drop (snd (decode_rune s)) s)
     else s)"
  by pat_completeness auto
termination
  by (relation "measure length") (auto simp: decode_rune_width)

declare trim_left.simps [simp del]

lemma decode_last_rune_width:
  assumes "s \<noteq> []"
  shows "0 < snd (decode_last_rune s)"
proof -
  have "0 < k" if "find P [2, 3, 4 :: nat] = Some k" for P k
    using that by (auto simp: find_Some_iff split: if_splits)
  then show ?thesis
    using assms by (auto simp: decode_last_rune_def Let_def split: option.splits prod.splits)
qed

function trim_right :: "string \<Rightarrow> string" where
  "trim_right s =
    (if s \<noteq> [] \<and> is_space (fst (decode_last_rune s))
     then trim_right (take (length s - snd (decode_last_rune s)) s)
     else s)"
  by pat_completeness auto
termination
  by (relation "measure length") (auto simp: decode_last_rune_width)

declare trim_right.simps [simp del]

definition TrimSpace :: "string \<Rightarrow> string" where
  "TrimSpace s = trim_right (trim_left s)"

lemma length_trim_left: "length (trim_left s) \<le> length s"
proof (induction s rule: trim_left.induct)
  case (1 s)
  then show ?case by (subst trim_left.simps) auto
qed

lemma length_trim_right: "length (trim_right s) \<le> length s"
proof (induction s rule: trim_right.induct)
  case (1 s)
  then show ?case by (subst trim_right.simps) auto
qed

lemma length_TrimSpace: "length (TrimSpace s) \<le> length s"
  unfolding TrimSpace_def using length_trim_left length_trim_right le_trans by blast

lemma set_trim_left: "set (trim_left s) \<subseteq> set s"
proof (induction s rule: trim_left.induct)
  case (1 s)
  then show ?case by (subst trim_left.simps) (auto dest: in_set_dropD)
qed

lemma set_trim_right: "set (trim_right s) \<subseteq> set s"
proof (induction s rule: trim_right.induct)
  case (1 s)
  then show ?case by (subst trim_right.simps) (auto dest: in_set_takeD)
qed

lemma set_TrimSpace: "set (TrimSpace s) \<subseteq> set s"
  unfolding TrimSpace_def using set_trim_left set_trim_right by blast

text \<open>\<open>strings.Cut(s, "=")\<close>: the text after the first separator byte, if there is one.\<close>

fun cut_after :: "char \<Rightarrow> string \<Rightarrow> string option" where
  "cut_after sep [] = None"
| "cut_after sep (c # s) = (if c = sep then Some s else cut_after sep s)"

text \<open>\<open>strings.Split(s, sep)\<close> for a one-byte separator, and \<open>strings.Join\<close>.\<close>

fun split_on :: "char \<Rightarrow> string \<Rightarrow> string list" where
  "split_on sep [] = [[]]"
| "split_on sep (c # s) =
    (if c = sep then [] # split_on sep s
     else case split_on sep s of [] \<Rightarrow> [[c]] | w # ws \<Rightarrow> (c # w) # ws)"

fun join_with :: "string \<Rightarrow> string list \<Rightarrow> string" where
  "join_with sep [] = []"
| "join_with sep [w] = w"
| "join_with sep (w # v # ws) = w @ sep @ join_with sep (v # ws)"

text \<open>\<open>strings.ToLower\<close> on the ASCII letters (the program lowers UUID text and its prefixes).\<close>

definition to_lower_byte :: "char \<Rightarrow> char" where
  "to_lower_byte c = (if 0x41 \<le> byte c \<and> byte c \<le> 0x5A then char_of (byte c + 0x20) else c)"

subsection \<open>path/filepath on Unix\<close>

definition SLASH :: char where
  "SLASH = CHR ''/''"

definition IsAbs :: "string \<Rightarrow> bool" where
  "IsAbs p \<longleftrightarrow> has_prefix p ''/''"

lemma IsAbs_Cons [simp]: "IsAbs (c # s) \<longleftrightarrow> c = CHR ''/''"
  and IsAbs_Nil [simp]: "\<not> IsAbs []"
  by (auto simp: IsAbs_def has_prefix_def)

text \<open>The elements of a path kept by \<open>filepath.Clean\<close>, with the elements already kept on a
  stack: empty and \<open>.\<close> elements go, \<open>..\<close> removes the element before it, and at the root it
  disappears.\<close>

fun clean_elems :: "bool \<Rightarrow> string list \<Rightarrow> string list \<Rightarrow> string list" where
  "clean_elems rooted stack [] = rev stack"
| "clean_elems rooted stack (e # es) =
    (if e = '''' \<or> e = ''.'' then clean_elems rooted stack es
     else if e = ''..'' then
       (case stack of
          [] \<Rightarrow> clean_elems rooted (if rooted then [] else [e]) es
        | t # rest \<Rightarrow> if t = ''..'' then clean_elems rooted (e # stack) es
                    else clean_elems rooted rest es)
     else clean_elems rooted (e # stack) es)"

definition Clean :: "string \<Rightarrow> string" where
  "Clean p =
    (let body = (if IsAbs p then ''/'' else '''') @
                join_with ''/'' (clean_elems (IsAbs p) [] (split_on SLASH p))
     in if body = '''' then ''.'' else body)"

text \<open>\<open>filepath.Join(a, b)\<close>: the non-empty elements, joined and cleaned.\<close>

definition Join2 :: "string \<Rightarrow> string \<Rightarrow> string" where
  "Join2 a b =
    (let es = filter (\<lambda>e. e \<noteq> '''') [a, b] in if es = [] then '''' else Clean (join_with ''/'' es))"

definition Base :: "string \<Rightarrow> string" where
  "Base p =
    (if p = '''' then ''.''
     else let q = rev (dropWhile (\<lambda>c. c = SLASH) (rev p));
              b = rev (takeWhile (\<lambda>c. c \<noteq> SLASH) (rev q))
          in if b = '''' then ''/'' else b)"

definition Dir :: "string \<Rightarrow> string" where
  "Dir p = Clean (rev (dropWhile (\<lambda>c. c \<noteq> SLASH) (rev p)))"

lemma Clean_absolute: "IsAbs p \<Longrightarrow> IsAbs (Clean p)"
  by (simp add: Clean_def Let_def)

lemma join_with_absolute: "IsAbs a \<Longrightarrow> IsAbs (join_with ''/'' (a # ws))"
  by (cases ws; cases a) auto

lemma Join2_absolute: "IsAbs a \<Longrightarrow> IsAbs (Join2 a b)"
  unfolding Join2_def Let_def
  by (cases a) (auto intro!: Clean_absolute simp del: join_with.simps intro: join_with_absolute)

text \<open>A cleaned absolute path has no empty, \<open>.\<close> or \<open>..\<close> element.\<close>

definition plain_elem :: "string \<Rightarrow> bool" where
  "plain_elem e \<longleftrightarrow> e \<noteq> '''' \<and> e \<noteq> ''.'' \<and> e \<noteq> ''..''"

lemma clean_elems_skip: "e = '''' \<or> e = ''.'' \<Longrightarrow> clean_elems r stack (e # es) = clean_elems r stack es"
  by simp

lemma clean_elems_push: "plain_elem e \<Longrightarrow> clean_elems r stack (e # es) = clean_elems r (e # stack) es"
  by (simp add: plain_elem_def)

lemma clean_elems_up:
  "\<forall>e \<in> set stack. plain_elem e \<Longrightarrow>
    clean_elems True stack (''..'' # es) = clean_elems True (tl stack) es"
  by (cases stack) (auto simp: plain_elem_def)

declare clean_elems.simps(2) [simp del]

lemma clean_elems_plain:
  "\<forall>e \<in> set stack. plain_elem e \<Longrightarrow> \<forall>e \<in> set (clean_elems True stack es). plain_elem e"
proof (induction es arbitrary: stack)
  case (Cons e es)
  consider "e = '''' \<or> e = ''.''" | "e = ''..''" | "plain_elem e"
    by (auto simp: plain_elem_def)
  then show ?case
  proof cases
    case 1
    from Cons show ?thesis by (simp add: clean_elems_skip [OF 1])
  next
    case 2
    have "\<forall>e \<in> set (tl stack). plain_elem e"
      using Cons.prems by (cases stack) auto
    then show ?thesis using Cons by (simp add: 2 clean_elems_up)
  next
    case 3
    with Cons.prems have "\<forall>a \<in> set (e # stack). plain_elem a" by simp
    then show ?thesis using Cons.IH by (simp only: clean_elems_push [OF 3])
  qed
qed simp

subsection \<open>Numbers as text\<close>

definition digit :: "nat \<Rightarrow> char" where
  "digit d = char_of (if d < 10 then 0x30 + d else 0x57 + d)"

fun nat_dec :: "nat \<Rightarrow> string" where
  "nat_dec n = (if n < 10 then [digit n] else nat_dec (n div 10) @ [digit (n mod 10)])"

declare nat_dec.simps [simp del]

text \<open>\<open>strconv.FormatInt(n, 10)\<close> and \<open>%d\<close>.\<close>

definition int_dec :: "int \<Rightarrow> string" where
  "int_dec i = (if i < 0 then CHR ''-'' # nat_dec (nat (- i)) else nat_dec (nat i))"

text \<open>\<open>%02x\<close> of a byte, and of a byte string.\<close>

definition hex_byte :: "nat \<Rightarrow> string" where
  "hex_byte b = [digit (b div 16), digit (b mod 16)]"

definition hex_bytes :: "nat list \<Rightarrow> string" where
  "hex_bytes bs = concat (map hex_byte bs)"

lemma length_hex_bytes [simp]: "length (hex_bytes bs) = 2 * length bs"
  by (induction bs) (simp_all add: hex_bytes_def hex_byte_def)

end
