(* ===== verification/Model.thy ===== *)
theory Model
  imports Go_Std
begin

section \<open>The data model: internal/model/model.go\<close>

text \<open>
  The structs of the model package as records (a Go pointer is an option, a nil pointer
  \<^term>\<open>None\<close>), the request states as a datatype with the text the database and the wire
  protocol carry, and the JSON values that \<open>encoding/json\<close> writes for the structs. A map with
  string keys is an association list in key order, the order in which JSON prints it; nil and
  empty maps and slices have the same length and print alike under \<open>omitempty\<close>, so both are
  the empty list.
\<close>

subsection \<open>Structs\<close>

record requester =
  rq_UID :: u32
  rq_GID :: u32
  rq_PID :: "int option"
  rq_Username :: "string option"
  rq_GroupName :: "string option"

record execution =
  ex_Executable :: string
  ex_Argv :: "string list"
  ex_Cwd :: string
  ex_Env :: "(string \<times> string) list"

record file_metadata =
  fm_Path :: string
  fm_Device :: "u64 option"
  fm_Inode :: "u64 option"
  fm_Size :: "u64 option"
  fm_OwnerUID :: "u32 option"
  fm_Mode :: "u32 option"
  fm_MtimeNS :: "string option"
  fm_CtimeNS :: "string option"
  fm_SHA256 :: string

record working_directory_metadata =
  wd_Path :: string
  wd_Device :: u64
  wd_Inode :: u64
  wd_OwnerUID :: u32
  wd_Mode :: u32
  wd_MtimeNS :: string
  wd_CtimeNS :: string

record risk_metadata =
  rk_Shell :: bool
  rk_Interpreter :: bool
  rk_Script :: bool
  rk_EnvironmentOverrides :: bool
  rk_Warnings :: "string list"

record execution_request =
  er_Version :: int
  er_RequestID :: string
  er_Requester :: requester
  er_Execution :: execution
  er_ExecutableMetadata :: file_metadata
  er_InterpreterMetadata :: "file_metadata option"
  er_InterpreterArgument :: "string option"
  er_WorkingDirectoryMetadata :: working_directory_metadata
  er_Risk :: risk_metadata
  er_PolicyResult :: string
  er_Reason :: string
  er_CreatedAt :: string
  er_ExpiresAt :: string
  er_Nonce :: string

record approved_by =
  ab_Subject :: string
  ab_DisplayName :: "string option"

record approval =
  ap_Version :: int
  ap_ApprovalID :: string
  ap_RequestID :: string
  ap_RequestHash :: string
  ap_Decision :: string
  ap_ApprovedBy :: approved_by
  ap_ApprovedAt :: string
  ap_Reason :: string

subsection \<open>Request states\<close>

datatype req_status =
    Created | PolicyRejected | Queued | Synced | Waiting | Approved | Denied | Expired
  | Executing | Succeeded | Failed | Cancelled

fun status_text :: "req_status \<Rightarrow> string" where
  "status_text Created = ''CREATED''"
| "status_text PolicyRejected = ''POLICY_REJECTED''"
| "status_text Queued = ''QUEUED''"
| "status_text Synced = ''SYNCED''"
| "status_text Waiting = ''WAITING_APPROVAL''"
| "status_text Approved = ''APPROVED''"
| "status_text Denied = ''DENIED''"
| "status_text Expired = ''EXPIRED''"
| "status_text Executing = ''EXECUTING''"
| "status_text Succeeded = ''SUCCEEDED''"
| "status_text Failed = ''FAILED''"
| "status_text Cancelled = ''CANCELLED''"

fun Terminal :: "req_status \<Rightarrow> bool" where
  "Terminal PolicyRejected = True"
| "Terminal Denied = True"
| "Terminal Expired = True"
| "Terminal Succeeded = True"
| "Terminal Failed = True"
| "Terminal Cancelled = True"
| "Terminal _ = False"

definition all_statuses :: "req_status list" where
  "all_statuses = [Created, Queued, Synced, Waiting, Approved, Executing, PolicyRejected, Denied,
     Expired, Succeeded, Failed, Cancelled]"

lemma all_statuses_complete [simp]: "s \<in> set all_statuses"
  by (cases s) (simp_all add: all_statuses_def)

lemma all_statuses_distinct: "distinct all_statuses"
  by (simp add: all_statuses_def)

lemma status_text_inj: "status_text a = status_text b \<longleftrightarrow> a = b"
proof
  assume eq: "status_text a = status_text b"
  have "distinct (map status_text all_statuses)"
    by (simp add: all_statuses_def)
  then have "inj_on status_text (set all_statuses)"
    by (simp add: distinct_map)
  with eq show "a = b"
    by (auto dest: inj_onD)
qed simp

subsection \<open>JSON values\<close>

text \<open>The value a JSON text denotes. Objects keep the order in which their members are printed.\<close>

datatype json =
    JNull
  | JBool bool
  | JNum int
  | JStr string
  | JArr "json list"
  | JObj "(string \<times> json) list"

fun member :: "string \<Rightarrow> json \<Rightarrow> json option" where
  "member k (JObj ms) = map_of ms k"
| "member k _ = None"

text \<open>A member written only when it is present: \<open>omitempty\<close> on a pointer.\<close>

definition opt_member :: "string \<Rightarrow> ('a \<Rightarrow> json) \<Rightarrow> 'a option \<Rightarrow> (string \<times> json) list" where
  "opt_member k enc x = (case x of None \<Rightarrow> [] | Some v \<Rightarrow> [(k, enc v)])"

definition J32 :: "u32 \<Rightarrow> json" where
  "J32 w = JNum (uint w)"

definition J64 :: "u64 \<Rightarrow> json" where
  "J64 w = JNum (uint w)"

definition JStrs :: "string list \<Rightarrow> json" where
  "JStrs ss = JArr (map JStr ss)"

definition requester_json :: "requester \<Rightarrow> json" where
  "requester_json r = JObj (
     [(''uid'', J32 (rq_UID r)), (''gid'', J32 (rq_GID r))]
     @ opt_member ''pid'' JNum (rq_PID r)
     @ opt_member ''username'' JStr (rq_Username r)
     @ opt_member ''groupName'' JStr (rq_GroupName r))"

definition execution_json :: "execution \<Rightarrow> json" where
  "execution_json e = JObj (
     [(''executable'', JStr (ex_Executable e)), (''argv'', JStrs (ex_Argv e)),
      (''cwd'', JStr (ex_Cwd e))]
     @ (if ex_Env e = [] then []
        else [(''env'', JObj (map (\<lambda>(k, v). (k, JStr v)) (ex_Env e)))]))"

definition file_metadata_json :: "file_metadata \<Rightarrow> json" where
  "file_metadata_json m = JObj (
     [(''path'', JStr (fm_Path m))]
     @ opt_member ''device'' J64 (fm_Device m)
     @ opt_member ''inode'' J64 (fm_Inode m)
     @ opt_member ''size'' J64 (fm_Size m)
     @ opt_member ''ownerUid'' J32 (fm_OwnerUID m)
     @ opt_member ''mode'' J32 (fm_Mode m)
     @ opt_member ''mtimeNs'' JStr (fm_MtimeNS m)
     @ opt_member ''ctimeNs'' JStr (fm_CtimeNS m)
     @ [(''sha256'', JStr (fm_SHA256 m))])"

definition working_directory_metadata_json :: "working_directory_metadata \<Rightarrow> json" where
  "working_directory_metadata_json w = JObj
     [(''path'', JStr (wd_Path w)), (''device'', J64 (wd_Device w)), (''inode'', J64 (wd_Inode w)),
      (''ownerUid'', J32 (wd_OwnerUID w)), (''mode'', J32 (wd_Mode w)),
      (''mtimeNs'', JStr (wd_MtimeNS w)), (''ctimeNs'', JStr (wd_CtimeNS w))]"

definition risk_metadata_json :: "risk_metadata \<Rightarrow> json" where
  "risk_metadata_json r = JObj
     [(''shell'', JBool (rk_Shell r)), (''interpreter'', JBool (rk_Interpreter r)),
      (''script'', JBool (rk_Script r)),
      (''environmentOverrides'', JBool (rk_EnvironmentOverrides r)),
      (''warnings'', JStrs (rk_Warnings r))]"

definition execution_request_json :: "execution_request \<Rightarrow> json" where
  "execution_request_json r = JObj (
     [(''version'', JNum (er_Version r)), (''requestId'', JStr (er_RequestID r)),
      (''requester'', requester_json (er_Requester r)),
      (''execution'', execution_json (er_Execution r)),
      (''executableMetadata'', file_metadata_json (er_ExecutableMetadata r))]
     @ opt_member ''interpreterMetadata'' file_metadata_json (er_InterpreterMetadata r)
     @ opt_member ''interpreterArgument'' JStr (er_InterpreterArgument r)
     @ [(''workingDirectoryMetadata'',
           working_directory_metadata_json (er_WorkingDirectoryMetadata r)),
        (''risk'', risk_metadata_json (er_Risk r)), (''policyResult'', JStr (er_PolicyResult r)),
        (''reason'', JStr (er_Reason r)), (''createdAt'', JStr (er_CreatedAt r)),
        (''expiresAt'', JStr (er_ExpiresAt r)), (''nonce'', JStr (er_Nonce r))])"

definition approved_by_json :: "approved_by \<Rightarrow> json" where
  "approved_by_json a = JObj
     ((''subject'', JStr (ab_Subject a)) # opt_member ''displayName'' JStr (ab_DisplayName a))"

definition approval_json :: "approval \<Rightarrow> json" where
  "approval_json a = JObj
     [(''version'', JNum (ap_Version a)), (''approvalId'', JStr (ap_ApprovalID a)),
      (''requestId'', JStr (ap_RequestID a)), (''requestHash'', JStr (ap_RequestHash a)),
      (''decision'', JStr (ap_Decision a)), (''approvedBy'', approved_by_json (ap_ApprovedBy a)),
      (''approvedAt'', JStr (ap_ApprovedAt a)), (''reason'', JStr (ap_Reason a))]"

end
