(* ===== verification/Local_Creds.thy ===== *)
theory Local_Creds
  imports Model
begin

section \<open>Peer credentials: internal/localcreds/credentials\_linux.go\<close>

text \<open>
  The server side of the handshake: the kernel's \<open>SO_PEERCRED\<close> answer for a Unix connection becomes the
  caller's identity, with names looked up for display. What the kernel and the user database answer
  is a record; nothing in it comes from the request.
\<close>

record auth_info =
  au_UID :: u32
  au_GID :: u32
  au_PID :: int
  au_Username :: string
  au_GroupName :: string

definition AuthType :: string where
  "AuthType = ''linux-so-peercred''"

text \<open>The rest of the interface: the protocol's name, a copy, and a server name that is ignored. \<open>Credentials\<close> has no fields.\<close>

definition Info :: string where
  "Info = ''linux-so-peercred''"

definition Clone :: "unit \<Rightarrow> unit" where
  "Clone c = ()"

definition OverrideServerName :: "string \<Rightarrow> unit res" where
  "OverrideServerName name = Inr ()"

record connection =
  cn_unix :: bool
  cn_SyscallConn :: "unit res"
  cn_Control :: "unit res"
  cn_peercred :: "(u32 \<times> u32 \<times> int) res"

record user_database =
  db_user :: "string \<Rightarrow> string res"
  db_group :: "string \<Rightarrow> string res"

definition name_or_empty :: "string res \<Rightarrow> string" where
  "name_or_empty r = (case r of Inl _ \<Rightarrow> '''' | Inr name \<Rightarrow> name)"

definition ClientHandshake :: "auth_info res" where
  "ClientHandshake = Inl (Plain ''SO_PEERCRED credentials are server-side only'')"

definition ServerHandshake :: "user_database \<Rightarrow> connection \<Rightarrow> auth_info res" where
  "ServerHandshake db conn =
     (if \<not> cn_unix conn then Inl (Plain ''local broker requires a Unix socket'')
      else case cn_SyscallConn conn of Inl e \<Rightarrow> Inl e | Inr _ \<Rightarrow>
        (case cn_Control conn of Inl e \<Rightarrow> Inl e | Inr _ \<Rightarrow>
          (case cn_peercred conn of Inl e \<Rightarrow> Inl e
           | Inr (uid, gid, pid) \<Rightarrow> Inr
               \<lparr>au_UID = uid, au_GID = gid, au_PID = pid,
                au_Username = name_or_empty (db_user db (nat_dec (unat uid))),
                au_GroupName = name_or_empty (db_group db (nat_dec (unat gid)))\<rparr>)))"

text \<open>The caller's identity is the kernel's answer: a handshake that succeeds was made on a Unix socket,
  and its user, group and process are those the kernel reported for the peer, whatever the user
  database says; a failing lookup only leaves a name empty.\<close>

lemma ServerHandshake_kernel_identity:
  "ServerHandshake db conn = Inr info \<longleftrightarrow>
     cn_unix conn \<and> cn_SyscallConn conn = Inr () \<and> cn_Control conn = Inr ()
     \<and> cn_peercred conn = Inr (au_UID info, au_GID info, au_PID info)
     \<and> au_Username info = name_or_empty (db_user db (nat_dec (unat (au_UID info))))
     \<and> au_GroupName info = name_or_empty (db_group db (nat_dec (unat (au_GID info))))"
  by (cases info) (auto simp: ServerHandshake_def split: sum.splits prod.splits)

end
