(* ===== verification/Json_Codec.thy ===== *)
theory Json_Codec
  imports Model
begin

section \<open>encoding/json on the model's structs\<close>

text \<open>
  The text \<open>json.Marshal\<close> writes for a JSON value, and the structs \<open>json.Unmarshal\<close> reads
  back. Marshalling replaces every byte that is not valid UTF-8 by the escape of U+FFFD, so
  reading back a string gives \<open>coerce_utf8\<close> of it. Unmarshalling is modelled on the value the
  text denotes: members are found by their exact name (the library also accepts other
  capitalisations, which nothing in the program writes), an absent member or \<open>null\<close> leaves the
  zero value, a member of the wrong kind is an error.
\<close>

subsection \<open>Runes with their bytes\<close>

function spans :: "string \<Rightarrow> (nat \<times> string) list" where
  "spans s =
    (if s = [] then []
     else (fst (decode_rune s), take (snd (decode_rune s)) s) # spans (drop (snd (decode_rune s)) s))"
  by pat_completeness auto
termination
  by (relation "measure length") (auto simp: decode_rune_width)

declare spans.simps [simp del]

text \<open>\<open>utf8.AppendRune\<close>\<close>

definition encode_rune :: "nat \<Rightarrow> string" where
  "encode_rune r =
    (if r < 0x80 then [char_of r]
     else if r < 0x800 then [char_of (0xC0 + r div 64), char_of (0x80 + r mod 64)]
     else if (0xD800 \<le> r \<and> r \<le> 0xDFFF) \<or> 0x10FFFF < r
     then [char_of (0xEF :: nat), char_of (0xBF :: nat), char_of (0xBD :: nat)]
     else if r < 0x10000
     then [char_of (0xE0 + r div 4096), char_of (0x80 + r div 64 mod 64), char_of (0x80 + r mod 64)]
     else [char_of (0xF0 + r div 262144), char_of (0x80 + r div 4096 mod 64),
           char_of (0x80 + r div 64 mod 64), char_of (0x80 + r mod 64)])"

definition coerce_utf8 :: "string \<Rightarrow> string" where
  "coerce_utf8 s = concat (map encode_rune (runes s))"

definition valid_utf8 :: "string \<Rightarrow> bool" where
  "valid_utf8 s \<longleftrightarrow> coerce_utf8 s = s"

lemma encode_rune_byte: "byte c < 0x80 \<Longrightarrow> encode_rune (byte c) = [c]"
  by (simp add: encode_rune_def byte_def)

lemma valid_utf8_ascii: "ascii s \<Longrightarrow> valid_utf8 s"
  unfolding valid_utf8_def coerce_utf8_def
  by (simp add: runes_ascii) (induction s; simp add: ascii_def encode_rune_byte)

subsection \<open>Printing\<close>

definition u_escape :: "nat \<Rightarrow> string" where
  "u_escape r = [CHR 0x5C, CHR ''u''] @ hex_byte (r div 256) @ hex_byte (r mod 256)"

text \<open>One rune of a string literal, with the HTML escaping \<open>json.Marshal\<close> applies.\<close>

definition json_rune :: "nat \<times> string \<Rightarrow> string" where
  "json_rune p =
    (case p of (r, bs) \<Rightarrow>
       if r = 0x22 \<or> r = 0x5C then CHR 0x5C # bs
       else if r = 0x08 then [CHR 0x5C, CHR ''b'']
       else if r = 0x0C then [CHR 0x5C, CHR ''f'']
       else if r = 0x0A then [CHR 0x5C, CHR ''n'']
       else if r = 0x0D then [CHR 0x5C, CHR ''r'']
       else if r = 0x09 then [CHR 0x5C, CHR ''t'']
       else if r < 0x20 \<or> r = 0x3C \<or> r = 0x3E \<or> r = 0x26 then u_escape r
       else if r = rune_error \<and> length bs = 1 then u_escape r
       else if r = 0x2028 \<or> r = 0x2029 then u_escape r
       else bs)"

definition json_string :: "string \<Rightarrow> string" where
  "json_string s = [CHR 0x22] @ concat (map json_rune (spans s)) @ [CHR 0x22]"

fun json_text :: "json \<Rightarrow> string" where
  "json_text JNull = ''null''"
| "json_text (JBool b) = (if b then ''true'' else ''false'')"
| "json_text (JNum i) = int_dec i"
| "json_text (JStr s) = json_string s"
| "json_text (JArr js) = ''['' @ join_with '','' (map json_text js) @ '']''"
| "json_text (JObj ms) =
    ''{'' @ join_with '','' (map (\<lambda>m. json_string (fst m) @ '':'' @ json_text (snd m)) ms) @ ''}''"

subsection \<open>Reading structs back\<close>

definition json_err :: err where
  "json_err = External ''json: cannot unmarshal''"

definition res_bind :: "'a res \<Rightarrow> ('a \<Rightarrow> 'b res) \<Rightarrow> 'b res" where
  "res_bind r f = (case r of Inl e \<Rightarrow> Inl e | Inr x \<Rightarrow> f x)"

lemma res_bind_simps [simp]: "res_bind (Inl e) f = Inl e" "res_bind (Inr x) f = f x"
  by (simp_all add: res_bind_def)

fun map_res :: "('a \<Rightarrow> 'b res) \<Rightarrow> 'a list \<Rightarrow> 'b list res" where
  "map_res f [] = Inr []"
| "map_res f (x # xs) = res_bind (f x) (\<lambda>y. res_bind (map_res f xs) (\<lambda>ys. Inr (y # ys)))"

fun dec_str :: "json option \<Rightarrow> string res" where
  "dec_str None = Inr ''''"
| "dec_str (Some JNull) = Inr ''''"
| "dec_str (Some (JStr s)) = Inr (coerce_utf8 s)"
| "dec_str (Some _) = Inl json_err"

fun dec_bool :: "json option \<Rightarrow> bool res" where
  "dec_bool None = Inr False"
| "dec_bool (Some JNull) = Inr False"
| "dec_bool (Some (JBool b)) = Inr b"
| "dec_bool (Some _) = Inl json_err"

text \<open>An integer member, within the range of the field's type.\<close>

fun dec_int :: "int \<Rightarrow> int \<Rightarrow> json option \<Rightarrow> int res" where
  "dec_int lo hi None = Inr 0"
| "dec_int lo hi (Some JNull) = Inr 0"
| "dec_int lo hi (Some (JNum i)) = (if lo \<le> i \<and> i \<le> hi then Inr i else Inl json_err)"
| "dec_int lo hi (Some _) = Inl json_err"

definition dec_u32 :: "json option \<Rightarrow> u32 res" where
  "dec_u32 j = res_bind (dec_int 0 (2 ^ 32 - 1) j) (\<lambda>i. Inr (word_of_int i))"

definition dec_u64 :: "json option \<Rightarrow> u64 res" where
  "dec_u64 j = res_bind (dec_int 0 (2 ^ 64 - 1) j) (\<lambda>i. Inr (word_of_int i))"

text \<open>A pointer field: nil when the member is absent or null.\<close>

definition dec_ptr :: "(json option \<Rightarrow> 'a res) \<Rightarrow> json option \<Rightarrow> 'a option res" where
  "dec_ptr dec j =
    (case j of None \<Rightarrow> Inr None | Some JNull \<Rightarrow> Inr None
     | Some v \<Rightarrow> res_bind (dec (Some v)) (\<lambda>x. Inr (Some x)))"

fun dec_strs :: "json option \<Rightarrow> string list res" where
  "dec_strs None = Inr []"
| "dec_strs (Some JNull) = Inr []"
| "dec_strs (Some (JArr js)) = map_res (\<lambda>j. dec_str (Some j)) js"
| "dec_strs (Some _) = Inl json_err"

fun dec_str_map :: "json option \<Rightarrow> (string \<times> string) list res" where
  "dec_str_map None = Inr []"
| "dec_str_map (Some JNull) = Inr []"
| "dec_str_map (Some (JObj ms)) =
    map_res (\<lambda>(k, j). res_bind (dec_str (Some j)) (\<lambda>v. Inr (coerce_utf8 k, v))) ms"
| "dec_str_map (Some _) = Inl json_err"

text \<open>A struct field: an absent or null member leaves the zero struct, which is what decoding an
  object with no members gives; anything but an object is an error.\<close>

fun struct_of :: "json option \<Rightarrow> json res" where
  "struct_of None = Inr (JObj [])"
| "struct_of (Some JNull) = Inr (JObj [])"
| "struct_of (Some (JObj ms)) = Inr (JObj ms)"
| "struct_of (Some _) = Inl json_err"

definition dec_requester :: "json option \<Rightarrow> requester res" where
  "dec_requester v =
    res_bind (struct_of v) (\<lambda>j.
    res_bind (dec_u32 (member ''uid'' j)) (\<lambda>uid.
    res_bind (dec_u32 (member ''gid'' j)) (\<lambda>gid.
    res_bind (dec_ptr (dec_int (- 2147483648) 2147483647) (member ''pid'' j)) (\<lambda>pid.
    res_bind (dec_ptr dec_str (member ''username'' j)) (\<lambda>user.
    res_bind (dec_ptr dec_str (member ''groupName'' j)) (\<lambda>grp.
      Inr \<lparr>rq_UID = uid, rq_GID = gid, rq_PID = pid, rq_Username = user, rq_GroupName = grp\<rparr>))))))"

definition dec_execution :: "json option \<Rightarrow> execution res" where
  "dec_execution v =
    res_bind (struct_of v) (\<lambda>j.
    res_bind (dec_str (member ''executable'' j)) (\<lambda>x.
    res_bind (dec_strs (member ''argv'' j)) (\<lambda>argv.
    res_bind (dec_str (member ''cwd'' j)) (\<lambda>cwd.
    res_bind (dec_str_map (member ''env'' j)) (\<lambda>env.
      Inr \<lparr>ex_Executable = x, ex_Argv = argv, ex_Cwd = cwd, ex_Env = env\<rparr>)))))"

definition dec_file_metadata :: "json option \<Rightarrow> file_metadata res" where
  "dec_file_metadata v =
    res_bind (struct_of v) (\<lambda>j.
    res_bind (dec_str (member ''path'' j)) (\<lambda>path.
    res_bind (dec_ptr dec_u64 (member ''device'' j)) (\<lambda>dev.
    res_bind (dec_ptr dec_u64 (member ''inode'' j)) (\<lambda>ino.
    res_bind (dec_ptr dec_u64 (member ''size'' j)) (\<lambda>size.
    res_bind (dec_ptr dec_u32 (member ''ownerUid'' j)) (\<lambda>owner.
    res_bind (dec_ptr dec_u32 (member ''mode'' j)) (\<lambda>mode.
    res_bind (dec_ptr dec_str (member ''mtimeNs'' j)) (\<lambda>mtime.
    res_bind (dec_ptr dec_str (member ''ctimeNs'' j)) (\<lambda>ctime.
    res_bind (dec_str (member ''sha256'' j)) (\<lambda>sha.
      Inr \<lparr>fm_Path = path, fm_Device = dev, fm_Inode = ino, fm_Size = size, fm_OwnerUID = owner,
           fm_Mode = mode, fm_MtimeNS = mtime, fm_CtimeNS = ctime, fm_SHA256 = sha\<rparr>))))))))))"

definition dec_working_directory_metadata :: "json option \<Rightarrow> working_directory_metadata res" where
  "dec_working_directory_metadata v =
    res_bind (struct_of v) (\<lambda>j.
    res_bind (dec_str (member ''path'' j)) (\<lambda>path.
    res_bind (dec_u64 (member ''device'' j)) (\<lambda>dev.
    res_bind (dec_u64 (member ''inode'' j)) (\<lambda>ino.
    res_bind (dec_u32 (member ''ownerUid'' j)) (\<lambda>owner.
    res_bind (dec_u32 (member ''mode'' j)) (\<lambda>mode.
    res_bind (dec_str (member ''mtimeNs'' j)) (\<lambda>mtime.
    res_bind (dec_str (member ''ctimeNs'' j)) (\<lambda>ctime.
      Inr \<lparr>wd_Path = path, wd_Device = dev, wd_Inode = ino, wd_OwnerUID = owner, wd_Mode = mode,
           wd_MtimeNS = mtime, wd_CtimeNS = ctime\<rparr>))))))))"

definition dec_risk_metadata :: "json option \<Rightarrow> risk_metadata res" where
  "dec_risk_metadata v =
    res_bind (struct_of v) (\<lambda>j.
    res_bind (dec_bool (member ''shell'' j)) (\<lambda>shell.
    res_bind (dec_bool (member ''interpreter'' j)) (\<lambda>interp.
    res_bind (dec_bool (member ''script'' j)) (\<lambda>script.
    res_bind (dec_bool (member ''environmentOverrides'' j)) (\<lambda>envo.
    res_bind (dec_strs (member ''warnings'' j)) (\<lambda>warns.
      Inr \<lparr>rk_Shell = shell, rk_Interpreter = interp, rk_Script = script,
           rk_EnvironmentOverrides = envo, rk_Warnings = warns\<rparr>))))))"

definition dec_execution_request :: "json \<Rightarrow> execution_request res" where
  "dec_execution_request v =
    res_bind (struct_of (Some v)) (\<lambda>j.
    res_bind (dec_int (- (2 ^ 63)) (2 ^ 63 - 1) (member ''version'' j)) (\<lambda>ver.
    res_bind (dec_str (member ''requestId'' j)) (\<lambda>rid.
    res_bind (dec_requester (member ''requester'' j)) (\<lambda>rq.
    res_bind (dec_execution (member ''execution'' j)) (\<lambda>ex.
    res_bind (dec_file_metadata (member ''executableMetadata'' j)) (\<lambda>xm.
    res_bind (dec_ptr dec_file_metadata (member ''interpreterMetadata'' j)) (\<lambda>im.
    res_bind (dec_ptr dec_str (member ''interpreterArgument'' j)) (\<lambda>ia.
    res_bind (dec_working_directory_metadata (member ''workingDirectoryMetadata'' j)) (\<lambda>wd.
    res_bind (dec_risk_metadata (member ''risk'' j)) (\<lambda>rk.
    res_bind (dec_str (member ''policyResult'' j)) (\<lambda>pol.
    res_bind (dec_str (member ''reason'' j)) (\<lambda>reason.
    res_bind (dec_str (member ''createdAt'' j)) (\<lambda>created.
    res_bind (dec_str (member ''expiresAt'' j)) (\<lambda>expires.
    res_bind (dec_str (member ''nonce'' j)) (\<lambda>nonce.
      Inr \<lparr>er_Version = ver, er_RequestID = rid, er_Requester = rq, er_Execution = ex,
           er_ExecutableMetadata = xm, er_InterpreterMetadata = im, er_InterpreterArgument = ia,
           er_WorkingDirectoryMetadata = wd, er_Risk = rk, er_PolicyResult = pol,
           er_Reason = reason, er_CreatedAt = created, er_ExpiresAt = expires,
           er_Nonce = nonce\<rparr>)))))))))))))))"

definition dec_approved_by :: "json option \<Rightarrow> approved_by res" where
  "dec_approved_by v =
    res_bind (struct_of v) (\<lambda>j.
    res_bind (dec_str (member ''subject'' j)) (\<lambda>subj.
    res_bind (dec_ptr dec_str (member ''displayName'' j)) (\<lambda>name.
      Inr \<lparr>ab_Subject = subj, ab_DisplayName = name\<rparr>)))"

definition dec_approval :: "json \<Rightarrow> approval res" where
  "dec_approval v =
    res_bind (struct_of (Some v)) (\<lambda>j.
    res_bind (dec_int (- (2 ^ 63)) (2 ^ 63 - 1) (member ''version'' j)) (\<lambda>ver.
    res_bind (dec_str (member ''approvalId'' j)) (\<lambda>aid.
    res_bind (dec_str (member ''requestId'' j)) (\<lambda>rid.
    res_bind (dec_str (member ''requestHash'' j)) (\<lambda>hash.
    res_bind (dec_str (member ''decision'' j)) (\<lambda>dec.
    res_bind (dec_approved_by (member ''approvedBy'' j)) (\<lambda>by.
    res_bind (dec_str (member ''approvedAt'' j)) (\<lambda>at.
    res_bind (dec_str (member ''reason'' j)) (\<lambda>reason.
      Inr \<lparr>ap_Version = ver, ap_ApprovalID = aid, ap_RequestID = rid, ap_RequestHash = hash,
           ap_Decision = dec, ap_ApprovedBy = by, ap_ApprovedAt = at, ap_Reason = reason\<rparr>)))))))))"

subsection \<open>The round trip\<close>

definition valid_opt :: "string option \<Rightarrow> bool" where
  "valid_opt x \<longleftrightarrow> (case x of None \<Rightarrow> True | Some s \<Rightarrow> valid_utf8 s)"

definition valid_strs :: "string list \<Rightarrow> bool" where
  "valid_strs ss \<longleftrightarrow> list_all valid_utf8 ss"

definition valid_requester :: "requester \<Rightarrow> bool" where
  "valid_requester r \<longleftrightarrow> valid_opt (rq_Username r) \<and> valid_opt (rq_GroupName r)
     \<and> (case rq_PID r of None \<Rightarrow> True | Some p \<Rightarrow> - 2147483648 \<le> p \<and> p \<le> 2147483647)"

definition valid_execution :: "execution \<Rightarrow> bool" where
  "valid_execution e \<longleftrightarrow> valid_utf8 (ex_Executable e) \<and> valid_strs (ex_Argv e)
     \<and> valid_utf8 (ex_Cwd e) \<and> list_all (\<lambda>(k, v). valid_utf8 k \<and> valid_utf8 v) (ex_Env e)"

definition valid_file_metadata :: "file_metadata \<Rightarrow> bool" where
  "valid_file_metadata m \<longleftrightarrow> valid_utf8 (fm_Path m) \<and> valid_opt (fm_MtimeNS m)
     \<and> valid_opt (fm_CtimeNS m) \<and> valid_utf8 (fm_SHA256 m)"

definition valid_working_directory_metadata :: "working_directory_metadata \<Rightarrow> bool" where
  "valid_working_directory_metadata w \<longleftrightarrow> valid_utf8 (wd_Path w) \<and> valid_utf8 (wd_MtimeNS w)
     \<and> valid_utf8 (wd_CtimeNS w)"

definition valid_request :: "execution_request \<Rightarrow> bool" where
  "valid_request r \<longleftrightarrow>
     int64_range (er_Version r) \<and> valid_utf8 (er_RequestID r) \<and> valid_requester (er_Requester r)
     \<and> valid_execution (er_Execution r) \<and> valid_file_metadata (er_ExecutableMetadata r)
     \<and> (case er_InterpreterMetadata r of None \<Rightarrow> True | Some m \<Rightarrow> valid_file_metadata m)
     \<and> valid_opt (er_InterpreterArgument r)
     \<and> valid_working_directory_metadata (er_WorkingDirectoryMetadata r)
     \<and> valid_strs (rk_Warnings (er_Risk r)) \<and> valid_utf8 (er_PolicyResult r)
     \<and> valid_utf8 (er_Reason r) \<and> valid_utf8 (er_CreatedAt r) \<and> valid_utf8 (er_ExpiresAt r)
     \<and> valid_utf8 (er_Nonce r)"

definition valid_approval :: "approval \<Rightarrow> bool" where
  "valid_approval a \<longleftrightarrow>
     int64_range (ap_Version a) \<and> valid_utf8 (ap_ApprovalID a) \<and> valid_utf8 (ap_RequestID a)
     \<and> valid_utf8 (ap_RequestHash a) \<and> valid_utf8 (ap_Decision a)
     \<and> valid_utf8 (ab_Subject (ap_ApprovedBy a)) \<and> valid_opt (ab_DisplayName (ap_ApprovedBy a))
     \<and> valid_utf8 (ap_ApprovedAt a) \<and> valid_utf8 (ap_Reason a)"

lemma coerce_valid [simp]: "valid_utf8 s \<Longrightarrow> coerce_utf8 s = s"
  by (simp add: valid_utf8_def)

lemma dec_u32_J32 [simp]: "dec_u32 (Some (J32 w)) = Inr w"
proof -
  have "uint w \<le> 2 ^ 32 - 1" using uint_lt2p [of w] by simp
  then show ?thesis by (simp add: dec_u32_def J32_def)
qed

lemma dec_u64_J64 [simp]: "dec_u64 (Some (J64 w)) = Inr w"
proof -
  have "uint w \<le> 2 ^ 64 - 1" using uint_lt2p [of w] by simp
  then show ?thesis by (simp add: dec_u64_def J64_def)
qed

lemma J_not_null [simp]: "J32 w \<noteq> JNull" "J64 v \<noteq> JNull"
  by (simp_all add: J32_def J64_def)

lemma map_res_JStr: "valid_strs ss \<Longrightarrow> map_res (\<lambda>j. dec_str (Some j)) (map JStr ss) = Inr ss"
  by (induction ss) (simp_all add: valid_strs_def)

lemma dec_strs_JStrs [simp]: "valid_strs ss \<Longrightarrow> dec_strs (Some (JStrs ss)) = Inr ss"
  by (simp add: JStrs_def map_res_JStr)

lemma dec_str_map_pairs:
  "list_all (\<lambda>(k, v). valid_utf8 k \<and> valid_utf8 v) ms \<Longrightarrow>
    map_res (\<lambda>(k, j). res_bind (dec_str (Some j)) (\<lambda>v. Inr (coerce_utf8 k, v)))
      (map (\<lambda>(k, v). (k, JStr v)) ms) = Inr ms"
  by (induction ms) (auto simp: valid_utf8_def)

lemma dec_ptr_None [simp]: "dec_ptr dec None = Inr None"
  by (simp add: dec_ptr_def)

lemma dec_ptr_Some:
  "j \<noteq> JNull \<Longrightarrow> dec (Some j) = Inr x \<Longrightarrow> dec_ptr dec (Some j) = Inr (Some x)"
  by (cases j) (simp_all add: dec_ptr_def)

text \<open>A pointer member decodes to the pointer it was printed for.\<close>

lemma dec_ptr_map_option:
  "(\<And>v. x = Some v \<Longrightarrow> enc v \<noteq> JNull \<and> dec (Some (enc v)) = Inr v) \<Longrightarrow>
    dec_ptr dec (map_option enc x) = Inr x"
  by (cases x) (simp_all add: dec_ptr_Some)

text \<open>Looking a member up in an object with optional members, none of which repeats a name.\<close>

lemma keys_opt_member [simp]:
  "k' \<in> fst ` set (opt_member k enc x) \<longleftrightarrow> k' = k \<and> x \<noteq> None"
  by (cases x) (simp_all add: opt_member_def)

lemma map_of_opt_member_other:
  "k' \<noteq> k \<Longrightarrow> map_of (opt_member k enc x @ ms) k' = map_of ms k'"
  by (cases x) (simp_all add: opt_member_def)

lemma map_of_opt_member_same:
  "k \<notin> fst ` set ms \<Longrightarrow> map_of (opt_member k enc x @ ms) k = map_option enc x"
  by (cases x) (simp_all add: opt_member_def map_of_eq_None_iff)

lemma map_of_opt_member [simp]:
  "map_of (opt_member k enc x) k' = (if k' = k then map_option enc x else None)"
  by (cases x) (auto simp: opt_member_def)

lemma dec_ptr_str [simp]: "valid_opt x \<Longrightarrow> dec_ptr dec_str (map_option JStr x) = Inr x"
  by (rule dec_ptr_map_option) (simp add: valid_opt_def)

lemma dec_ptr_int [simp]:
  "(case x of None \<Rightarrow> True | Some i \<Rightarrow> lo \<le> i \<and> i \<le> hi) \<Longrightarrow>
    dec_ptr (dec_int lo hi) (map_option JNum x) = Inr x"
  by (rule dec_ptr_map_option) simp

declare map_of_append [simp del]

lemmas roundtrip_simps =
  dec_ptr_map_option dec_str_map_pairs map_of_opt_member_other
  map_of_opt_member_same image_Un

lemma dec_requester_json:
  "valid_requester r \<Longrightarrow> dec_requester (Some (requester_json r)) = Inr r"
  by (simp add: dec_requester_def requester_json_def valid_requester_def roundtrip_simps)

lemma dec_execution_json:
  "valid_execution e \<Longrightarrow> dec_execution (Some (execution_json e)) = Inr e"
  by (simp add: dec_execution_def execution_json_def valid_execution_def roundtrip_simps)

lemma dec_file_metadata_json:
  "valid_file_metadata m \<Longrightarrow> dec_file_metadata (Some (file_metadata_json m)) = Inr m"
  by (simp add: dec_file_metadata_def file_metadata_json_def valid_file_metadata_def
      roundtrip_simps)

lemma dec_working_directory_metadata_json:
  "valid_working_directory_metadata w \<Longrightarrow>
    dec_working_directory_metadata (Some (working_directory_metadata_json w)) = Inr w"
  by (simp add: dec_working_directory_metadata_def working_directory_metadata_json_def
      valid_working_directory_metadata_def)

lemma dec_risk_metadata_json:
  "valid_strs (rk_Warnings r) \<Longrightarrow> dec_risk_metadata (Some (risk_metadata_json r)) = Inr r"
  by (simp add: dec_risk_metadata_def risk_metadata_json_def)

lemma dec_ptr_file_metadata [simp]:
  "(case x of None \<Rightarrow> True | Some m \<Rightarrow> valid_file_metadata m) \<Longrightarrow>
    dec_ptr dec_file_metadata (map_option file_metadata_json x) = Inr x"
  by (rule dec_ptr_map_option) (simp add: dec_file_metadata_json, simp add: file_metadata_json_def)

lemma dec_execution_request_json:
  "valid_request r \<Longrightarrow> dec_execution_request (execution_request_json r) = Inr r"
  by (simp add: dec_execution_request_def execution_request_json_def valid_request_def
      dec_requester_json dec_execution_json dec_file_metadata_json
      dec_working_directory_metadata_json dec_risk_metadata_json int64_range_def
      roundtrip_simps)

lemma dec_approval_json:
  "valid_approval a \<Longrightarrow> dec_approval (approval_json a) = Inr a"
  by (simp add: dec_approval_def approval_json_def valid_approval_def dec_approved_by_def
      approved_by_json_def int64_range_def roundtrip_simps)

end
