(* ===== verification/Daemon_Input.thy ===== *)
theory Daemon_Input
  imports Local_Creds Json_Codec
begin

section \<open>Callers, input checks and display: internal/daemon/service.go\<close>

subsection \<open>Who calls\<close>

text \<open>The context of a call: the peer gRPC found for it (none, one whose authentication information is of
  another type, or one with peer credentials), and the error of the context if it was cancelled or its
  deadline passed.\<close>

record call_context =
  cx_peer :: "auth_info option option"
  cx_Err :: "err option"

definition requester_of :: "call_context \<Rightarrow> requester res" where
  "requester_of ctx =
     (case cx_peer ctx of
        None \<Rightarrow> Inl (Status Unauthenticated ''missing Unix peer credentials'')
      | Some None \<Rightarrow> Inl (Status Unauthenticated ''invalid Unix peer credentials'')
      | Some (Some auth) \<Rightarrow> Inr
          \<lparr>rq_UID = au_UID auth, rq_GID = au_GID auth, rq_PID = Some (au_PID auth),
           rq_Username = (if au_Username auth \<noteq> '''' then Some (au_Username auth) else None),
           rq_GroupName = (if au_GroupName auth \<noteq> '''' then Some (au_GroupName auth) else None)\<rparr>)"

definition rootRequester :: "call_context \<Rightarrow> requester res" where
  "rootRequester ctx = res_bind (requester_of ctx) (\<lambda>actor.
     if rq_UID actor \<noteq> 0
     then Inl (Status PermissionDenied ''this operation requires a process currently running as root'')
     else Inr actor)"

lemma rootRequester_Inr: "rootRequester ctx = Inr actor \<longleftrightarrow> requester_of ctx = Inr actor \<and> rq_UID actor = 0"
  by (cases "requester_of ctx") (auto simp: rootRequester_def)

subsection \<open>Submit requests\<close>

record submit_request =
  si_Executable :: string
  si_Argv :: "string list"
  si_Cwd :: string
  si_Env :: "(string \<times> string) list"
  si_Reason :: string
  si_TimeoutMs :: int

text \<open>The argument loop: the first bad argument, or the total size.\<close>

fun check_argv :: "int \<Rightarrow> string list \<Rightarrow> int option" where
  "check_argv tot [] = Some tot"
| "check_argv tot (v # vs) =
     (if length v > 131072 \<or> contains_byte v NUL then None else check_argv (tot + int (length v)) vs)"

definition validateSubmit :: "submit_request option \<Rightarrow> unit res" where
  "validateSubmit input =
     (case input of None \<Rightarrow> Inl (Plain ''request is required'')
      | Some i \<Rightarrow>
        if length (si_Executable i) = 0 \<or> length (si_Executable i) > 4096 \<or> contains_byte (si_Executable i) NUL
        then Inl (Plain ''invalid executable'')
        else if length (si_Cwd i) = 0 \<or> length (si_Cwd i) > 4096 \<or> contains_byte (si_Cwd i) NUL \<or> \<not> IsAbs (si_Cwd i)
        then Inl (Plain ''working directory must be a valid absolute path'')
        else if length (si_Reason i) > 4096 \<or> TrimSpace (si_Reason i) = '''' \<or> contains_byte (si_Reason i) NUL
        then Inl (Plain ''a non-empty reason is required'')
        else if si_TimeoutMs i < 1000 \<or> si_TimeoutMs i > 86400000 \<or> length (si_Argv i) > 4096
        then Inl (Plain ''invalid arguments, environment, or timeout'')
        else if si_Env i \<noteq> [] then Inl (Plain ''environment overrides are not supported'')
        else case check_argv 0 (si_Argv i) of
            None \<Rightarrow> Inl (Plain ''invalid command argument'')
          | Some n \<Rightarrow> if n > 384 * 1024 then Inl (Plain ''request payload is too large'') else Inr ())"

lemma check_argv_iff:
  "check_argv n vs = Some m \<longleftrightarrow>
     (\<forall>v \<in> set vs. length v \<le> 131072 \<and> NUL \<notin> set v) \<and> m = n + (\<Sum>v \<leftarrow> vs. int (length v))"
  by (induction vs arbitrary: n) (auto simp: contains_byte_def)

text \<open>(C36) A submission passes the input checks exactly when its executable, directory, reason, timeout and
  arguments are all within the limits: non-empty paths of at most 4096 bytes, an absolute directory, a
  visible reason, between one second and one day, no environment, at most 4096 arguments of at most
  128 KiB and 384 KiB in total, and no NUL byte anywhere.\<close>

theorem validateSubmit_iff:
  "validateSubmit (Some i) = Inr () \<longleftrightarrow>
     si_Executable i \<noteq> [] \<and> length (si_Executable i) \<le> 4096 \<and> NUL \<notin> set (si_Executable i)
     \<and> si_Cwd i \<noteq> [] \<and> length (si_Cwd i) \<le> 4096 \<and> NUL \<notin> set (si_Cwd i) \<and> IsAbs (si_Cwd i)
     \<and> length (si_Reason i) \<le> 4096 \<and> TrimSpace (si_Reason i) \<noteq> [] \<and> NUL \<notin> set (si_Reason i)
     \<and> 1000 \<le> si_TimeoutMs i \<and> si_TimeoutMs i \<le> 86400000 \<and> si_Env i = []
     \<and> length (si_Argv i) \<le> 4096
     \<and> list_all (\<lambda>v. length v \<le> 131072 \<and> NUL \<notin> set v) (si_Argv i)
     \<and> (\<Sum>v \<leftarrow> si_Argv i. int (length v)) \<le> 393216"
proof (cases "check_argv 0 (si_Argv i)")
  case None
  then have "\<not> list_all (\<lambda>v. length v \<le> 131072 \<and> NUL \<notin> set v) (si_Argv i)"
    using check_argv_iff [of 0 "si_Argv i" "\<Sum>v \<leftarrow> si_Argv i. int (length v)"] by (auto simp: list_all_iff)
  with None show ?thesis by (simp add: validateSubmit_def)
next
  case (Some n)
  then have "list_all (\<lambda>v. length v \<le> 131072 \<and> NUL \<notin> set v) (si_Argv i)"
    "n = (\<Sum>v \<leftarrow> si_Argv i. int (length v))"
    using check_argv_iff [of 0 "si_Argv i" n] by (auto simp: list_all_iff)
  with Some show ?thesis
    by (auto simp: validateSubmit_def contains_byte_def not_less)
qed

subsection \<open>Display\<close>

definition cloneMap :: "(string \<times> string) list \<Rightarrow> (string \<times> string) list" where
  "cloneMap input = input"

definition hostname :: "string res \<Rightarrow> string" where
  "hostname answer = (case answer of Inl _ \<Rightarrow> ''unknown'' | Inr value \<Rightarrow> value)"

definition approvalActor :: "approval \<Rightarrow> string" where
  "approvalActor a =
     (case ab_DisplayName (ap_ApprovedBy a) of
        Some name \<Rightarrow> if name \<noteq> '''' then name else ab_Subject (ap_ApprovedBy a)
      | None \<Rightarrow> ab_Subject (ap_ApprovedBy a))"

definition plain_rune :: "nat \<Rightarrow> bool" where
  "plain_rune r \<longleftrightarrow> (0x61 \<le> r \<and> r \<le> 0x7A) \<or> (0x41 \<le> r \<and> r \<le> 0x5A) \<or> (0x30 \<le> r \<and> r \<le> 0x39)
     \<or> r \<in> byte ` set ''_@%+=:,./-''"

text \<open>\<open>strconv.QuoteToASCII\<close>, rune by rune; an invalid byte is a rune of width one.\<close>

definition quote_rune :: "nat \<times> string \<Rightarrow> string" where
  "quote_rune p =
     (case p of (r, bs) \<Rightarrow>
        if r = rune_error \<and> length bs = 1 then [CHR 0x5C, CHR ''x''] @ hex_byte (byte (hd bs))
        else if r = 0x22 \<or> r = 0x5C then [CHR 0x5C, char_of r]
        else if 0x20 \<le> r \<and> r \<le> 0x7E then [char_of r]
        else if r = 0x07 then [CHR 0x5C, CHR ''a'']
        else if r = 0x08 then [CHR 0x5C, CHR ''b'']
        else if r = 0x0C then [CHR 0x5C, CHR ''f'']
        else if r = 0x0A then [CHR 0x5C, CHR ''n'']
        else if r = 0x0D then [CHR 0x5C, CHR ''r'']
        else if r = 0x09 then [CHR 0x5C, CHR ''t'']
        else if r = 0x0B then [CHR 0x5C, CHR ''v'']
        else if r < 0x20 \<or> r = 0x7F then [CHR 0x5C, CHR ''x''] @ hex_byte r
        else if r < 0x10000 then [CHR 0x5C, CHR ''u''] @ hex_byte (r div 256) @ hex_byte (r mod 256)
        else [CHR 0x5C, CHR ''U''] @ hex_byte (r div 16777216) @ hex_byte (r div 65536 mod 256)
          @ hex_byte (r div 256 mod 256) @ hex_byte (r mod 256))"

definition QuoteToASCII :: "string \<Rightarrow> string" where
  "QuoteToASCII s = [CHR 0x22] @ concat (map quote_rune (spans s)) @ [CHR 0x22]"

definition displayArgument :: "string \<Rightarrow> string" where
  "displayArgument v = (if v \<noteq> '''' \<and> list_all plain_rune (runes v) then v else QuoteToASCII v)"

definition command :: "string \<Rightarrow> string list \<Rightarrow> string" where
  "command executable argv = join_with '' '' (map displayArgument (executable # argv))"

end
