(* ===== verification/Text_Display.thy ===== *)
theory Text_Display
  imports Daemon_Input
begin

section \<open>What the reviewer sees\<close>

text \<open>
  A reviewer approves the text that \<open>command\<close> makes of an executable and its arguments, so the text has to
  determine them and must not contain anything a terminal interprets. Both hold: the escapes of
  \<open>strconv.QuoteToASCII\<close> form a prefix-free code over the runes (with their bytes) of a string, a quoted
  argument ends at its first unescaped quote, and a plain one has neither quote nor space.
\<close>

subsection \<open>Prefix-free codes\<close>

locale prefix_code =
  fixes enc :: "'a \<Rightarrow> 'b list" and valid :: "'a \<Rightarrow> bool"
  assumes enc_unique: "valid x \<Longrightarrow> valid y \<Longrightarrow> enc x @ u = enc y @ v \<Longrightarrow> x = y"
    and enc_not_Nil: "valid x \<Longrightarrow> enc x \<noteq> []"
begin

lemma encoded_unique:
  "list_all valid xs \<Longrightarrow> list_all valid ys \<Longrightarrow> concat (map enc xs) = concat (map enc ys) \<Longrightarrow> xs = ys"
proof (induction xs arbitrary: ys)
  case Nil
  then show ?case by (cases ys) (auto dest: enc_not_Nil)
next
  case (Cons x xs)
  then obtain y zs where ys: "ys = y # zs" by (cases ys) (auto dest: enc_not_Nil)
  with Cons.prems have "x = y" using enc_unique [of x y] by auto
  with Cons ys show ?case by simp
qed

end

text \<open>A code whose words never start with the symbol that ends a text.\<close>

locale terminated_code = prefix_code +
  fixes stop :: 'b
  assumes enc_stop: "valid x \<Longrightarrow> hd (enc x) \<noteq> stop"
begin

lemma terminated_unique:
  "list_all valid xs \<Longrightarrow> list_all valid ys \<Longrightarrow> concat (map enc xs) @ stop # u = concat (map enc ys) @ stop # v \<Longrightarrow>
     xs = ys \<and> u = v"
proof (induction xs arbitrary: ys)
  case Nil
  then show ?case using enc_not_Nil enc_stop by (cases ys) (auto simp: Cons_eq_append_conv, metis list.sel(1))
next
  case (Cons x xs)
  have "ys \<noteq> []"
    using Cons.prems enc_not_Nil [of x] enc_stop [of x] by (cases "enc x") auto
  then obtain y zs where ys: "ys = y # zs" by (cases ys) simp_all
  with Cons.prems have "x = y" using enc_unique [of x y] by auto
  with Cons ys show ?case by simp
qed

end

subsection \<open>A rune and its bytes\<close>

lemma byte_less: "byte c < 256"
  by (simp add: byte_def)

lemma char_of_byte [simp]: "char_of (byte c) = c"
  by (simp add: byte_def)

lemma byte_char_of: "n < 256 \<Longrightarrow> byte (char_of n) = n"
  by (simp add: byte_def)

definition rune_span :: "nat \<times> string \<Rightarrow> bool" where
  "rune_span p \<longleftrightarrow> (\<exists>s. s \<noteq> [] \<and> p = (fst (decode_rune s), take (snd (decode_rune s)) s))"

lemma spans_valid: "list_all rune_span (spans s)"
proof (induction s rule: spans.induct)
  case (1 s)
  have "s \<noteq> [] \<Longrightarrow> rune_span (fst (decode_rune s), take (snd (decode_rune s)) s)"
    by (auto simp: rune_span_def)
  with 1 show ?case by (subst spans.simps) simp
qed

lemma spans_bytes: "concat (map snd (spans s)) = s"
proof (induction s rule: spans.induct)
  case (1 s)
  then show ?case by (subst spans.simps) auto
qed

text \<open>Reading the bytes of a rune back from its number.\<close>

lemma digits64:
  fixes x y z w :: nat
  assumes "y < 64" "z < 64" "w < 64"
  shows "(x * 64 + y) div 64 = x" "(x * 64 + y) mod 64 = y"
    "(x * 4096 + y * 64 + z) div 4096 = x" "(x * 4096 + y * 64 + z) div 64 mod 64 = y" "(x * 4096 + y * 64 + z) mod 64 = z"
    "(x * 262144 + y * 4096 + z * 64 + w) div 262144 = x" "(x * 262144 + y * 4096 + z * 64 + w) div 4096 mod 64 = y"
    "(x * 262144 + y * 4096 + z * 64 + w) div 64 mod 64 = z" "(x * 262144 + y * 4096 + z * 64 + w) mod 64 = w"
proof -
  have two: "(a * 64 + b) div 64 = a" "(a * 64 + b) mod 64 = b" if "b < 64" for a b :: nat using that by simp_all
  then show "(x * 64 + y) div 64 = x" "(x * 64 + y) mod 64 = y" using assms by simp_all
  have three: "x * 4096 + y * 64 + z = (x * 64 + y) * 64 + z"
    and four: "x * 262144 + y * 4096 + z * 64 + w = ((x * 64 + y) * 64 + z) * 64 + w" by simp_all
  have sq: "n div 4096 = n div 64 div 64" "n div 262144 = n div 64 div 64 div 64" for n :: nat
    by (simp_all flip: div_mult2_eq)
  show "(x * 4096 + y * 64 + z) div 4096 = x" "(x * 4096 + y * 64 + z) div 64 mod 64 = y" "(x * 4096 + y * 64 + z) mod 64 = z"
    unfolding three sq using assms by (simp_all only: two)
  show "(x * 262144 + y * 4096 + z * 64 + w) div 262144 = x" "(x * 262144 + y * 4096 + z * 64 + w) div 4096 mod 64 = y"
    "(x * 262144 + y * 4096 + z * 64 + w) div 64 mod 64 = z" "(x * 262144 + y * 4096 + z * 64 + w) mod 64 = w"
    unfolding four sq using assms by (simp_all only: two)
qed

lemma cont_byte_char: "cont_byte (byte c) \<Longrightarrow> byte c - 0x80 < 64 \<and> char_of (0x80 + (byte c - 0x80)) = c"
  by (auto simp: cont_byte_def)

lemma encode_two:
  assumes "0xC2 \<le> byte c0" "byte c0 \<le> 0xDF" "cont_byte (byte c1)"
  shows "encode_rune ((byte c0 - 0xC0) * 64 + (byte c1 - 0x80)) = [c0, c1]"
proof -
  define x y where "x = byte c0 - 0xC0" and "y = byte c1 - 0x80"
  have y: "y < 64" "char_of (0x80 + y) = c1" using cont_byte_char [OF assms(3)] by (simp_all add: y_def)
  have x: "2 \<le> x" "x < 32" "char_of (0xC0 + x) = c0" using assms by (simp_all add: x_def)
  have "\<not> x * 64 + y < 128" "x * 64 + y < 2048" using x(1,2) y(1) by arith+
  then show ?thesis unfolding x_def [symmetric] y_def [symmetric] encode_rune_def
    using digits64(1,2) [OF y(1) y(1) y(1), of x] x(3) y(2) by simp
qed

lemma encode_three:
  assumes "0xE0 \<le> byte c0" "byte c0 \<le> 0xEF" "cont_byte (byte c1)" "cont_byte (byte c2)"
    "byte c0 = 0xE0 \<longrightarrow> 0xA0 \<le> byte c1" "byte c0 = 0xED \<longrightarrow> byte c1 \<le> 0x9F"
  shows "encode_rune ((byte c0 - 0xE0) * 4096 + (byte c1 - 0x80) * 64 + (byte c2 - 0x80)) = [c0, c1, c2]"
proof -
  define x y z where "x = byte c0 - 0xE0" and "y = byte c1 - 0x80" and "z = byte c2 - 0x80"
  have y: "y < 64" "char_of (0x80 + y) = c1" using cont_byte_char [OF assms(3)] by (simp_all add: y_def)
  have z: "z < 64" "char_of (0x80 + z) = c2" using cont_byte_char [OF assms(4)] by (simp_all add: z_def)
  have x: "x < 16" "char_of (0xE0 + x) = c0" using assms(1,2) by (simp_all add: x_def)
  have xy: "x = 0 \<longrightarrow> 32 \<le> y" "x = 13 \<longrightarrow> y < 32"
    using assms(1,2,5,6) assms(3) unfolding x_def y_def cont_byte_def by arith+
  let ?r = "x * 4096 + y * 64 + z"
  have "0x800 \<le> ?r" using xy(1) by (cases "x = 0") linarith+
  moreover have "?r < 0x10000" using x(1) y(1) z(1) by linarith
  moreover have "?r < 0xD800 \<or> 0xDFFF < ?r"
    using xy(2) y(1) z(1) by (cases x "13 :: nat" rule: linorder_cases) linarith+
  ultimately show ?thesis unfolding x_def [symmetric] y_def [symmetric] z_def [symmetric] encode_rune_def
    using digits64(3-5) [OF y(1) z(1) z(1), of x] x(2) y(2) z(2) by auto
qed

lemma encode_four:
  assumes "0xF0 \<le> byte c0" "byte c0 \<le> 0xF4" "cont_byte (byte c1)" "cont_byte (byte c2)" "cont_byte (byte c3)"
    "byte c0 = 0xF0 \<longrightarrow> 0x90 \<le> byte c1" "byte c0 = 0xF4 \<longrightarrow> byte c1 \<le> 0x8F"
  shows "encode_rune ((byte c0 - 0xF0) * 262144 + (byte c1 - 0x80) * 4096 + (byte c2 - 0x80) * 64 + (byte c3 - 0x80))
      = [c0, c1, c2, c3]
    \<and> (byte c0 - 0xF0) * 262144 + (byte c1 - 0x80) * 4096 + (byte c2 - 0x80) * 64 + (byte c3 - 0x80) < 0x110000"
proof -
  define x y z w where "x = byte c0 - 0xF0" and "y = byte c1 - 0x80" and "z = byte c2 - 0x80" and "w = byte c3 - 0x80"
  have y: "y < 64" "char_of (0x80 + y) = c1" using cont_byte_char [OF assms(3)] by (simp_all add: y_def)
  have z: "z < 64" "char_of (0x80 + z) = c2" using cont_byte_char [OF assms(4)] by (simp_all add: z_def)
  have w: "w < 64" "char_of (0x80 + w) = c3" using cont_byte_char [OF assms(5)] by (simp_all add: w_def)
  have x: "x < 5" "char_of (0xF0 + x) = c0" using assms(1,2) by (simp_all add: x_def)
  have xy: "x = 0 \<longrightarrow> 16 \<le> y" "x = 4 \<longrightarrow> y < 16"
    using assms(1,2,6,7) assms(3) unfolding x_def y_def cont_byte_def by arith+
  let ?r = "x * 262144 + y * 4096 + z * 64 + w"
  have "0x10000 \<le> ?r" using xy(1) by (cases "x = 0") linarith+
  moreover have "?r < 0x110000" using xy(2) x(1) y(1) z(1) w(1) by (cases "x = 4") linarith+
  ultimately show ?thesis unfolding x_def [symmetric] y_def [symmetric] z_def [symmetric] w_def [symmetric] encode_rune_def
    using digits64(6-9) [OF y(1) z(1) w(1), of x] x(2) y(2) z(2) w(2) by simp
qed
lemma byte_at_Cons [simp]: "byte_at (c # s) 0 = byte c" "byte_at (c # s) (Suc i) = byte_at s i"
  by (simp_all add: byte_at_def)

lemma cont_byte_at: "cont_byte (byte_at s 0) \<Longrightarrow> \<exists>c t. s = c # t \<and> cont_byte (byte c)"
  by (cases s) (auto simp: byte_at_def cont_byte_def)

text \<open>A rune that was decoded from valid bytes gives the bytes back; an invalid byte is not ASCII.\<close>

lemma decode_rune_cases:
  assumes "s \<noteq> []"
  shows "decode_rune s = (rune_error, 1) \<and> 0x80 \<le> byte (hd s)
    \<or> (\<exists>r t. s = encode_rune r @ t \<and> decode_rune s = (r, length (encode_rune r)) \<and> r < 0x110000)"
proof -
  obtain c0 s1 where s: "s = c0 # s1" using assms by (cases s) auto
  let ?b = "byte c0"
  have b: "byte_at s 0 = byte c0" "byte_at s 1 = byte_at s1 0" "byte_at s 2 = byte_at s1 1" "byte_at s 3 = byte_at s1 2"
    using byte_at_Cons(2) [of c0 s1 1] byte_at_Cons(2) [of c0 s1 2] by (simp_all add: s numeral_2_eq_2 numeral_3_eq_3)
  note decode = decode_rune_def [of s, unfolded b Let_def if_not_P [OF assms]]
  let ?two = "0xC2 \<le> ?b \<and> ?b \<le> 0xDF \<and> cont_byte (byte_at s1 0)"
  let ?three = "0xE0 \<le> ?b \<and> ?b \<le> 0xEF \<and> cont_byte (byte_at s1 0) \<and> cont_byte (byte_at s1 1)
    \<and> (?b = 0xE0 \<longrightarrow> 0xA0 \<le> byte_at s1 0) \<and> (?b = 0xED \<longrightarrow> byte_at s1 0 \<le> 0x9F)"
  let ?four = "0xF0 \<le> ?b \<and> ?b \<le> 0xF4 \<and> cont_byte (byte_at s1 0) \<and> cont_byte (byte_at s1 1) \<and> cont_byte (byte_at s1 2)
    \<and> (?b = 0xF0 \<longrightarrow> 0x90 \<le> byte_at s1 0) \<and> (?b = 0xF4 \<longrightarrow> byte_at s1 0 \<le> 0x8F)"
  consider (one) "?b < 0x80" | (two) ?two | (three) ?three | (four) ?four
    | (bad) "\<not> ?b < 0x80" "\<not> ?two" "\<not> ?three" "\<not> ?four" by argo
  then show ?thesis
  proof cases
    case one
    then show ?thesis
      using encode_rune_byte [of c0] by (auto simp: s decode_rune_ascii rune_error_def)
  next
    case two
    then obtain c1 t where c: "s1 = c1 # t" "cont_byte (byte c1)" using cont_byte_at by blast
    let ?r = "(?b - 0xC0) * 64 + (byte c1 - 0x80)"
    have "encode_rune ?r = [c0, c1]" using two c by (intro encode_two) simp_all
    moreover have "decode_rune s = (?r, 2)" using two c by (simp add: decode)
    moreover have "?r < 0x800" using two cont_byte_char [OF c(2)] by linarith
    ultimately show ?thesis by (intro disjI2 exI [of _ ?r] exI [of _ t]) (simp add: s c rune_error_def)
  next
    case three
    then obtain c1 t1 where c1: "s1 = c1 # t1" "cont_byte (byte c1)" using cont_byte_at by blast
    from three c1(1) have "cont_byte (byte_at t1 0)" by simp
    then obtain c2 t where c2: "t1 = c2 # t" "cont_byte (byte c2)" using cont_byte_at by blast
    let ?r = "(?b - 0xE0) * 4096 + (byte c1 - 0x80) * 64 + (byte c2 - 0x80)"
    have "encode_rune ?r = [c0, c1, c2]" using three c1 c2 by (intro encode_three) simp_all
    moreover have "decode_rune s = (?r, 3)" using three c1 c2 by (simp add: decode)
    moreover have "?r < 0x10000" using three cont_byte_char [OF c1(2)] cont_byte_char [OF c2(2)] by linarith
    ultimately show ?thesis by (intro disjI2 exI [of _ ?r] exI [of _ t]) (simp add: s c1 c2)
  next
    case four
    then obtain c1 t1 where c1: "s1 = c1 # t1" "cont_byte (byte c1)" using cont_byte_at by blast
    from four c1(1) have "cont_byte (byte_at t1 0)" by simp
    then obtain c2 t2 where c2: "t1 = c2 # t2" "cont_byte (byte c2)" using cont_byte_at by blast
    from four c1(1) c2(1) have "cont_byte (byte_at t2 0)" by (simp add: numeral_2_eq_2)
    then obtain c3 t where c3: "t2 = c3 # t" "cont_byte (byte c3)" using cont_byte_at by blast
    let ?r = "(?b - 0xF0) * 262144 + (byte c1 - 0x80) * 4096 + (byte c2 - 0x80) * 64 + (byte c3 - 0x80)"
    have e: "encode_rune ?r = [c0, c1, c2, c3] \<and> ?r < 0x110000" using four c1 c2 c3 by (intro encode_four) simp_all
    moreover have "decode_rune s = (?r, 4)" using four c1 c2 c3 by (simp add: decode numeral_2_eq_2)
    ultimately show ?thesis by (intro disjI2 exI [of _ ?r] exI [of _ t]) (simp add: s c1 c2 c3)
  next
    case bad
    then have "decode_rune s = (rune_error, 1)" unfolding decode by (simp only: if_False)
    with bad(1) show ?thesis by (simp add: s)
  qed
qed
lemma rune_span_cases:
  assumes "rune_span (r, bs)"
  obtains (bad) c where "r = rune_error" "bs = [c]" "0x80 \<le> byte c"
    | (good) "bs = encode_rune r" "r < 0x110000" "\<not> (r = rune_error \<and> length bs = 1)"
proof -
  obtain s where s: "s \<noteq> []" "(r, bs) = (fst (decode_rune s), take (snd (decode_rune s)) s)"
    using assms by (auto simp: rune_span_def)
  have three: "length (encode_rune rune_error) = 3" by (simp add: encode_rune_def rune_error_def)
  from decode_rune_cases [OF s(1)] s show thesis
  proof (elim disjE exE conjE)
    assume "decode_rune s = (rune_error, 1)" "0x80 \<le> byte (hd s)"
    with s show thesis by (intro bad [of "hd s"]) (simp_all add: take_Suc)
  next
    fix r' t assume "s = encode_rune r' @ t" "decode_rune s = (r', length (encode_rune r'))" "r' < 0x110000"
    with s three show thesis by (intro good) auto
  qed
qed

subsection \<open>Reading an escape\<close>

definition unhex :: "char \<Rightarrow> nat" where
  "unhex c = (if byte c < 0x3A then byte c - 0x30 else byte c - 0x57)"

definition hex_value :: "string \<Rightarrow> nat" where
  "hex_value s = foldl (\<lambda>n c. n * 16 + unhex c) 0 s"

lemma unhex_digit: "d < 16 \<Longrightarrow> unhex (digit d) = d"
  by (simp add: unhex_def digit_def byte_char_of)

lemma hex_byte_value: "b < 256 \<Longrightarrow> foldl (\<lambda>n c. n * 16 + unhex c) m (hex_byte b) = m * 256 + b"
  by (simp add: hex_byte_def unhex_digit)

lemma hex_values:
  "a < 256 \<Longrightarrow> hex_value (hex_byte a) = a"
  "a < 256 \<Longrightarrow> b < 256 \<Longrightarrow> hex_value (hex_byte a @ hex_byte b) = a * 256 + b"
  "a < 256 \<Longrightarrow> b < 256 \<Longrightarrow> c < 256 \<Longrightarrow> d < 256 \<Longrightarrow>
     hex_value (hex_byte a @ hex_byte b @ hex_byte c @ hex_byte d) = ((a * 256 + b) * 256 + c) * 256 + d"
  by (simp_all add: hex_value_def hex_byte_value)

text \<open>The length of the escape a text starts with, and the rune it stands for; the flag marks an invalid byte.\<close>

definition word_length :: "string \<Rightarrow> nat" where
  "word_length s =
     (if hd s \<noteq> CHR 0x5C then 1 else if s ! 1 = CHR ''x'' then 4 else if s ! 1 = CHR ''u'' then 6
      else if s ! 1 = CHR ''U'' then 10 else 2)"

definition simple_escape :: "char \<Rightarrow> nat" where
  "simple_escape c =
     (if c = CHR ''a'' then 0x07 else if c = CHR ''b'' then 0x08 else if c = CHR ''f'' then 0x0C
      else if c = CHR ''n'' then 0x0A else if c = CHR ''r'' then 0x0D else if c = CHR ''t'' then 0x09
      else if c = CHR ''v'' then 0x0B else byte c)"

definition word_value :: "string \<Rightarrow> nat \<times> bool" where
  "word_value s =
     (if length s = 1 then (byte (hd s), False)
      else if length s = 2 then (simple_escape (s ! 1), False)
      else let v = hex_value (drop 2 s) in (v, length s = 4 \<and> 0x80 \<le> v))"

definition span_value :: "nat \<times> string \<Rightarrow> nat \<times> bool" where
  "span_value p = (if fst p = rune_error \<and> length (snd p) = 1 then (byte (hd (snd p)), True) else (fst p, False))"

lemma length_hex_byte [simp]: "length (hex_byte b) = 2"
  by (simp add: hex_byte_def)

lemma char_of_eq: "n < 256 \<Longrightarrow> char_of n = c \<longleftrightarrow> n = byte c"
  by (auto simp: byte_char_of)

definition printable :: "string \<Rightarrow> bool" where
  "printable s \<longleftrightarrow> list_all (\<lambda>c. 0x20 \<le> byte c \<and> byte c \<le> 0x7E) s"

lemma printable_simps [simp]:
  "printable []" "printable (c # s) \<longleftrightarrow> 0x20 \<le> byte c \<and> byte c \<le> 0x7E \<and> printable s"
  "printable (s @ t) \<longleftrightarrow> printable s \<and> printable t"
  by (simp_all add: printable_def)

lemma printable_hex_byte: "b < 256 \<Longrightarrow> printable (hex_byte b)"
proof -
  have "0x20 \<le> byte (digit d) \<and> byte (digit d) \<le> 0x7E" if "d < 16" for d
    using that by (simp add: digit_def byte_char_of)
  moreover assume "b < 256"
  ultimately show ?thesis by (simp add: hex_byte_def)
qed

text \<open>A word of the code: its length can be told from its start, its value can be read, it does not start with
  the closing quote, and it prints.\<close>

definition word_ok :: "string \<Rightarrow> nat \<times> bool \<Rightarrow> bool" where
  "word_ok w v \<longleftrightarrow> w \<noteq> [] \<and> (\<forall>u. word_length (w @ u) = length w) \<and> word_value w = v \<and> hd w \<noteq> CHR 0x22 \<and> printable w"

lemma word_ok_plain: "0x20 \<le> r \<Longrightarrow> r \<le> 0x7E \<Longrightarrow> r \<noteq> 0x22 \<Longrightarrow> r \<noteq> 0x5C \<Longrightarrow> word_ok [char_of r] (r, False)"
  by (auto simp: word_ok_def word_length_def word_value_def byte_char_of char_of_eq byte_def)

lemma word_ok_escape:
  "c \<in> set ''abfnrtv'' \<union> {CHR 0x22, CHR 0x5C} \<Longrightarrow> word_ok [CHR 0x5C, c] (simple_escape c, False)"
  by (auto simp: word_ok_def word_length_def word_value_def byte_def)

lemma word_ok_hex:
  "b < 256 \<Longrightarrow> word_ok ([CHR 0x5C, CHR ''x''] @ hex_byte b) (b, 0x80 \<le> b)"
  "r < 0x10000 \<Longrightarrow> word_ok ([CHR 0x5C, CHR ''u''] @ hex_byte (r div 256) @ hex_byte (r mod 256)) (r, False)"
  by (simp_all add: word_ok_def word_length_def word_value_def hex_values printable_hex_byte byte_def Let_def less_mult_imp_div_less)

lemma word_ok_long:
  assumes "r < 0x110000"
  shows "word_ok ([CHR 0x5C, CHR ''U''] @ hex_byte (r div 16777216) @ hex_byte (r div 65536 mod 256)
    @ hex_byte (r div 256 mod 256) @ hex_byte (r mod 256)) (r, False)"
proof -
  have "r div 16777216 = 0" using assms by simp
  moreover have "((0 * 256 + r div 65536 mod 256) * 256 + r div 256 mod 256) * 256 + r mod 256 = r"
  proof -
    have "r div 65536 mod 256 = r div 256 div 256" using assms by (simp flip: div_mult2_eq)
    then show ?thesis by (simp only: mult_0 add_0 div_mult_mod_eq)
  qed
  ultimately show ?thesis
    by (simp add: word_ok_def word_length_def word_value_def hex_values printable_hex_byte byte_def Let_def)
qed

lemma quote_chars: "char_of (0x22 :: nat) = CHR 0x22" "char_of (0x5C :: nat) = CHR 0x5C"
  by code_simp+

lemma quote_rune_word:
  assumes "rune_span p"
  shows "word_ok (quote_rune p) (span_value p)"
proof -
  obtain r bs where p: "p = (r, bs)" by fastforce
  have "rune_span (r, bs)" using assms p by simp
  then show ?thesis
  proof (cases rule: rune_span_cases)
    case (bad c)
    then show ?thesis
      using word_ok_hex(1) [of "byte c"] byte_less [of c] by (simp add: p quote_rune_def span_value_def)
  next
    case good
    have esc: "word_ok [CHR 0x5C, char_of r] (r, False)" if "r = 0x22 \<or> r = 0x5C"
      using that word_ok_escape [of "CHR 0x22"] word_ok_escape [of "CHR 0x5C"]
      by (auto simp: simple_escape_def quote_chars byte_def)
    have v: "span_value p = (r, False)" using good(3) by (simp add: p span_value_def)
    have c: "(r = rune_error \<and> length bs = 1) = False" "(r = rune_error \<and> length ([] :: string) = 1) = False"
      using good(3) by simp_all
    have q: "quote_rune p = quote_rune (r, [])"
      by (simp only: p quote_rune_def prod.case c if_False)
    consider (quote) "r = 0x22 \<or> r = 0x5C" | (plain) "0x20 \<le> r" "r \<le> 0x7E" "r \<noteq> 0x22" "r \<noteq> 0x5C"
      | (named) "r = 0x07 \<or> r = 0x08 \<or> r = 0x0C \<or> r = 0x0A \<or> r = 0x0D \<or> r = 0x09 \<or> r = 0x0B"
      | (control) "r < 0x20 \<or> r = 0x7F" "r \<notin> {0x07, 0x08, 0x0C, 0x0A, 0x0D, 0x09, 0x0B}"
      | (short) "0x7F < r" "r < 0x10000" | (long) "0x10000 \<le> r"
    proof -
      have "r < 0x20 \<or> 0x20 \<le> r \<and> r \<le> 0x7E \<or> r = 0x7F \<or> 0x7F < r" "r < 0x10000 \<or> 0x10000 \<le> r" by linarith+
      with that show thesis by blast
    qed
    then have "word_ok (quote_rune (r, [])) (r, False)"
    proof cases
      case quote
      with esc show ?thesis by (auto simp: quote_rune_def)
    next
      case plain
      with word_ok_plain show ?thesis by (simp add: quote_rune_def)
    next
      case named
      then show ?thesis
        using word_ok_escape [of "CHR ''a''"] word_ok_escape [of "CHR ''b''"] word_ok_escape [of "CHR ''f''"]
          word_ok_escape [of "CHR ''n''"] word_ok_escape [of "CHR ''r''"] word_ok_escape [of "CHR ''t''"]
          word_ok_escape [of "CHR ''v''"]
        by (elim disjE) (simp_all add: quote_rune_def simple_escape_def)
    next
      case control
      with word_ok_hex(1) [of r] show ?thesis by (auto simp: quote_rune_def)
    next
      case short
      with word_ok_hex(2) [of r] show ?thesis by (simp add: quote_rune_def)
    next
      case long
      with word_ok_long [OF good(2)] show ?thesis by (simp add: quote_rune_def)
    qed
    then show ?thesis unfolding v q .
  qed
qed

interpretation quoted: terminated_code quote_rune rune_span "CHR 0x22"
proof
  fix p q u v assume v: "rune_span p" "rune_span q" and eq: "quote_rune p @ u = quote_rune q @ v"
  note w = v [THEN quote_rune_word, unfolded word_ok_def]
  have "length (quote_rune p) = length (quote_rune q)" using w eq by metis
  with eq have "quote_rune p = quote_rune q" by simp
  with w have val: "span_value p = span_value q" by metis
  obtain r bs r' bs' where p: "p = (r, bs)" "q = (r', bs')" by fastforce
  from v(1) [unfolded p] show "p = q"
  proof (cases rule: rune_span_cases)
    case (bad c)
    from v(2) [unfolded p] show ?thesis
      by (cases rule: rune_span_cases) (use bad val in \<open>auto simp: p span_value_def split: if_splits\<close>)
  next
    case good
    from v(2) [unfolded p] show ?thesis
      by (cases rule: rune_span_cases) (use good val in \<open>auto simp: p span_value_def split: if_splits\<close>)
  qed
qed (use quote_rune_word in \<open>auto simp: word_ok_def\<close>)

subsection \<open>Arguments and commands\<close>

lemma QuoteToASCII_unique:
  assumes "QuoteToASCII v @ u = QuoteToASCII w @ t"
  shows "v = w"
proof -
  have "spans v = spans w"
    using quoted.terminated_unique [OF spans_valid spans_valid, of v u w t] assms by (simp add: QuoteToASCII_def)
  then show ?thesis using spans_bytes by metis
qed

lemma printable_QuoteToASCII: "printable (QuoteToASCII v)"
proof -
  have "printable (concat (map quote_rune ps))" if "list_all rune_span ps" for ps
    using that by (induction ps) (auto dest: quote_rune_word simp: word_ok_def)
  then show ?thesis using spans_valid by (simp add: QuoteToASCII_def byte_def)
qed

text \<open>An argument shown as it is consists of characters that are neither space nor quote.\<close>

lemma plain_rune_byte: "plain_rune r \<Longrightarrow> 0x21 \<le> r \<and> r \<le> 0x7E \<and> r \<noteq> 0x22"
  by (auto simp: plain_rune_def byte_def)

lemma plain_argument:
  assumes "list_all plain_rune (runes v)" "c \<in> set v"
  shows "0x21 \<le> byte c \<and> byte c \<le> 0x7E \<and> byte c \<noteq> 0x22"
proof -
  have low: "0x21 \<le> r \<and> r \<le> 0x7E \<and> r \<noteq> 0x22" if "r \<in> set (runes v)" for r
    using assms(1) that plain_rune_byte by (simp add: list_all_iff)
  let ?t = "map char_of (runes v) :: string"
  have "map byte ?t = runes v" using low by (force simp: byte_char_of intro: map_idI)
  moreover have "ascii ?t" using low by (force simp: ascii_def byte_char_of)
  ultimately have "v = ?t" using runes_low_inj [of v ?t] by simp
  with assms(2) have "c \<in> set ?t" by metis
  then obtain r where "r \<in> set (runes v)" "c = char_of r" by auto
  with low [of r] show ?thesis by (simp add: byte_char_of)
qed

definition shown :: "string \<Rightarrow> bool" where
  "shown v \<longleftrightarrow> v \<noteq> '''' \<and> list_all plain_rune (runes v)"

lemma quote_byte: "byte (CHR 0x22) = 0x22" "byte (CHR '' '') = 0x20"
  by (simp_all add: byte_def)

interpretation arguments: prefix_code "\<lambda>v. displayArgument v @ '' ''" "\<lambda>_. True"
proof
  fix v w u t assume eq: "(displayArgument v @ '' '') @ u = (displayArgument w @ '' '') @ t"
  have d: "displayArgument x = (if shown x then x else QuoteToASCII x)" for x
    by (simp add: displayArgument_def shown_def)
  have q: "hd (QuoteToASCII x @ s) = CHR 0x22" for x s by (simp add: QuoteToASCII_def)
  have h: "hd (x @ s) \<noteq> CHR 0x22" if "shown x" for x s
    using that plain_argument [of x "hd x"] quote_byte by (cases x) (auto simp: shown_def)
  have n: "CHR '' '' \<notin> set x" if "shown x" for x
    using that plain_argument [of x "CHR '' ''"] quote_byte by (auto simp: shown_def)
  consider (plain) "shown v" "shown w" | (quoted) "\<not> shown v" "\<not> shown w" | (mixed) "shown v \<noteq> shown w" by argo
  then show "v = w"
  proof cases
    case plain
    then have "takeWhile (\<lambda>c. c \<noteq> CHR '' '') (v @ CHR '' '' # u) = v" "takeWhile (\<lambda>c. c \<noteq> CHR '' '') (w @ CHR '' '' # t) = w"
      using n by (subst takeWhile_append2; auto)+
    then show ?thesis using eq plain by (simp add: d)
  next
    case quoted
    then show ?thesis using eq QuoteToASCII_unique [of v "CHR '' '' # u" w "CHR '' '' # t"] by (simp add: d)
  next
    case mixed
    then show ?thesis
      using arg_cong [OF eq, of hd] q h by (cases "shown v") (simp_all add: d, metis+)
  qed
qed simp

lemma join_concat: "ws \<noteq> [] \<Longrightarrow> join_with sep ws @ sep = concat (map (\<lambda>w. w @ sep) ws)"
  by (induction sep ws rule: join_with.induct) simp_all

text \<open>(C24) The text a reviewer approves determines what is executed and is harmless to print: two commands with the
  same text have the same executable and the same arguments, byte for byte, also when they contain spaces,
  quotes, control characters or bytes that are not UTF-8, and the text consists of printable ASCII only.\<close>

theorem command_faithful:
  "(command e argv = command e' argv' \<longleftrightarrow> e = e' \<and> argv = argv') \<and> printable (command e argv)"
proof -
  have "e = e' \<and> argv = argv'" if "command e argv = command e' argv'"
  proof -
    have "concat (map (\<lambda>v. displayArgument v @ '' '') (e # argv)) = concat (map (\<lambda>v. displayArgument v @ '' '') (e' # argv'))"
      using arg_cong [OF that, of "\<lambda>s. s @ '' ''"] unfolding command_def by (subst (asm) (1 2) join_concat) (simp_all add: comp_def)
    then have "e # argv = e' # argv'" by (rule arguments.encoded_unique [rotated 2]) (simp_all add: list_all_iff)
    then show ?thesis by simp
  qed
  moreover have "printable (displayArgument v)" for v
    using plain_argument [of v] printable_QuoteToASCII [of v]
    by (fastforce simp: displayArgument_def printable_def list_all_iff)
  then have "printable (join_with '' '' (map displayArgument vs))" for vs
    by (induction vs rule: induct_list012) (simp_all add: byte_def)
  then have "printable (command e argv)" unfolding command_def by blast
  ultimately show ?thesis by blast
qed

end
