(* ===== verification/Config.thy ===== *)
theory Config
  imports Go_Std
begin

section \<open>The daemon configuration: internal/config/config.go\<close>

text \<open>
  \<open>LoadDaemon\<close> fills a struct with defaults, lets the YAML decoder overwrite the fields the file
  names, and then checks it. Reading the file and decoding it is the argument \<open>decode\<close>, which
  receives the defaults. Go visits the three paths in random order; the order only decides which
  label an error names, so the label is that of the first bad path in the order of the source.
\<close>

record output_config =
  out_LiveBytes :: int
  out_PersistedBytes :: int

record daemon_config =
  cf_Version :: int
  cf_HostID :: string
  cf_GRPCAddress :: string
  cf_GRPCServerName :: string
  cf_SocketPath :: string
  cf_SocketGID :: u32
  cf_DatabasePath :: string
  cf_PolicyPath :: string
  cf_IdentityDirectory :: string
  cf_RequirePeerCredentials :: bool
  cf_AllowNonRoot :: bool
  cf_AllowedEnvironment :: "string list"
  cf_MaxPendingPerUID :: int
  cf_MaxPendingTotal :: int
  cf_MaxConcurrentPerUID :: int
  cf_MaxConcurrentTotal :: int
  cf_MaxSubmissionsPerMinute :: int
  cf_MaxWatchersPerUID :: int
  cf_MaxWatchersPerRequest :: int
  cf_MaxExecutableBytes :: int
  cf_MaxDatabaseBytes :: int
  cf_RetentionDays :: int
  cf_MaxRetainedUnapproved :: int
  cf_MaxExecutionSeconds :: int
  cf_Output :: output_config

definition default_config :: daemon_config where
  "default_config =
    \<lparr>cf_Version = 0, cf_HostID = '''', cf_GRPCAddress = '''', cf_GRPCServerName = '''',
     cf_SocketPath = ''/run/shudo/shudo.sock'', cf_SocketGID = 0,
     cf_DatabasePath = ''/var/lib/shudo/shudo.db'', cf_PolicyPath = ''/etc/shudo/policy.yaml'',
     cf_IdentityDirectory = '''', cf_RequirePeerCredentials = True, cf_AllowNonRoot = False,
     cf_AllowedEnvironment = [], cf_MaxPendingPerUID = 8, cf_MaxPendingTotal = 256,
     cf_MaxConcurrentPerUID = 2, cf_MaxConcurrentTotal = 32, cf_MaxSubmissionsPerMinute = 60,
     cf_MaxWatchersPerUID = 8, cf_MaxWatchersPerRequest = 4, cf_MaxExecutableBytes = 256 * 1024 * 1024,
     cf_MaxDatabaseBytes = 1024 * 1024 * 1024, cf_RetentionDays = 30, cf_MaxRetainedUnapproved = 10000,
     cf_MaxExecutionSeconds = 3600,
     cf_Output = \<lparr>out_LiveBytes = 1048576, out_PersistedBytes = 10485760\<rparr>\<rparr>"

definition bad_path :: "string \<Rightarrow> bool" where
  "bad_path value \<longleftrightarrow> \<not> IsAbs value \<or> contains_byte value NUL"

definition bad_output :: "output_config \<Rightarrow> bool" where
  "bad_output out \<longleftrightarrow> out_LiveBytes out \<le> 0 \<or> out_PersistedBytes out \<le> 0 \<or>
     out_LiveBytes out > out_PersistedBytes out \<or> out_PersistedBytes out > 100 * 1024 * 1024"

definition bad_limits :: "daemon_config \<Rightarrow> bool" where
  "bad_limits c \<longleftrightarrow>
     cf_MaxPendingPerUID c < 1 \<or> cf_MaxPendingPerUID c > 1000 \<or>
     cf_MaxPendingTotal c < cf_MaxPendingPerUID c \<or> cf_MaxPendingTotal c > 100000 \<or>
     cf_MaxConcurrentPerUID c < 1 \<or> cf_MaxConcurrentPerUID c > 64 \<or>
     cf_MaxConcurrentTotal c < cf_MaxConcurrentPerUID c \<or> cf_MaxConcurrentTotal c > 1024 \<or>
     cf_MaxSubmissionsPerMinute c < 1 \<or> cf_MaxSubmissionsPerMinute c > 10000 \<or>
     cf_MaxWatchersPerUID c < 1 \<or> cf_MaxWatchersPerUID c > 1000 \<or>
     cf_MaxWatchersPerRequest c < 1 \<or> cf_MaxWatchersPerRequest c > cf_MaxWatchersPerUID c \<or>
     cf_MaxExecutableBytes c < 1024 * 1024 \<or> cf_MaxExecutableBytes c > 4 * 1024 * 1024 * 1024 \<or>
     cf_MaxDatabaseBytes c < 16 * 1024 * 1024 \<or> cf_MaxDatabaseBytes c > 1024 * 1024 * 1024 * 1024 \<or>
     cf_RetentionDays c < 1 \<or> cf_RetentionDays c > 3650 \<or>
     cf_MaxRetainedUnapproved c < 100 \<or> cf_MaxRetainedUnapproved c > 1000000 \<or>
     cf_MaxExecutionSeconds c < 1 \<or> cf_MaxExecutionSeconds c > 86400"

definition check_config :: "daemon_config \<Rightarrow> daemon_config res" where
  "check_config c =
    (if cf_Version c \<noteq> 1 then Inl (Plain ''unsupported daemon configuration version'')
     else if \<not> cf_RequirePeerCredentials c \<or> cf_AllowNonRoot c
     then Inl (Plain ''peer credentials must be required and allowNonRoot must be false'')
     else if bad_path (cf_SocketPath c) then Inl (Plain ''socketPath must be an absolute path'')
     else if bad_path (cf_DatabasePath c) then Inl (Plain ''databasePath must be an absolute path'')
     else if bad_path (cf_PolicyPath c) then Inl (Plain ''policyPath must be an absolute path'')
     else if bad_output (cf_Output c) then Inl (Plain ''invalid output limits'')
     else if bad_limits c then Inl (Plain ''invalid admission or execution limits'')
     else if cf_AllowedEnvironment c \<noteq> []
     then Inl (Plain ''environment overrides are no longer supported; allowedEnvironment must be empty'')
     else Inr c)"

definition LoadDaemon :: "(daemon_config \<Rightarrow> daemon_config res) \<Rightarrow> daemon_config res" where
  "LoadDaemon decode =
    (case decode default_config of Inl e \<Rightarrow> Inl e | Inr c \<Rightarrow> check_config c)"

text \<open>What an accepted configuration promises the daemon.\<close>

definition config_ok :: "daemon_config \<Rightarrow> bool" where
  "config_ok c \<longleftrightarrow> cf_Version c = 1 \<and> cf_RequirePeerCredentials c \<and> \<not> cf_AllowNonRoot c
     \<and> cf_AllowedEnvironment c = []
     \<and> IsAbs (cf_SocketPath c) \<and> IsAbs (cf_DatabasePath c) \<and> IsAbs (cf_PolicyPath c)
     \<and> 0 < out_LiveBytes (cf_Output c) \<and> out_LiveBytes (cf_Output c) \<le> out_PersistedBytes (cf_Output c)
     \<and> out_PersistedBytes (cf_Output c) \<le> 104857600
     \<and> 1 \<le> cf_MaxPendingPerUID c \<and> cf_MaxPendingPerUID c \<le> cf_MaxPendingTotal c \<and> cf_MaxPendingTotal c \<le> 100000
     \<and> 1 \<le> cf_MaxConcurrentPerUID c \<and> cf_MaxConcurrentPerUID c \<le> cf_MaxConcurrentTotal c
     \<and> cf_MaxConcurrentTotal c \<le> 1024 \<and> 1 \<le> cf_MaxSubmissionsPerMinute c
     \<and> 1 \<le> cf_MaxWatchersPerRequest c \<and> cf_MaxWatchersPerRequest c \<le> cf_MaxWatchersPerUID c
     \<and> 0 < cf_MaxExecutableBytes c \<and> 0 < cf_MaxDatabaseBytes c \<and> cf_MaxDatabaseBytes c \<le> 2 ^ 40
     \<and> 0 \<le> cf_MaxRetainedUnapproved c \<and> 1 \<le> cf_RetentionDays c
     \<and> 1 \<le> cf_MaxExecutionSeconds c \<and> cf_MaxExecutionSeconds c \<le> 86400"

lemma check_config_Inr: "check_config c = Inr d \<Longrightarrow> d = c \<and> config_ok c"
  by (auto simp: check_config_def bad_path_def bad_output_def bad_limits_def config_ok_def split: if_splits)

text \<open>A configuration that loads is usable: peer credentials are required, the daemon must run as
  root, no environment may be passed through, paths are absolute, and every limit is in the range
  the rest of the daemon relies on, so no limit is zero, negative or large enough to overflow. The
  built-in defaults themselves, with the version set, are accepted.\<close>

lemma LoadDaemon_ok:
  assumes "LoadDaemon decode = Inr c"
  shows "decode default_config = Inr c \<and> config_ok c"
  using assms check_config_Inr by (auto simp: LoadDaemon_def split: sum.splits)

lemma LoadDaemon_defaults:
  "LoadDaemon (\<lambda>c. Inr (c\<lparr>cf_Version := 1\<rparr>)) = Inr (default_config\<lparr>cf_Version := 1\<rparr>)"
  by (simp add: LoadDaemon_def check_config_def default_config_def bad_path_def bad_output_def
      bad_limits_def contains_byte_def NUL_def)

end
