(* ===== verification/Daemon_Limits.thy ===== *)
theory Daemon_Limits
  imports Config "HOL-Library.Multiset"
begin

section \<open>Admission limits: acquire and release in internal/daemon/service.go\<close>

text \<open>
  The counters that bound concurrent submissions and watchers, and the submission times of the last
  minute. Each function holds \<open>limitMu\<close> for its whole body, so it is one atomic step. A missing key of
  a counter map reads as zero, as in Go.
\<close>

subsection \<open>State and operations\<close>

record limits =
  li_submitting :: "u32 \<rightharpoonup> int"
  li_submittingTotal :: int
  li_submissionTimes :: "u32 \<rightharpoonup> nat list"
  li_watchersByUID :: "u32 \<rightharpoonup> int"
  li_watchersByRequest :: "string \<rightharpoonup> int"

definition no_limits :: limits where
  "no_limits = \<lparr>li_submitting = Map.empty, li_submittingTotal = 0, li_submissionTimes = Map.empty,
     li_watchersByUID = Map.empty, li_watchersByRequest = Map.empty\<rparr>"

definition count_of :: "('k \<rightharpoonup> int) \<Rightarrow> 'k \<Rightarrow> int" where
  "count_of m k = (case m k of None \<Rightarrow> 0 | Some n \<Rightarrow> n)"

definition times_of :: "limits \<Rightarrow> u32 \<Rightarrow> nat list" where
  "times_of l uid = (case li_submissionTimes l uid of None \<Rightarrow> [] | Some ts \<Rightarrow> ts)"

definition minute :: int where
  "minute = 60 * 1000000000"

text \<open>\<open>m[k]++\<close>, and \<open>m[k]--; if m[k] == 0 { delete(m, k) }\<close>.\<close>

definition bump :: "'k \<Rightarrow> ('k \<rightharpoonup> int) \<Rightarrow> 'k \<rightharpoonup> int" where
  "bump k m = m(k \<mapsto> count_of m k + 1)"

definition drop_one :: "'k \<Rightarrow> ('k \<rightharpoonup> int) \<Rightarrow> 'k \<rightharpoonup> int" where
  "drop_one k m = (if count_of m k - 1 = 0 then m(k := None) else m(k \<mapsto> count_of m k - 1))"

definition limit_error :: "string \<Rightarrow> err" where
  "limit_error what = Status ResourceExhausted what"

definition acquireSubmission :: "daemon_config \<Rightarrow> nat \<Rightarrow> u32 \<Rightarrow> (limits, unit) op" where
  "acquireSubmission cfg now uid = (\<lambda>l.
     let cutoff = int now - minute;
         times = filter (\<lambda>submitted. int submitted > cutoff) (times_of l uid)
     in if int (length times) \<ge> cf_MaxSubmissionsPerMinute cfg
          \<or> count_of (li_submitting l) uid \<ge> cf_MaxConcurrentPerUID cfg
          \<or> li_submittingTotal l \<ge> cf_MaxConcurrentTotal cfg
        then (Inl (limit_error ''submission rate or concurrency limit reached''),
              l\<lparr>li_submissionTimes := (li_submissionTimes l)(uid \<mapsto> times)\<rparr>)
        else (Inr (), l\<lparr>li_submissionTimes := (li_submissionTimes l)(uid \<mapsto> times @ [now]),
                li_submitting := bump uid (li_submitting l),
                li_submittingTotal := li_submittingTotal l + 1\<rparr>))"

definition releaseSubmission :: "u32 \<Rightarrow> limits \<Rightarrow> limits" where
  "releaseSubmission uid l =
     l\<lparr>li_submitting := drop_one uid (li_submitting l), li_submittingTotal := li_submittingTotal l - 1\<rparr>"

definition acquireWatcher :: "daemon_config \<Rightarrow> u32 \<Rightarrow> string \<Rightarrow> (limits, unit) op" where
  "acquireWatcher cfg uid requestID = (\<lambda>l.
     if count_of (li_watchersByUID l) uid \<ge> cf_MaxWatchersPerUID cfg
        \<or> count_of (li_watchersByRequest l) requestID \<ge> cf_MaxWatchersPerRequest cfg
     then (Inl (limit_error ''watcher limit reached''), l)
     else (Inr (), l\<lparr>li_watchersByUID := bump uid (li_watchersByUID l),
             li_watchersByRequest := bump requestID (li_watchersByRequest l)\<rparr>))"

definition releaseWatcher :: "u32 \<Rightarrow> string \<Rightarrow> limits \<Rightarrow> limits" where
  "releaseWatcher uid requestID l =
     l\<lparr>li_watchersByUID := drop_one uid (li_watchersByUID l),
       li_watchersByRequest := drop_one requestID (li_watchersByRequest l)\<rparr>"

lemma count_of_empty [simp]: "count_of Map.empty k = 0"
  by (simp add: count_of_def)

lemma count_of_bump [simp]: "count_of (bump k m) j = (if j = k then count_of m k + 1 else count_of m j)"
  by (simp add: count_of_def bump_def)

lemma count_of_drop_one [simp]:
  "count_of (drop_one k m) j = (if j = k then count_of m k - 1 else count_of m j)"
  by (auto simp: count_of_def drop_one_def)

subsection \<open>The contract of a limiter\<close>

text \<open>
  A limiter counts its holders per key. The contract: a granted acquisition had room and adds one to
  its key, a refused one changes no count, a release takes one from its key. From it follows, once and
  for all limiters, that in every history where only granted acquisitions are released the count of a
  key is the number of its current holders and never exceeds the cap.
\<close>

datatype 'h event = Acquire 'h | Release 'h

text \<open>A history: the state of the limiter and the multiset of those who hold it. A release by somebody who
  holds nothing does not occur in the program (each release is deferred after a granted acquisition)
  and is skipped.\<close>

fun run_events :: "('h \<Rightarrow> 's \<Rightarrow> bool \<times> 's) \<Rightarrow> ('h \<Rightarrow> 's \<Rightarrow> 's) \<Rightarrow> 'h event list \<Rightarrow> 's \<times> 'h multiset \<Rightarrow> 's \<times> 'h multiset"
where
  "run_events acquire release [] c = c"
| "run_events acquire release (Acquire h # es) (s, H) =
     (case acquire h s of
        (True, t) \<Rightarrow> run_events acquire release es (t, add_mset h H)
      | (False, t) \<Rightarrow> run_events acquire release es (t, H))"
| "run_events acquire release (Release h # es) (s, H) =
     (if h \<in># H then run_events acquire release es (release h s, H - {#h#})
      else run_events acquire release es (s, H))"

definition held :: "('h \<Rightarrow> 'k) \<Rightarrow> 'h multiset \<Rightarrow> 'k \<Rightarrow> int" where
  "held key H k = int (size (filter_mset (\<lambda>h. key h = k) H))"

lemma held_add [simp]: "held key (add_mset h H) k = (if k = key h then held key H k + 1 else held key H k)"
  by (simp add: held_def)

lemma held_empty [simp]: "held key {#} k = 0"
  by (simp add: held_def)

lemma held_nonneg [simp]: "0 \<le> held key H k"
  by (simp add: held_def)

text \<open>Any property of state and holders that grants, refusals and releases keep holds throughout.\<close>

lemma run_events_induct:
  assumes "P (s, H)"
    and "\<And>h s t H. P (s, H) \<Longrightarrow> acquire h s = (True, t) \<Longrightarrow> P (t, add_mset h H)"
    and "\<And>h s t H. P (s, H) \<Longrightarrow> acquire h s = (False, t) \<Longrightarrow> P (t, H)"
    and "\<And>h s G. P (s, add_mset h G) \<Longrightarrow> P (release h s, G)"
  shows "P (run_events acquire release es (s, H))"
  using assms(1)
proof (induction es arbitrary: s H)
  case (Cons e es)
  show ?case
  proof (cases e)
    case (Acquire h)
    obtain b t where a: "acquire h s = (b, t)" by fastforce
    show ?thesis
    proof (cases b)
      case True
      then show ?thesis using Acquire a Cons assms(2) [of s H h t] by simp
    next
      case False
      then show ?thesis using Acquire a Cons assms(3) [of s H h t] by simp
    qed
  next
    case (Release h)
    show ?thesis
    proof (cases "h \<in># H")
      case True
      then obtain G where "H = add_mset h G" by (metis multi_member_split)
      then show ?thesis using Release Cons assms(4) [of s h G] by simp
    next
      case False
      then show ?thesis using Release Cons by simp
    qed
  qed
qed simp

locale limiter =
  fixes acquire :: "'h \<Rightarrow> 's \<Rightarrow> bool \<times> 's"
    and release :: "'h \<Rightarrow> 's \<Rightarrow> 's"
    and key :: "'h \<Rightarrow> 'k"
    and load :: "'s \<Rightarrow> 'k \<Rightarrow> int"
    and cap :: int
  assumes granted: "acquire h s = (True, t) \<Longrightarrow>
      load s (key h) < cap \<and> load t = (load s)(key h := load s (key h) + 1)"
    and refused: "acquire h s = (False, t) \<Longrightarrow> load t = load s"
    and released: "load (release h s) = (load s)(key h := load s (key h) - 1)"
begin

definition tracks :: "'s \<times> 'h multiset \<Rightarrow> bool" where
  "tracks c \<longleftrightarrow> load (fst c) = held key (snd c) \<and> (\<forall>k. held key (snd c) k \<le> max 0 cap)"

lemma tracks_grant: "acquire h s = (True, t) \<Longrightarrow> tracks (s, H) \<Longrightarrow> tracks (t, add_mset h H)"
  using granted [of h s t] by (auto simp: tracks_def fun_eq_iff)

lemma tracks_refuse: "acquire h s = (False, t) \<Longrightarrow> tracks (s, H) \<Longrightarrow> tracks (t, H)"
  using refused [of h s t] by (simp add: tracks_def)

lemma tracks_release: "tracks (s, add_mset h G) \<Longrightarrow> tracks (release h s, G)"
proof -
  assume t: "tracks (s, add_mset h G)"
  have "held key G k \<le> max 0 cap" for k
    using t by (auto simp: tracks_def dest!: spec [of _ k] split: if_splits)
  then show ?thesis using t released [of h s] by (auto simp: tracks_def fun_eq_iff)
qed

lemma run_tracks: "tracks (s, H) \<Longrightarrow> tracks (run_events acquire release es (s, H))"
  by (rule run_events_induct) (auto intro: tracks_grant tracks_refuse tracks_release)

text \<open>From an idle limiter the load of every key is the number of its holders, within the cap.\<close>

lemma load_is_held:
  assumes "load s = (\<lambda>_. 0)" and "run_events acquire release es (s, {#}) = (t, H)"
  shows "load t k = held key H k \<and> load t k \<le> max 0 cap"
  using run_tracks [of s "{#}" es] assms by (simp add: tracks_def fun_eq_iff)

end

subsection \<open>The limiters of the daemon\<close>

definition submission_acquire :: "daemon_config \<Rightarrow> u32 \<times> nat \<Rightarrow> limits \<Rightarrow> bool \<times> limits" where
  "submission_acquire cfg h l =
     (is_ok (fst (acquireSubmission cfg (snd h) (fst h) l)), snd (acquireSubmission cfg (snd h) (fst h) l))"

definition submission_release :: "u32 \<times> nat \<Rightarrow> limits \<Rightarrow> limits" where
  "submission_release h l = releaseSubmission (fst h) l"

definition watcher_acquire :: "daemon_config \<Rightarrow> u32 \<times> string \<Rightarrow> limits \<Rightarrow> bool \<times> limits" where
  "watcher_acquire cfg h l =
     (is_ok (fst (acquireWatcher cfg (fst h) (snd h) l)), snd (acquireWatcher cfg (fst h) (snd h) l))"

definition watcher_release :: "u32 \<times> string \<Rightarrow> limits \<Rightarrow> limits" where
  "watcher_release h l = releaseWatcher (fst h) (snd h) l"

lemmas limit_defs = submission_acquire_def submission_release_def watcher_acquire_def watcher_release_def
  acquireSubmission_def releaseSubmission_def acquireWatcher_def releaseWatcher_def

interpretation per_uid: limiter "submission_acquire cfg" submission_release fst
  "\<lambda>l. count_of (li_submitting l)" "cf_MaxConcurrentPerUID cfg" for cfg
  by unfold_locales (auto simp: limit_defs Let_def fun_eq_iff split: if_splits)

interpretation in_total: limiter "submission_acquire cfg" submission_release "\<lambda>_. ()"
  "\<lambda>l _. li_submittingTotal l" "cf_MaxConcurrentTotal cfg" for cfg
  by unfold_locales (auto simp: limit_defs Let_def fun_eq_iff split: if_splits)

interpretation watch_uid: limiter "watcher_acquire cfg" watcher_release fst
  "\<lambda>l. count_of (li_watchersByUID l)" "cf_MaxWatchersPerUID cfg" for cfg
  by unfold_locales (auto simp: limit_defs fun_eq_iff split: if_splits)

interpretation watch_request: limiter "watcher_acquire cfg" watcher_release snd
  "\<lambda>l. count_of (li_watchersByRequest l)" "cf_MaxWatchersPerRequest cfg" for cfg
  by unfold_locales (auto simp: limit_defs fun_eq_iff split: if_splits)

text \<open>(C34) Submissions in progress are bounded: in every history of acquisitions and releases the counter of
  a user is the number of submissions that user has in progress and at most the configured limit, the
  total counter is the number of all submissions in progress and at most the total limit.\<close>

theorem submissions_bounded:
  assumes "config_ok cfg" and "run_events (submission_acquire cfg) submission_release es (no_limits, {#}) = (l, H)"
  shows "count_of (li_submitting l) uid = held fst H uid
    \<and> held fst H uid \<le> cf_MaxConcurrentPerUID cfg
    \<and> li_submittingTotal l = int (size H) \<and> int (size H) \<le> cf_MaxConcurrentTotal cfg"
  using per_uid.load_is_held [OF _ assms(2), of uid] in_total.load_is_held [OF _ assms(2), of "()"] assms(1)
  by (auto simp: no_limits_def config_ok_def held_def fun_eq_iff)

theorem submissions_bounded_witness:
  "\<exists>l H. run_events (submission_acquire (default_config\<lparr>cf_Version := 1\<rparr>)) submission_release
       [Acquire (7, 0), Acquire (7, 1), Acquire (7, 2), Release (7, 0)] (no_limits, {#}) = (l, H)
     \<and> count_of (li_submitting l) 7 = held fst H 7 \<and> held fst H 7 \<le> 2"
proof -
  obtain l H where run: "run_events (submission_acquire (default_config\<lparr>cf_Version := 1\<rparr>)) submission_release
       [Acquire (7, 0), Acquire (7, 1), Acquire (7, 2), Release (7, 0)] (no_limits, {#}) = (l, H)"
    by fastforce
  have "config_ok (default_config\<lparr>cf_Version := 1\<rparr>)"
    by (simp add: config_ok_def default_config_def)
  then show ?thesis
    using submissions_bounded [OF _ run, of 7] run by (auto simp: default_config_def)
qed

text \<open>Watchers are bounded in the same way, per user and per request.\<close>

lemma watchers_bounded:
  assumes "config_ok cfg" and "run_events (watcher_acquire cfg) watcher_release es (no_limits, {#}) = (l, H)"
  shows "count_of (li_watchersByUID l) uid = held fst H uid \<and> held fst H uid \<le> cf_MaxWatchersPerUID cfg
    \<and> count_of (li_watchersByRequest l) rid = held snd H rid \<and> held snd H rid \<le> cf_MaxWatchersPerRequest cfg"
  using watch_uid.load_is_held [OF _ assms(2), of uid] watch_request.load_is_held [OF _ assms(2), of rid] assms(1)
  by (auto simp: no_limits_def config_ok_def fun_eq_iff)

subsection \<open>The rate limit\<close>

text \<open>The times at which one user's submissions are granted in a history of events of all users.\<close>

fun grants :: "daemon_config \<Rightarrow> u32 \<Rightarrow> (u32 \<times> nat) event list \<Rightarrow> limits \<Rightarrow> nat list" where
  "grants cfg uid [] l = []"
| "grants cfg uid (Acquire h # es) l =
     (case submission_acquire cfg h l of
        (True, m) \<Rightarrow> (if fst h = uid then [snd h] else []) @ grants cfg uid es m
      | (False, m) \<Rightarrow> grants cfg uid es m)"
| "grants cfg uid (Release h # es) l = grants cfg uid es (submission_release h l)"

fun attempts :: "u32 \<Rightarrow> (u32 \<times> nat) event list \<Rightarrow> nat list" where
  "attempts uid [] = []"
| "attempts uid (Acquire h # es) = (if fst h = uid then [snd h] else []) @ attempts uid es"
| "attempts uid (Release h # es) = attempts uid es"

abbreviation in_minute :: "nat \<Rightarrow> nat list \<Rightarrow> nat list" where
  "in_minute t ts \<equiv> filter (\<lambda>x. int t - minute < int x) ts"

text \<open>The recorded times are the granted ones since some instant before the current minute.\<close>

definition recorded :: "limits \<Rightarrow> u32 \<Rightarrow> nat list \<Rightarrow> int \<Rightarrow> bool" where
  "recorded l uid log c \<longleftrightarrow> times_of l uid = filter (\<lambda>x. c < int x) log"

lemma acquire_records:
  assumes "recorded l uid log c" and "c \<le> int t - minute" and "submission_acquire cfg (uid, t) l = (b, m)"
  shows "if b then recorded m uid (log @ [t]) (int t - minute)
      \<and> int (length (in_minute t (log @ [t]))) \<le> cf_MaxSubmissionsPerMinute cfg
    else recorded m uid log (int t - minute)"
proof -
  have f: "filter (\<lambda>x. int t - minute < int x) (filter (\<lambda>x. c < int x) log) = in_minute t log"
    using assms(2) by (auto intro: filter_cong)
  show ?thesis
    using assms(1,3) f by (auto simp: limit_defs recorded_def times_of_def Let_def minute_def split: if_splits)
qed

lemma acquire_other: "fst h \<noteq> uid \<Longrightarrow> times_of (snd (submission_acquire cfg h l)) uid = times_of l uid"
  by (auto simp: limit_defs times_of_def Let_def)

lemma release_times: "times_of (submission_release h l) uid = times_of l uid"
  by (simp add: limit_defs times_of_def)

lemma grants_rate:
  assumes "recorded l uid log c" and "\<forall>t \<in> set (attempts uid es). c \<le> int t - minute" and "sorted (attempts uid es)"
    and "n < length (grants cfg uid es l)"
  shows "int (length (in_minute (grants cfg uid es l ! n) (log @ take (Suc n) (grants cfg uid es l))))
    \<le> cf_MaxSubmissionsPerMinute cfg"
  using assms
proof (induction es arbitrary: l log c n)
  case (Cons e es)
  show ?case
  proof (cases e)
    case (Release h)
    then show ?thesis using Cons by (simp add: recorded_def release_times)
  next
    case (Acquire h)
    obtain b m where m: "submission_acquire cfg h l = (b, m)" by fastforce
    show ?thesis
    proof (cases "fst h = uid")
      case False
      then have "recorded m uid log c"
        using Cons.prems(1) acquire_other [of h uid cfg l] m by (simp add: recorded_def)
      then show ?thesis using Cons Acquire m False by (auto split: bool.splits)
    next
      case True
      define t where "t = snd h"
      have h: "h = (uid, t)" using True by (simp add: t_def prod_eq_iff)
      have later: "\<forall>u \<in> set (attempts uid es). int t - minute \<le> int u - minute"
        using Cons.prems(3) Acquire h by simp
      have rec: "if b then recorded m uid (log @ [t]) (int t - minute)
          \<and> int (length (in_minute t (log @ [t]))) \<le> cf_MaxSubmissionsPerMinute cfg
        else recorded m uid log (int t - minute)"
        using acquire_records [of l uid log c t cfg b m] Cons.prems Acquire h m by simp
      show ?thesis
      proof (cases b)
        case False
        then show ?thesis
          using Cons.IH [of m log "int t - minute" n] Cons.prems Acquire h m rec later by simp
      next
        case True
        have g: "grants cfg uid (e # es) l = t # grants cfg uid es m"
          using Acquire h m True by simp
        show ?thesis
        proof (cases n)
          case 0
          then show ?thesis using g rec True by simp
        next
          case (Suc k)
          then show ?thesis
            using Cons.IH [of m "log @ [t]" "int t - minute" k] Cons.prems Acquire h rec later True g by simp
        qed
      qed
    qed
  qed
qed simp

text \<open>(C35) The rate limit holds in every minute: with a clock that does not run backwards, each granted
  submission of a user is among at most the configured number granted to that user within the minute
  that ends with it, whatever other users do and however submissions end.\<close>

theorem submission_rate_limited:
  assumes "sorted (attempts uid es)" and "n < length (grants cfg uid es no_limits)"
  shows "int (length (in_minute (grants cfg uid es no_limits ! n) (take (Suc n) (grants cfg uid es no_limits))))
    \<le> cf_MaxSubmissionsPerMinute cfg"
proof -
  have "recorded no_limits uid [] (- minute)" by (simp add: recorded_def times_of_def no_limits_def)
  then show ?thesis
    using grants_rate [of no_limits uid "[]" "- minute" es n cfg] assms by simp
qed

theorem submission_rate_limited_witness:
  "let es = [Acquire (7, 0), Release (7, 0), Acquire (7, 5)]; cfg = default_config\<lparr>cf_MaxSubmissionsPerMinute := 1\<rparr>
   in grants cfg 7 es no_limits = [0] \<and> int (length (in_minute 0 [0])) \<le> 1"
proof -
  let ?es = "[Acquire (7, 0), Release (7, 0), Acquire (7, 5)] :: (u32 \<times> nat) event list"
  let ?cfg = "default_config\<lparr>cf_MaxSubmissionsPerMinute := 1\<rparr>"
  have g: "grants ?cfg 7 ?es no_limits = [0]"
    by (simp add: limit_defs no_limits_def times_of_def default_config_def minute_def bump_def drop_one_def
        count_of_def Let_def)
  then show ?thesis
    using submission_rate_limited [of 7 ?es 0 ?cfg] by simp
qed

end
