(* ===== verification/Policy.thy ===== *)
theory Policy
  imports Go_Std
begin

section \<open>Local policy: internal/policy/policy.go\<close>

text \<open>
  Rules, glob matching and their evaluation. Opening the policy file and decoding it with
  \<open>yaml.v3\<close> (known fields only) is outside the repository: its outcome is the argument of
  \<open>Load\<close>. Resolving symbolic links is the argument \<open>evalSymlinks\<close> of the functions that use it.

  \<open>glob\<close> translates a pattern into a regular expression of literals, \<open>[^/]\<close>, \<open>[^/]*\<close> and
  \<open>.*\<close>, anchored at both ends, and matches it with Go's \<open>regexp\<close>, which reads the value rune
  by rune. The tokens below are that expression, and \<open>tok_match\<close> decides membership.
\<close>

definition RequireApproval :: string where
  "RequireApproval = ''require-approval''"

definition Deny :: string where
  "Deny = ''deny''"

lemma Deny_neq_RequireApproval [simp]: "Deny \<noteq> RequireApproval" "RequireApproval \<noteq> Deny"
  by (simp_all add: Deny_def RequireApproval_def)

record policy_match =
  pm_Executable :: "string option"
  pm_Argv :: "string list option"
  pm_Path :: "string option"
  pm_RequesterUID :: "u32 option"

record policy_rule =
  pr_Match :: policy_match
  pr_Action :: string

record policy_config =
  pc_Version :: int
  pc_DefaultsAction :: string
  pc_Rules :: "policy_rule list"

record policy_input =
  pi_Executable :: string
  pi_Argv :: "string list"
  pi_Cwd :: string
  pi_UID :: u32

subsection \<open>Load\<close>

definition validAction :: "string \<Rightarrow> bool" where
  "validAction action \<longleftrightarrow> action = RequireApproval \<or> action = Deny"

text \<open>The index of the first rule whose action is invalid, from \<open>index\<close> on.\<close>

fun bad_action :: "nat \<Rightarrow> policy_rule list \<Rightarrow> nat option" where
  "bad_action index [] = None"
| "bad_action index (r # rs) =
    (if \<not> validAction (pr_Action r) then Some index else bad_action (Suc index) rs)"

definition Load :: "policy_config res \<Rightarrow> policy_config res" where
  "Load decoded =
    (case decoded of
       Inl e \<Rightarrow> Inl e
     | Inr config \<Rightarrow>
         if pc_Version config \<noteq> 1 \<or> \<not> validAction (pc_DefaultsAction config)
         then Inl (Plain ''invalid policy version or default action'')
         else if length (pc_Rules config) > 10000
         then Inl (Plain ''policy contains too many rules'')
         else (case bad_action 0 (pc_Rules config) of
                 Some index \<Rightarrow> Inl (Plain (''invalid action in rule '' @ nat_dec index))
               | None \<Rightarrow> Inr config))"

subsection \<open>Globs\<close>

datatype glob_token = Lit nat | SegOne | SegSeq | AnySeq

text \<open>A pattern is read byte by byte. A literal byte goes through \<open>string(pattern[index])\<close>,
  which is the UTF-8 text of the \<^emph>\<open>rune\<close> with that number, so the token is that rune.\<close>

fun glob_tokens :: "string \<Rightarrow> glob_token list" where
  "glob_tokens [] = []"
| "glob_tokens (c # cs) =
    (if c = CHR ''*'' then
       (case cs of
          d # ds \<Rightarrow> if d = CHR ''*'' then AnySeq # glob_tokens ds else SegSeq # glob_tokens cs
        | [] \<Rightarrow> SegSeq # glob_tokens cs)
     else if c = CHR ''?'' then SegOne # glob_tokens cs
     else Lit (byte c) # glob_tokens cs)"

text \<open>Rune 0x2F is the slash, rune 0x0A the newline, which \<open>.\<close> does not match.\<close>

fun tok_match :: "glob_token list \<Rightarrow> nat list \<Rightarrow> bool" where
  "tok_match [] vs = (vs = [])"
| "tok_match (Lit r # ts) vs = (case vs of [] \<Rightarrow> False | v # ws \<Rightarrow> v = r \<and> tok_match ts ws)"
| "tok_match (SegOne # ts) vs = (case vs of [] \<Rightarrow> False | v # ws \<Rightarrow> v \<noteq> 0x2F \<and> tok_match ts ws)"
| "tok_match (SegSeq # ts) vs =
    (tok_match ts vs \<or> (case vs of [] \<Rightarrow> False | v # ws \<Rightarrow> v \<noteq> 0x2F \<and> tok_match (SegSeq # ts) ws))"
| "tok_match (AnySeq # ts) vs =
    (tok_match ts vs \<or> (case vs of [] \<Rightarrow> False | v # ws \<Rightarrow> v \<noteq> 0x0A \<and> tok_match (AnySeq # ts) ws))"

definition glob :: "string \<Rightarrow> string \<Rightarrow> bool" where
  "glob pattern value = tok_match (glob_tokens pattern) (runes value)"

subsection \<open>Matching and evaluation\<close>

definition candidate_path :: "(string \<Rightarrow> string res) \<Rightarrow> string \<Rightarrow> string \<Rightarrow> string list" where
  "candidate_path evalSymlinks cwd candidate =
    (if candidate = '''' \<or> contains_byte candidate NUL then []
     else let joined = (if \<not> IsAbs candidate then Join2 cwd candidate else candidate);
              cleaned = Clean joined
          in [case evalSymlinks cleaned of Inr resolved \<Rightarrow> resolved | Inl e \<Rightarrow> cleaned])"

definition argument_paths :: "(string \<Rightarrow> string res) \<Rightarrow> string \<Rightarrow> string \<Rightarrow> string list" where
  "argument_paths evalSymlinks cwd argument =
    concat (map (candidate_path evalSymlinks cwd)
      (argument # (case cut_after (CHR ''='') argument of None \<Rightarrow> [] | Some value \<Rightarrow> [value])))"

definition policyPaths :: "(string \<Rightarrow> string res) \<Rightarrow> policy_input \<Rightarrow> string list" where
  "policyPaths evalSymlinks inp =
    [Clean (pi_Executable inp), Clean (pi_Cwd inp)]
    @ concat (map (argument_paths evalSymlinks (pi_Cwd inp)) (pi_Argv inp))"

definition rule_matches :: "(string \<Rightarrow> string res) \<Rightarrow> policy_match \<Rightarrow> policy_input \<Rightarrow> bool" where
  "rule_matches evalSymlinks m inp =
    (if (case pm_Executable m of None \<Rightarrow> False | Some p \<Rightarrow> \<not> glob p (pi_Executable inp)) then False
     else if (case pm_RequesterUID m of None \<Rightarrow> False | Some u \<Rightarrow> u \<noteq> pi_UID inp) then False
     else if (case pm_Argv m of None \<Rightarrow> False
              | Some ps \<Rightarrow> length ps \<noteq> length (pi_Argv inp)
                  \<or> (\<exists>(p, v) \<in> set (zip ps (pi_Argv inp)). \<not> glob p v)) then False
     else if (case pm_Path m of None \<Rightarrow> False
              | Some p \<Rightarrow> \<not> list_ex (glob p) (policyPaths evalSymlinks inp)) then False
     else True)"

fun first_match :: "(string \<Rightarrow> string res) \<Rightarrow> string \<Rightarrow> policy_rule list \<Rightarrow> policy_input \<Rightarrow> bool" where
  "first_match evalSymlinks action [] inp = False"
| "first_match evalSymlinks action (r # rs) inp =
    (if pr_Action r = action \<and> rule_matches evalSymlinks (pr_Match r) inp then True
     else first_match evalSymlinks action rs inp)"

definition Evaluate :: "(string \<Rightarrow> string res) \<Rightarrow> policy_config \<Rightarrow> policy_input \<Rightarrow> string" where
  "Evaluate evalSymlinks config inp =
    (if first_match evalSymlinks Deny (pc_Rules config) inp then Deny
     else if first_match evalSymlinks RequireApproval (pc_Rules config) inp then RequireApproval
     else pc_DefaultsAction config)"

subsection \<open>The meaning of a glob\<close>

text \<open>The texts a token stands for, and the texts a pattern stands for.\<close>

fun tok_lang :: "glob_token \<Rightarrow> nat list set" where
  "tok_lang (Lit r) = {[r]}"
| "tok_lang SegOne = {[v] | v. v \<noteq> 0x2F}"
| "tok_lang SegSeq = {vs. 0x2F \<notin> set vs}"
| "tok_lang AnySeq = {vs. 0x0A \<notin> set vs}"

fun toks_lang :: "glob_token list \<Rightarrow> nat list set" where
  "toks_lang [] = {[]}"
| "toks_lang (t # ts) = {us @ vs | us vs. us \<in> tok_lang t \<and> vs \<in> toks_lang ts}"

lemma seq_lang_step:
  "(vs \<in> {us @ ws | us ws. x \<notin> set us \<and> ws \<in> L}) \<longleftrightarrow>
    (vs \<in> L \<or> (\<exists>v rest. vs = v # rest \<and> v \<noteq> x \<and> rest \<in> {us @ ws | us ws. x \<notin> set us \<and> ws \<in> L}))"
  (is "?l \<longleftrightarrow> ?r")
proof
  assume ?l
  then obtain us ws where "vs = us @ ws" "x \<notin> set us" "ws \<in> L" by blast
  then show ?r by (cases us) auto
next
  assume ?r
  then show ?l
  proof
    assume "vs \<in> L"
    then have "vs = [] @ vs \<and> x \<notin> set [] \<and> vs \<in> L" by simp
    then show ?l by blast
  next
    assume "\<exists>v rest. vs = v # rest \<and> v \<noteq> x \<and> rest \<in> {us @ ws | us ws. x \<notin> set us \<and> ws \<in> L}"
    then obtain v us ws where "vs = (v # us) @ ws" "x \<notin> set (v # us)" "ws \<in> L" by auto
    then show ?l by blast
  qed
qed

lemma tok_match_lang: "tok_match ts vs \<longleftrightarrow> vs \<in> toks_lang ts"
proof (induction ts vs rule: tok_match.induct)
  case (3 ts vs)
  have "v # ws \<in> toks_lang (SegOne # ts) \<longleftrightarrow> v \<noteq> 0x2F \<and> ws \<in> toks_lang ts" for v ws
  proof
    assume "v # ws \<in> toks_lang (SegOne # ts)"
    then show "v \<noteq> 0x2F \<and> ws \<in> toks_lang ts" by auto
  next
    assume "v \<noteq> 0x2F \<and> ws \<in> toks_lang ts"
    then have "v # ws = [v] @ ws \<and> [v] \<in> tok_lang SegOne \<and> ws \<in> toks_lang ts" by simp
    then show "v # ws \<in> toks_lang (SegOne # ts)" unfolding toks_lang.simps by blast
  qed
  with 3 show ?case by (auto split: list.splits)
next
  case (4 ts vs)
  show ?case
    using 4 seq_lang_step [of vs "0x2F" "toks_lang ts"] by (cases vs) auto
next
  case (5 ts vs)
  show ?case
    using 5 seq_lang_step [of vs "0x0A" "toks_lang ts"] by (cases vs) auto
qed (auto split: list.splits)


subsection \<open>Literal patterns\<close>

definition no_wildcard :: "string \<Rightarrow> bool" where
  "no_wildcard p \<longleftrightarrow> CHR ''*'' \<notin> set p \<and> CHR ''?'' \<notin> set p"

lemma glob_tokens_literal: "no_wildcard p \<Longrightarrow> glob_tokens p = map (\<lambda>c. Lit (byte c)) p"
  by (induction p) (auto simp: no_wildcard_def)

lemma tok_match_literal: "tok_match (map Lit rs) vs \<longleftrightarrow> vs = rs"
  by (induction rs arbitrary: vs) (auto split: list.splits)

lemma glob_no_wildcard:
  "no_wildcard p \<Longrightarrow> glob p v \<longleftrightarrow> runes v = map byte p"
  using tok_match_literal [of "map byte p" "runes v"]
  by (simp add: glob_def glob_tokens_literal comp_def)

text \<open>An ASCII pattern without wildcards matches the value that is equal to it and nothing
  else: an executable or path rule that names one file applies to that file only.\<close>

lemma glob_literal_exact:
  assumes "ascii p" and "no_wildcard p"
  shows "glob p v \<longleftrightarrow> v = p"
  using assms glob_no_wildcard [of p v] runes_ascii [of p] runes_low_inj [of v p] by auto

lemma map_byte_runes_ascii: "runes s = map byte s \<Longrightarrow> ascii s"
proof (induction s rule: runes.induct)
  case (1 s)
  show ?case
  proof (cases s)
    case (Cons c cs)
    have eq: "runes s = fst (decode_rune s) # runes (drop (snd (decode_rune s)) s)"
      using Cons by (subst runes.simps) simp
    have "byte c < 0x80"
    proof (rule ccontr)
      assume "\<not> byte c < 0x80"
      then have high: "0x80 \<le> byte (hd s)" "s \<noteq> []" using Cons by simp_all
      have "fst (decode_rune s) = byte c" using eq 1 Cons by simp
      moreover have "byte c < 0x100" by (simp add: byte_def)
      ultimately have "snd (decode_rune s) \<noteq> 1"
        using high Cons by (auto simp: decode_rune_def Let_def rune_error_def split: if_splits)
      then have w: "1 < snd (decode_rune s)" using decode_rune_width [of s] high by linarith
      then have "1 < length s"
        using decode_rune_conts(1) [of s] by (auto simp: cont_byte_def byte_at_def split: if_splits)
      moreover note w
      moreover have "length (runes (drop (snd (decode_rune s)) s)) \<le> length s - snd (decode_rune s)"
        using length_runes [of "drop (snd (decode_rune s)) s"] by simp
      moreover have "length (runes s) = length s" using 1 by simp
      ultimately show False using eq Cons by simp
    qed
    with 1 Cons show ?thesis
      by (simp add: ascii_def decode_rune_ascii runes_ascii_Cons)
  qed (simp add: ascii_def)
qed

text \<open>A literal pattern with a byte outside ASCII never matches its own text: the pattern is
  read byte by byte and each byte is taken for a rune, while the value is read rune by rune. A deny
  rule that names such a file does not apply to it.\<close>

theorem glob_non_ascii_never_matches_itself:
  assumes "no_wildcard p" and "\<not> ascii p"
  shows "\<not> glob p p"
  using assms glob_no_wildcard [of p p] map_byte_runes_ascii [of p] by auto

theorem glob_non_ascii_witness: "\<not> glob [CHR ''/'', CHR 0xC3, CHR 0xA9] [CHR ''/'', CHR 0xC3, CHR 0xA9]"
  by (rule glob_non_ascii_never_matches_itself) (simp_all add: no_wildcard_def ascii_def byte_def)

subsection \<open>Double stars and newlines\<close>

lemma tok_match_AnySeq_only: "tok_match [AnySeq] vs \<longleftrightarrow> 0x0A \<notin> set vs"
  by (induction vs) auto

lemma glob_double_star: "glob ''**'' v \<longleftrightarrow> CHR 0x0A \<notin> set v"
proof -
  have "(10 :: nat) = byte (CHR 0x0A)" by (simp add: byte_def)
  then have "(10 \<in> set (runes v)) = (CHR 0x0A \<in> set v)"
    using runes_low_mem [of "CHR 0x0A" v] by simp
  then show ?thesis by (simp add: glob_def tok_match_AnySeq_only del: tok_match.simps)
qed

subsection \<open>Rules\<close>

lemma first_match_iff:
  "first_match ev a rs inp \<longleftrightarrow> (\<exists>r \<in> set rs. pr_Action r = a \<and> rule_matches ev (pr_Match r) inp)"
  by (induction rs) auto

lemma rule_matches_iff:
  "rule_matches ev m inp \<longleftrightarrow>
     (\<forall>p. pm_Executable m = Some p \<longrightarrow> glob p (pi_Executable inp))
     \<and> (\<forall>u. pm_RequesterUID m = Some u \<longrightarrow> u = pi_UID inp)
     \<and> (\<forall>ps. pm_Argv m = Some ps \<longrightarrow> list_all2 glob ps (pi_Argv inp))
     \<and> (\<forall>p. pm_Path m = Some p \<longrightarrow> (\<exists>v \<in> set (policyPaths ev inp). glob p v))"
  by (auto simp: rule_matches_def list_all2_iff list_ex_iff split: option.splits)

lemma Load_valid:
  "Load d = Inr cfg \<Longrightarrow> d = Inr cfg \<and> validAction (pc_DefaultsAction cfg) \<and> pc_Version cfg = 1
    \<and> length (pc_Rules cfg) \<le> 10000"
  by (auto simp: Load_def split: sum.splits if_splits option.splits)

lemma bad_action_None: "bad_action i rs = None \<longleftrightarrow> (\<forall>r \<in> set rs. validAction (pr_Action r))"
  by (induction rs arbitrary: i) auto

text \<open>A policy file is accepted exactly when it decodes, has version 1, a known default action,
  at most 10000 rules and a known action in every rule; the loaded policy is the decoded one.\<close>

lemma Load_accepts_iff:
  "Load d = Inr cfg \<longleftrightarrow>
     d = Inr cfg \<and> pc_Version cfg = 1 \<and> validAction (pc_DefaultsAction cfg)
     \<and> length (pc_Rules cfg) \<le> 10000 \<and> (\<forall>r \<in> set (pc_Rules cfg). validAction (pr_Action r))"
  unfolding bad_action_None [of 0, symmetric]
  by (auto simp: Load_def split: sum.splits if_splits option.splits)

text \<open>(C31) Evaluating a loaded policy gives one of two actions, and gives \<open>require-approval\<close>
  exactly when no deny rule matches and either an approval rule matches or the default asks for
  approval: the position of a deny rule among the others does not matter, and there is no action
  that lets a request run unapproved.\<close>

theorem Evaluate_outcome:
  assumes "Load d = Inr cfg"
  shows "Evaluate ev cfg inp \<in> {RequireApproval, Deny}
    \<and> (Evaluate ev cfg inp = RequireApproval \<longleftrightarrow>
        \<not> (\<exists>r \<in> set (pc_Rules cfg). pr_Action r = Deny \<and> rule_matches ev (pr_Match r) inp)
        \<and> ((\<exists>r \<in> set (pc_Rules cfg). pr_Action r = RequireApproval \<and> rule_matches ev (pr_Match r) inp)
           \<or> pc_DefaultsAction cfg = RequireApproval))"
  using Load_valid [OF assms] by (auto simp: Evaluate_def first_match_iff validAction_def)

definition example_match :: policy_match where
  "example_match = \<lparr>pm_Executable = None, pm_Argv = None, pm_Path = Some ''/etc/shudo/**'',
     pm_RequesterUID = None\<rparr>"

definition example_policy :: policy_config where
  "example_policy = \<lparr>pc_Version = 1, pc_DefaultsAction = RequireApproval,
     pc_Rules = [\<lparr>pr_Match = example_match\<lparr>pm_Path := None\<rparr>, pr_Action = RequireApproval\<rparr>,
                 \<lparr>pr_Match = example_match, pr_Action = Deny\<rparr>]\<rparr>"

definition example_input :: policy_input where
  "example_input = \<lparr>pi_Executable = ''/bin/cp'', pi_Argv = [''x'', ''../shudo/c''], pi_Cwd = ''/etc/a'',
     pi_UID = 1000\<rparr>"

theorem Evaluate_outcome_witness:
  "Evaluate (\<lambda>p. Inr p) example_policy example_input = Deny"
proof -
  have load: "Load (Inr example_policy) = Inr example_policy"
    by (simp add: Load_def example_policy_def validAction_def)
  have path: "''/etc/shudo/c'' \<in> set (policyPaths (\<lambda>p. Inr p) example_input)"
    by (simp add: policyPaths_def example_input_def argument_paths_def candidate_path_def
        Join2_def Clean_def SLASH_def contains_byte_def NUL_def clean_elems.simps)
  have "glob ''/etc/shudo/**'' ''/etc/shudo/c''"
    by (simp add: glob_def runes_ascii ascii_def byte_def)
  then have "rule_matches (\<lambda>p. Inr p) example_match example_input"
    using path by (auto simp: rule_matches_iff example_match_def)
  then have "\<exists>r \<in> set (pc_Rules example_policy).
      pr_Action r = Deny \<and> rule_matches (\<lambda>p. Inr p) (pr_Match r) example_input"
    by (simp add: example_policy_def)
  then show ?thesis
    using Evaluate_outcome [OF load, of "\<lambda>p. Inr p" example_input] by auto
qed

text \<open>The outcome depends on the rules as a set: reordering or repeating rules never changes
  the decision.\<close>

lemma Evaluate_order_irrelevant:
  assumes "set (pc_Rules c) = set (pc_Rules d)" and "pc_DefaultsAction c = pc_DefaultsAction d"
  shows "Evaluate ev c inp = Evaluate ev d inp"
proof -
  have "first_match ev a (pc_Rules c) inp = first_match ev a (pc_Rules d) inp" for a
    by (simp add: first_match_iff assms)
  with assms show ?thesis by (simp add: Evaluate_def)
qed

text \<open>(C33) A rule that denies any single argument with a double star misses every argument that
  holds a newline, because the dot of the regular expression does not match one: such a request
  gets the default action.\<close>

theorem deny_any_argument_misses_newline:
  assumes "pc_Rules cfg = [\<lparr>pr_Match = m, pr_Action = Deny\<rparr>]" and "pm_Argv m = Some [''**'']"
    and "pi_Argv inp = [a]" and "CHR 0x0A \<in> set a"
  shows "Evaluate ev cfg inp = pc_DefaultsAction cfg"
proof -
  have "\<not> rule_matches ev m inp"
    using assms glob_double_star [of a] by (auto simp: rule_matches_iff)
  with assms show ?thesis by (simp add: Evaluate_def)
qed

theorem deny_any_argument_misses_newline_witness:
  "Evaluate (\<lambda>p. Inr p)
     \<lparr>pc_Version = 1, pc_DefaultsAction = RequireApproval,
      pc_Rules = [\<lparr>pr_Match = example_match\<lparr>pm_Argv := Some [''**'']\<rparr>, pr_Action = Deny\<rparr>]\<rparr>
     (example_input\<lparr>pi_Argv := [[CHR ''a'', CHR 0x0A, CHR ''b'']]\<rparr>) = RequireApproval"
  using deny_any_argument_misses_newline [where m = "example_match\<lparr>pm_Argv := Some [''**'']\<rparr>"
      and a = "[CHR ''a'', CHR 0x0A, CHR ''b'']" and ev = "\<lambda>p. Inr p"
      and inp = "example_input\<lparr>pi_Argv := [[CHR ''a'', CHR 0x0A, CHR ''b'']]\<rparr>"
      and cfg = "\<lparr>pc_Version = 1, pc_DefaultsAction = RequireApproval,
        pc_Rules = [\<lparr>pr_Match = example_match\<lparr>pm_Argv := Some [''**'']\<rparr>, pr_Action = Deny\<rparr>]\<rparr>"]
  by simp

subsection \<open>What the daemon relies on\<close>

text \<open>
  The daemon asks the policy twice: before it stores a request and before it executes one. It
  relies on two laws: a usable policy answers one of two actions, and a matching deny rule decides.
  \<open>admits\<close> is the test the daemon makes before it runs a request.
\<close>

locale policy_engine =
  fixes usable :: "'cfg \<Rightarrow> bool"
    and evaluate :: "'cfg \<Rightarrow> 'inp \<Rightarrow> string"
    and denied :: "'cfg \<Rightarrow> 'inp \<Rightarrow> bool"
  assumes two_actions: "usable c \<Longrightarrow> evaluate c i = RequireApproval \<or> evaluate c i = Deny"
    and deny_wins: "denied c i \<Longrightarrow> evaluate c i = Deny"
begin

lemma admitted_needs_approval: "usable c \<Longrightarrow> evaluate c i \<noteq> Deny \<Longrightarrow> evaluate c i = RequireApproval"
  using two_actions by blast

lemma admitted_not_denied: "evaluate c i \<noteq> Deny \<Longrightarrow> \<not> denied c i"
  using deny_wins by blast

end

definition usable_policy :: "policy_config \<Rightarrow> bool" where
  "usable_policy cfg \<longleftrightarrow> (\<exists>d. Load d = Inr cfg)"

definition policy_denies :: "(string \<Rightarrow> string res) \<Rightarrow> policy_config \<Rightarrow> policy_input \<Rightarrow> bool" where
  "policy_denies ev cfg inp \<longleftrightarrow>
     list_ex (\<lambda>r. pr_Action r = Deny \<and> rule_matches ev (pr_Match r) inp) (pc_Rules cfg)"

interpretation local_policy: policy_engine usable_policy "Evaluate ev" "policy_denies ev" for ev
proof
  show "Evaluate ev c i = RequireApproval \<or> Evaluate ev c i = Deny" if "usable_policy c" for c i
    using that Load_valid by (auto simp: usable_policy_def Evaluate_def validAction_def)
  show "Evaluate ev c i = Deny" if "policy_denies ev c i" for c i
    using that by (auto simp: policy_denies_def list_ex_iff Evaluate_def first_match_iff)
qed

end
