(* ===== verification/Crypto_Util.thy ===== *)
theory Crypto_Util
  imports Json_Codec
begin

section \<open>internal/cryptoutil and internal/securejson\<close>

text \<open>
  Random identifiers, the constant-time comparison, and the canonical hash of a request. The
  bytes drawn from \<open>crypto/rand\<close> are an argument (or the error of the read). RFC 8785
  canonicalisation is the third-party \<open>jcs.Transform\<close>, an argument of \<open>Hash\<close>; SHA-256 is the
  standard library's and is defined here.
\<close>

unbundle bit_operations_syntax

type_synonym u8 = "8 word"

subsection \<open>Nonce, UUID\<close>

text \<open>\<open>base64.RawURLEncoding\<close>: six bits per character, the last group zero-filled, no padding.\<close>

definition base64url_char :: "nat \<Rightarrow> char" where
  "base64url_char v = char_of
     (if v < 26 then 0x41 + v else if v < 52 then 0x61 + (v - 26) else if v < 62 then 0x30 + (v - 52)
      else if v = 62 then 0x2D else 0x5F)"

fun base64url :: "nat list \<Rightarrow> string" where
  "base64url [] = []"
| "base64url [a] = [base64url_char (a div 4), base64url_char (a mod 4 * 16)]"
| "base64url [a, b] =
    [base64url_char (a div 4), base64url_char (a mod 4 * 16 + b div 16), base64url_char (b mod 16 * 4)]"
| "base64url (a # b # c # rest) =
    [base64url_char (a div 4), base64url_char (a mod 4 * 16 + b div 16),
     base64url_char (b mod 16 * 4 + c div 64), base64url_char (c mod 64)] @ base64url rest"

definition Nonce :: "u8 list res \<Rightarrow> string res" where
  "Nonce drawn = (case drawn of Inl e \<Rightarrow> Inl e | Inr value \<Rightarrow> Inr (base64url (map unat value)))"

definition UUID :: "u8 list res \<Rightarrow> string res" where
  "UUID drawn =
    (case drawn of
       Inl e \<Rightarrow> Inl e
     | Inr value \<Rightarrow>
         (let v = (value[6 := (value ! 6 AND 0x0f) OR 0x40])[8 := (value ! 8 AND 0x3f) OR 0x80];
              hex = (\<lambda>i j. hex_bytes (map unat (take (j - i) (drop i v))))
          in Inr (hex 0 4 @ ''-'' @ hex 4 6 @ ''-'' @ hex 6 8 @ ''-'' @ hex 8 10 @ ''-'' @ hex 10 16)))"

subsection \<open>Equal\<close>

text \<open>\<open>subtle.ConstantTimeCompare\<close> on slices of equal length: the bytes' differences are or-ed
  together, and the result is 1 when nothing differed.\<close>

fun differences :: "string \<Rightarrow> string \<Rightarrow> u8" where
  "differences (a # as) (b # bs) =
    ((word_of_nat (byte a) XOR word_of_nat (byte b)) OR differences as bs)"
| "differences _ _ = 0"

definition ConstantTimeCompare :: "string \<Rightarrow> string \<Rightarrow> int" where
  "ConstantTimeCompare x y =
    (if length x \<noteq> length y then 0 else if differences x y = 0 then 1 else 0)"

definition Equal :: "string \<Rightarrow> string \<Rightarrow> bool" where
  "Equal left right =
    (if length left \<noteq> length right then False else ConstantTimeCompare left right = 1)"

lemma byte_word_inj: "(word_of_nat (byte a) :: u8) = word_of_nat (byte b) \<longleftrightarrow> a = b"
proof
  assume "(word_of_nat (byte a) :: u8) = word_of_nat (byte b)"
  then have "byte a mod 256 = byte b mod 256"
    by (simp add: word_of_nat_eq_iff take_bit_eq_mod)
  then show "a = b" by (simp add: byte_def)
qed simp

lemma xor_zero_iff: "(a :: u8) XOR b = 0 \<longleftrightarrow> a = b"
  by (metis bit.xor_left_self xor.right_neutral)

lemma differences_zero:
  "length x = length y \<Longrightarrow> differences x y = 0 \<longleftrightarrow> x = y"
proof (induction x y rule: list_induct2)
  case (Cons a as b bs)
  have "(word_of_nat (byte a) XOR word_of_nat (byte b) :: u8) = 0 \<longleftrightarrow> a = b"
    by (simp add: xor_zero_iff byte_word_inj)
  with Cons show ?case by (simp add: or_eq_0_iff)
qed simp

lemma Equal_iff [simp]: "Equal x y \<longleftrightarrow> x = y"
  by (auto simp: Equal_def ConstantTimeCompare_def differences_zero)

subsection \<open>SHA-256\<close>

type_synonym sha_state = "u32 list"

text \<open>The round constants, eight to a 256-bit number.\<close>

definition words_of_256 :: "nat \<Rightarrow> u32 list" where
  "words_of_256 n = map (\<lambda>i. word_of_nat (n div 2 ^ (32 * (7 - i)))) [0..<8]"

definition sha_K :: "u32 list" where
  "sha_K = concat (map words_of_256
    [0x428a2f9871374491b5c0fbcfe9b5dba53956c25b59f111f1923f82a4ab1c5ed5,
     0xd807aa9812835b01243185be550c7dc372be5d7480deb1fe9bdc06a7c19bf174,
     0xe49b69c1efbe47860fc19dc6240ca1cc2de92c6f4a7484aa5cb0a9dc76f988da,
     0x983e5152a831c66db00327c8bf597fc7c6e00bf3d5a7914706ca635114292967,
     0x27b70a852e1b21384d2c6dfc53380d13650a7354766a0abb81c2c92e92722c85,
     0xa2bfe8a1a81a664bc24b8b70c76c51a3d192e819d6990624f40e3585106aa070,
     0x19a4c1161e376c082748774c34b0bcb5391c0cb34ed8aa4a5b9cca4f682e6ff3,
     0x748f82ee78a5636f84c878148cc7020890befffaa4506cebbef9a3f7c67178f2])"

definition sha_init :: sha_state where
  "sha_init = [0x6a09e667, 0xbb67ae85, 0x3c6ef372, 0xa54ff53a, 0x510e527f, 0x9b05688c, 0x1f83d9ab,
    0x5be0cd19]"

definition sha_pad :: "nat list \<Rightarrow> nat list" where
  "sha_pad m =
    (let n = length m; z = (64 - (n + 9) mod 64) mod 64
     in m @ [0x80] @ replicate z 0 @ map (\<lambda>i. (n * 8) div 2 ^ (8 * (7 - i)) mod 256) [0..<8])"

fun be_words :: "nat list \<Rightarrow> u32 list" where
  "be_words (a # b # c # d # rest) =
    word_of_nat (a * 16777216 + b * 65536 + c * 256 + d) # be_words rest"
| "be_words _ = []"

definition sha_sigma0 :: "u32 \<Rightarrow> u32" where
  "sha_sigma0 w = word_rotr 7 w XOR word_rotr 18 w XOR drop_bit 3 w"

definition sha_sigma1 :: "u32 \<Rightarrow> u32" where
  "sha_sigma1 w = word_rotr 17 w XOR word_rotr 19 w XOR drop_bit 10 w"

text \<open>The message schedule, grown one word at a time.\<close>

fun sha_schedule :: "nat \<Rightarrow> u32 list \<Rightarrow> u32 list" where
  "sha_schedule 0 ws = ws"
| "sha_schedule (Suc n) ws =
    (let t = length ws
     in sha_schedule n
          (ws @ [sha_sigma1 (ws ! (t - 2)) + ws ! (t - 7) + sha_sigma0 (ws ! (t - 15)) + ws ! (t - 16)]))"

fun sha_round :: "sha_state \<Rightarrow> u32 \<times> u32 \<Rightarrow> sha_state" where
  "sha_round [a, b, c, d, e, f, g, h] (k, w) =
    (let t1 = h + (word_rotr 6 e XOR word_rotr 11 e XOR word_rotr 25 e)
              + ((e AND f) XOR (NOT e AND g)) + k + w;
         t2 = (word_rotr 2 a XOR word_rotr 13 a XOR word_rotr 22 a)
              + ((a AND b) XOR (a AND c) XOR (b AND c))
     in [t1 + t2, a, b, c, d + t1, e, f, g])"
| "sha_round st _ = st"

definition sha_block :: "sha_state \<Rightarrow> u32 list \<Rightarrow> sha_state" where
  "sha_block st ws =
    map2 (+) st (foldl sha_round st (zip sha_K (sha_schedule 48 ws)))"

fun sha_blocks :: "nat \<Rightarrow> sha_state \<Rightarrow> u32 list \<Rightarrow> sha_state" where
  "sha_blocks 0 st ws = st"
| "sha_blocks (Suc n) st ws = sha_blocks n (sha_block st (take 16 ws)) (drop 16 ws)"

definition sha_bytes :: "u32 \<Rightarrow> nat list" where
  "sha_bytes w = map (\<lambda>i. unat w div 2 ^ (8 * (3 - i)) mod 256) [0..<4]"

definition sha256 :: "nat list \<Rightarrow> nat list" where
  "sha256 m =
    (let p = sha_pad m in concat (map sha_bytes (sha_blocks (length p div 64) sha_init (be_words p))))"

definition sha256_hex :: "string \<Rightarrow> string" where
  "sha256_hex s = hex_bytes (sha256 (map byte s))"

subsection \<open>securejson\<close>

text \<open>\<open>jcs.Transform\<close> is the argument \<open>jcs\<close>. \<open>json.Marshal\<close> does not fail on these structs.\<close>

type_synonym jcs_transform = "string \<Rightarrow> string res"

definition MarshalCanonical :: "jcs_transform \<Rightarrow> json \<Rightarrow> string res" where
  "MarshalCanonical jcs v = jcs (json_text v)"

definition Hash :: "jcs_transform \<Rightarrow> json \<Rightarrow> string res" where
  "Hash jcs v =
    (case MarshalCanonical jcs v of Inl e \<Rightarrow> Inl e | Inr canonical \<Rightarrow> Inr (sha256_hex canonical))"

subsection \<open>DecodeStrict\<close>

text \<open>The decoder of \<open>encoding/json\<close> reads one value from what is left of the data: into the destination, whose type
  decides what fields are known, and into an empty struct, where only the end of the data is expected. Both
  readings are arguments.\<close>

definition io_EOF :: err where
  "io_EOF = External ''EOF''"

definition DecodeStrict :: "(bytes \<Rightarrow> 'a res \<times> bytes) \<Rightarrow> (bytes \<Rightarrow> unit res \<times> bytes) \<Rightarrow> bytes \<Rightarrow> 'a res" where
  "DecodeStrict destination trailer data =
    (case destination data of (Inl e, rest) \<Rightarrow> Inl e
     | (Inr v, rest) \<Rightarrow>
         if fst (trailer rest) \<noteq> Inl io_EOF then Inl (Plain ''JSON contains trailing data'') else Inr v)"

lemma DecodeStrict_Inr:
  "DecodeStrict destination trailer data = Inr v \<longleftrightarrow>
     (\<exists>rest. destination data = (Inr v, rest) \<and> fst (trailer rest) = Inl io_EOF)"
  by (auto simp: DecodeStrict_def split: prod.splits sum.splits)

end
