(* ===== verification/Integrity.thy ===== *)
theory Integrity
  imports Model Crypto_Util
begin

unbundle bit_operations_syntax

section \<open>File integrity: internal/integrity\<close>

text \<open>
  How a request's executable, interpreter and working directory are identified when it is submitted
  and verified before it runs, and how the verified descriptors are executed. The operating system is
  a record of the answers of its calls: opening a path gives a description that answers \<open>Fstat\<close>,
  reading it to the end, seeking, and reading its first 4096 bytes (which may differ from what was
  read before, when the file changed in between). The theorems hold for every such record.
\<close>

subsection \<open>What the operating system answers\<close>

record file_stat =
  fs_Mode :: u32
  fs_Dev :: u64
  fs_Ino :: u64
  fs_Size :: int
  fs_Uid :: u32
  fs_Mtim :: "int \<times> int"
  fs_Ctim :: "int \<times> int"

record open_file =
  of_Fstat :: "file_stat res"
  of_Copy :: "bytes res"
  of_Seek :: "unit res"
  of_Head :: bytes

text \<open>\<open>sys_open\<close> is \<open>open\<close> with \<open>O_RDONLY|O_CLOEXEC|O_NOFOLLOW|O_NONBLOCK\<close>, \<open>sys_open_follow\<close> is \<open>os.Open\<close>,
  \<open>sys_open_dir\<close> is \<open>open\<close> with \<open>O_PATH|O_DIRECTORY|O_CLOEXEC|O_NOFOLLOW\<close>.\<close>

record filesystem =
  sys_open :: "string \<Rightarrow> open_file res"
  sys_open_follow :: "string \<Rightarrow> open_file res"
  sys_open_dir :: "string \<Rightarrow> open_file res"
  sys_Stat :: "string \<Rightarrow> file_stat res"
  sys_EvalSymlinks :: "string \<Rightarrow> string res"

definition is_regular :: "u32 \<Rightarrow> bool" where
  "is_regular m \<longleftrightarrow> m AND 0xF000 = 0x8000"

definition is_directory :: "u32 \<Rightarrow> bool" where
  "is_directory m \<longleftrightarrow> m AND 0xF000 = 0x4000"

definition any_exec_bit :: "u32 \<Rightarrow> bool" where
  "any_exec_bit m \<longleftrightarrow> m AND 0x49 \<noteq> 0"

subsection \<open>Resolving\<close>

definition safePath :: string where
  "safePath = ''/usr/local/sbin:/usr/local/bin:/usr/sbin:/usr/bin:/sbin:/bin''"

definition maxSafeInteger :: u64 where
  "maxSafeInteger = 2 ^ 53 - 1"

fun search_path :: "filesystem \<Rightarrow> string \<Rightarrow> string list \<Rightarrow> string" where
  "search_path fs value [] = ''''"
| "search_path fs value (directory # rest) =
     (let path = Join2 directory value
      in case sys_Stat fs path of
           Inl _ \<Rightarrow> search_path fs value rest
         | Inr info \<Rightarrow> if is_regular (fs_Mode info) \<and> any_exec_bit (fs_Mode info) then path
                       else search_path fs value rest)"

definition ResolveExecutable :: "filesystem \<Rightarrow> string \<Rightarrow> string \<Rightarrow> string res" where
  "ResolveExecutable fs value cwd =
     (if value = '''' \<or> contains_byte value NUL then Inl (Plain ''executable is empty or invalid'')
      else let candidate =
             (if contains_byte value SLASH then (if \<not> IsAbs value then Join2 cwd value else value)
              else search_path fs value (split_on CHR '':'' safePath))
        in if candidate = '''' then Inl (Plain ''executable not found in safe PATH'')
           else case sys_EvalSymlinks fs candidate of
               Inl e \<Rightarrow> Inl e
             | Inr resolved \<Rightarrow> if \<not> IsAbs resolved then Inl (Plain ''resolved executable is not absolute'')
                               else Inr resolved)"

subsection \<open>Inspecting\<close>

definition timestamp :: "int \<times> int \<Rightarrow> string" where
  "timestamp v = int_dec (wrap64 (wrap64 (fst v * 1000000000) + snd v))"

definition inspectExecutableFile :: "open_file \<Rightarrow> string \<Rightarrow> int \<Rightarrow> file_metadata res" where
  "inspectExecutableFile file path maxBytes =
     res_bind (of_Fstat file) (\<lambda>stat.
       if \<not> is_regular (fs_Mode stat) \<or> \<not> any_exec_bit (fs_Mode stat)
       then Inl (Plain ''executable must be an executable regular file'')
       else if maxBytes > 0 \<and> fs_Size stat > maxBytes
       then Inl (Plain ''executable exceeds configured size limit'')
       else if fs_Dev stat > maxSafeInteger \<or> fs_Ino stat > maxSafeInteger \<or> fs_Size stat < 0
            \<or> fs_Size stat > uint maxSafeInteger
       then Inl (Plain ''executable metadata exceeds protocol integer range'')
       else res_bind (of_Copy file) (\<lambda>content. res_bind (of_Seek file) (\<lambda>_.
         Inr \<lparr>fm_Path = path, fm_Device = Some (fs_Dev stat), fm_Inode = Some (fs_Ino stat),
              fm_Size = Some (word_of_int (fs_Size stat)), fm_OwnerUID = Some (fs_Uid stat),
              fm_Mode = Some (fs_Mode stat), fm_MtimeNS = Some (timestamp (fs_Mtim stat)),
              fm_CtimeNS = Some (timestamp (fs_Ctim stat)), fm_SHA256 = sha256_hex content\<rparr>)))"

text \<open>\<open>reader.ReadString('\n')\<close> on the first 4096 bytes.\<close>

fun first_line :: "bytes \<Rightarrow> bytes" where
  "first_line [] = []"
| "first_line (c # s) = (if c = CHR 0x0A then [c] else c # first_line s)"

definition blank_or_tab :: "char \<Rightarrow> bool" where
  "blank_or_tab c \<longleftrightarrow> c = CHR '' '' \<or> c = CHR 0x09"

text \<open>The result is nothing for a file that is not a script, or the interpreter and its argument.\<close>

definition inspectShebang :: "open_file \<Rightarrow> (string \<times> string option) option res" where
  "inspectShebang file =
     res_bind (of_Seek file) (\<lambda>_.
       let line = first_line (take 4096 (of_Head file))
       in if \<not> has_prefix line ''#!'' then Inr None
          else let value = TrimSpace (trim_prefix line ''#!'')
            in if value = '''' then Inl (Plain ''script shebang must name an absolute interpreter'')
               else let path = takeWhile (\<lambda>c. \<not> blank_or_tab c) value;
                        remainder = TrimSpace (dropWhile (\<lambda>c. \<not> blank_or_tab c) value);
                        argument = (if remainder \<noteq> '''' then Some remainder else None)
                 in if \<not> IsAbs path then Inl (Plain ''script shebang must name an absolute interpreter'')
                    else Inr (Some (path, argument)))"

definition inspectExecutablePath :: "filesystem \<Rightarrow> string \<Rightarrow> int \<Rightarrow> (file_metadata \<times> bool) res" where
  "inspectExecutablePath fs path maxBytes =
     res_bind (sys_open fs path) (\<lambda>file.
     res_bind (inspectExecutableFile file path maxBytes) (\<lambda>metadata.
     res_bind (inspectShebang file) (\<lambda>script. Inr (metadata, script \<noteq> None))))"

definition InspectExecutableAndInterpreter ::
  "filesystem \<Rightarrow> string \<Rightarrow> int \<Rightarrow> (file_metadata \<times> file_metadata option \<times> string option) res" where
  "InspectExecutableAndInterpreter fs path maxBytes =
     res_bind (sys_open fs path) (\<lambda>file.
     res_bind (inspectExecutableFile file path maxBytes) (\<lambda>metadata.
     res_bind (inspectShebang file) (\<lambda>shebang.
       case shebang of None \<Rightarrow> Inr (metadata, None, None)
       | Some (interpreterPath, argument) \<Rightarrow>
           res_bind (sys_EvalSymlinks fs interpreterPath) (\<lambda>resolved.
           res_bind (inspectExecutablePath fs resolved maxBytes) (\<lambda>(interpreter, nestedScript).
             if nestedScript then Inl (Plain ''script interpreters are not supported'')
             else Inr (metadata, Some interpreter, argument))))))"

definition InspectExecutable :: "filesystem \<Rightarrow> string \<Rightarrow> file_metadata res" where
  "InspectExecutable fs path =
     res_bind (InspectExecutableAndInterpreter fs path 0) (\<lambda>(metadata, _, _). Inr metadata)"

definition InspectDirectory :: "filesystem \<Rightarrow> string \<Rightarrow> working_directory_metadata res" where
  "InspectDirectory fs path =
     res_bind (sys_EvalSymlinks fs path) (\<lambda>resolved.
       if \<not> IsAbs resolved then Inl (Plain ''working directory is not absolute'')
       else res_bind (sys_Stat fs resolved) (\<lambda>stat.
         if \<not> is_directory (fs_Mode stat) \<or> fs_Dev stat > maxSafeInteger \<or> fs_Ino stat > maxSafeInteger
         then Inl (Plain ''invalid working directory'')
         else Inr \<lparr>wd_Path = resolved, wd_Device = fs_Dev stat, wd_Inode = fs_Ino stat,
           wd_OwnerUID = fs_Uid stat, wd_Mode = fs_Mode stat, wd_MtimeNS = timestamp (fs_Mtim stat),
           wd_CtimeNS = timestamp (fs_Ctim stat)\<rparr>))"

definition InspectInterpreter :: "filesystem \<Rightarrow> string \<Rightarrow> file_metadata option res" where
  "InspectInterpreter fs executable =
     res_bind (sys_open_follow fs executable) (\<lambda>file.
     res_bind (inspectShebang file) (\<lambda>shebang.
       case shebang of None \<Rightarrow> Inr None
       | Some (path, _) \<Rightarrow>
           res_bind (sys_EvalSymlinks fs path) (\<lambda>resolved.
           res_bind (InspectExecutable fs resolved) (\<lambda>metadata. Inr (Some metadata)))))"

subsection \<open>Verifying\<close>

definition OpenVerifiedExecutable :: "filesystem \<Rightarrow> file_metadata \<Rightarrow> open_file res" where
  "OpenVerifiedExecutable fs expected =
     res_bind (sys_open fs (fm_Path expected)) (\<lambda>file.
     res_bind (inspectExecutableFile file (fm_Path expected) 0) (\<lambda>actual.
       if fm_Device expected = None \<or> fm_Inode expected = None \<or> fm_Size expected = None
          \<or> fm_OwnerUID expected = None \<or> fm_Mode expected = None \<or> fm_MtimeNS expected = None
          \<or> fm_CtimeNS expected = None
          \<or> fm_Device expected \<noteq> fm_Device actual \<or> fm_Inode expected \<noteq> fm_Inode actual
          \<or> fm_Size expected \<noteq> fm_Size actual \<or> fm_OwnerUID expected \<noteq> fm_OwnerUID actual
          \<or> fm_Mode expected \<noteq> fm_Mode actual \<or> fm_MtimeNS expected \<noteq> fm_MtimeNS actual
          \<or> fm_CtimeNS expected \<noteq> fm_CtimeNS actual \<or> fm_SHA256 expected \<noteq> fm_SHA256 actual
       then Inl (Plain ''executable integrity metadata changed'')
       else Inr file))"

definition VerifyExecutable :: "filesystem \<Rightarrow> file_metadata \<Rightarrow> unit res" where
  "VerifyExecutable fs expected = res_bind (OpenVerifiedExecutable fs expected) (\<lambda>_. Inr ())"

definition OpenVerifiedDirectory :: "filesystem \<Rightarrow> working_directory_metadata \<Rightarrow> open_file res" where
  "OpenVerifiedDirectory fs expected =
     res_bind (sys_open_dir fs (wd_Path expected)) (\<lambda>file.
     res_bind (of_Fstat file) (\<lambda>stat.
       let actual = \<lparr>wd_Path = wd_Path expected, wd_Device = fs_Dev stat, wd_Inode = fs_Ino stat,
           wd_OwnerUID = fs_Uid stat, wd_Mode = fs_Mode stat, wd_MtimeNS = timestamp (fs_Mtim stat),
           wd_CtimeNS = timestamp (fs_Ctim stat)\<rparr>
       in if actual \<noteq> expected then Inl (Plain ''working directory identity changed'') else Inr file))"

definition VerifyDirectory :: "filesystem \<Rightarrow> working_directory_metadata \<Rightarrow> unit res" where
  "VerifyDirectory fs expected = res_bind (OpenVerifiedDirectory fs expected) (\<lambda>_. Inr ())"

subsection \<open>Environment and risk\<close>

text \<open>Go collects the three entries in the random order of a map; here they are in the order of the
  source.\<close>

definition SanitizeEnvironment :: "(string \<times> string) list \<Rightarrow> string list \<Rightarrow> string list res" where
  "SanitizeEnvironment overrides allowed =
     (if allowed \<noteq> [] \<or> overrides \<noteq> [] then Inl (Plain ''environment overrides are not supported'')
      else Inr (map (\<lambda>(key, value). key @ ''='' @ value)
        [(''PATH'', safePath), (''HOME'', ''/root''), (''LANG'', ''C.UTF-8'')]))"

definition Risk :: "string \<Rightarrow> string list \<Rightarrow> bool \<Rightarrow> (string \<times> string) list \<Rightarrow> risk_metadata" where
  "Risk executable argv script env =
     (let base = Base executable;
          interpreter = (base \<in> {''bash'', ''sh'', ''zsh'', ''python'', ''python3'', ''node'', ''perl'', ''ruby''})
      in \<lparr>rk_Shell = (base = ''sh'' \<or> base = ''bash'' \<or> base = ''zsh''), rk_Interpreter = interpreter,
          rk_Script = script, rk_EnvironmentOverrides = (env \<noteq> []),
          rk_Warnings =
            (if interpreter then [''Interpreter may execute dynamic code''] else [])
            @ (if script then [''Script contents may reference mutable dependencies''] else [])
            @ (if env \<noteq> [] then [''Environment overrides change execution context''] else [])\<rparr>)"

subsection \<open>Executing the verified descriptors: exec_linux.go\<close>

definition ExecutableFD :: int where "ExecutableFD = 3"
definition DirectoryFD :: int where "DirectoryFD = 4"
definition InterpreterFD :: int where "InterpreterFD = 5"

text \<open>The arguments of the \<open>execve\<close> call a function makes, or the error it returns before that.\<close>

record exec_call =
  xc_Path :: string
  xc_Argv :: "string list"
  xc_Env :: "string list"

definition fd_path :: "int \<Rightarrow> string" where
  "fd_path fd = ''/proc/self/fd/'' @ int_dec fd"

definition ExecVerified :: "int \<Rightarrow> string list \<Rightarrow> string list \<Rightarrow> exec_call res" where
  "ExecVerified fd argv environment =
     (if fd < 3 \<or> argv = [] then Inl (Plain ''invalid verified execution descriptor'')
      else Inr \<lparr>xc_Path = fd_path fd, xc_Argv = argv, xc_Env = environment\<rparr>)"

definition ExecPinned ::
  "(int \<Rightarrow> unit res) \<Rightarrow> int \<Rightarrow> int \<Rightarrow> int \<Rightarrow> string \<Rightarrow> string list \<Rightarrow> string list \<Rightarrow> string \<Rightarrow> string option
    \<Rightarrow> exec_call res" where
  "ExecPinned fchdir executableFD directoryFD interpreterFD executablePath arguments environment
     interpreterPath interpreterArgument =
     (if executableFD < 3 \<or> directoryFD < 3 \<or> executablePath = ''''
      then Inl (Plain ''invalid pinned execution descriptors'')
      else res_bind (fchdir directoryFD) (\<lambda>_.
        if interpreterPath = '''' then ExecVerified executableFD (executablePath # arguments) environment
        else if interpreterFD < 3 then Inl (Plain ''missing verified interpreter descriptor'')
        else ExecVerified interpreterFD
          ([interpreterPath] @ (case interpreterArgument of None \<Rightarrow> [] | Some a \<Rightarrow> [a])
           @ [fd_path executableFD] @ arguments) environment))"

subsection \<open>Verification accepts exactly what was recorded\<close>

lemma res_bind_Inr: "res_bind r f = Inr x \<longleftrightarrow> (\<exists>y. r = Inr y \<and> f y = Inr x)"
  by (cases r) auto

lemma inspectExecutableFile_Inr:
  "inspectExecutableFile file path n = Inr m \<longleftrightarrow>
     (\<exists>stat content. of_Fstat file = Inr stat \<and> of_Copy file = Inr content \<and> of_Seek file = Inr ()
      \<and> is_regular (fs_Mode stat) \<and> any_exec_bit (fs_Mode stat) \<and> (n \<le> 0 \<or> fs_Size stat \<le> n)
      \<and> fs_Dev stat \<le> maxSafeInteger \<and> fs_Ino stat \<le> maxSafeInteger
      \<and> 0 \<le> fs_Size stat \<and> fs_Size stat \<le> uint maxSafeInteger
      \<and> m = \<lparr>fm_Path = path, fm_Device = Some (fs_Dev stat), fm_Inode = Some (fs_Ino stat),
              fm_Size = Some (word_of_int (fs_Size stat)), fm_OwnerUID = Some (fs_Uid stat),
              fm_Mode = Some (fs_Mode stat), fm_MtimeNS = Some (timestamp (fs_Mtim stat)),
              fm_CtimeNS = Some (timestamp (fs_Ctim stat)), fm_SHA256 = sha256_hex content\<rparr>)"
  by (cases "of_Fstat file"; cases "of_Copy file"; cases "of_Seek file")
    (auto simp: inspectExecutableFile_def not_less not_le)

lemma inspectExecutableFile_unlimited:
  "inspectExecutableFile file path n = Inr m \<Longrightarrow> inspectExecutableFile file path 0 = Inr m"
  by (auto simp: inspectExecutableFile_Inr)

lemma inspectExecutableFile_fields:
  "inspectExecutableFile file path n = Inr m \<Longrightarrow> fm_Path m = path \<and> fm_Device m \<noteq> None \<and> fm_Inode m \<noteq> None
     \<and> fm_Size m \<noteq> None \<and> fm_OwnerUID m \<noteq> None \<and> fm_Mode m \<noteq> None \<and> fm_MtimeNS m \<noteq> None \<and> fm_CtimeNS m \<noteq> None"
  by (auto simp: inspectExecutableFile_Inr)

lemma OpenVerified_iff:
  "OpenVerifiedExecutable fs m = Inr f \<longleftrightarrow>
     sys_open fs (fm_Path m) = Inr f \<and> inspectExecutableFile f (fm_Path m) 0 = Inr m"
proof
  assume "OpenVerifiedExecutable fs m = Inr f"
  then obtain fl actual where a: "sys_open fs (fm_Path m) = Inr fl" "inspectExecutableFile fl (fm_Path m) 0 = Inr actual"
    "(if fm_Device m = None \<or> fm_Inode m = None \<or> fm_Size m = None
          \<or> fm_OwnerUID m = None \<or> fm_Mode m = None \<or> fm_MtimeNS m = None
          \<or> fm_CtimeNS m = None
          \<or> fm_Device m \<noteq> fm_Device actual \<or> fm_Inode m \<noteq> fm_Inode actual
          \<or> fm_Size m \<noteq> fm_Size actual \<or> fm_OwnerUID m \<noteq> fm_OwnerUID actual
          \<or> fm_Mode m \<noteq> fm_Mode actual \<or> fm_MtimeNS m \<noteq> fm_MtimeNS actual
          \<or> fm_CtimeNS m \<noteq> fm_CtimeNS actual \<or> fm_SHA256 m \<noteq> fm_SHA256 actual
       then Inl (Plain ''executable integrity metadata changed'') else Inr fl) = Inr f"
    unfolding OpenVerifiedExecutable_def res_bind_Inr by blast
  have eq: "fl = f \<and> fm_Device actual = fm_Device m \<and> fm_Inode actual = fm_Inode m \<and> fm_Size actual = fm_Size m
      \<and> fm_OwnerUID actual = fm_OwnerUID m \<and> fm_Mode actual = fm_Mode m \<and> fm_MtimeNS actual = fm_MtimeNS m
      \<and> fm_CtimeNS actual = fm_CtimeNS m \<and> fm_SHA256 actual = fm_SHA256 m"
    using a(3) unfolding if_distrib [of "\<lambda>x. x = Inr f"] by (metis Inl_Inr_False Inr_inject)
  have "fm_Path actual = fm_Path m"
    using inspectExecutableFile_fields [OF a(2)] by simp
  with eq have "actual = m" by simp
  with a eq show "sys_open fs (fm_Path m) = Inr f \<and> inspectExecutableFile f (fm_Path m) 0 = Inr m" by simp
next
  assume f: "sys_open fs (fm_Path m) = Inr f \<and> inspectExecutableFile f (fm_Path m) 0 = Inr m"
  with inspectExecutableFile_fields [of f "fm_Path m" 0 m] show "OpenVerifiedExecutable fs m = Inr f"
    by (simp add: OpenVerifiedExecutable_def)
qed

text \<open>(C30) Verifying an executable succeeds exactly when the recorded path opens and inspecting the opened
  description again gives the recorded metadata in full: device, inode, size, owner, mode, both times
  and the SHA-256 of the content. What is returned is the description that was inspected, not another
  opening of the path.\<close>

theorem OpenVerifiedExecutable_exact:
  "OpenVerifiedExecutable fs m = Inr f \<longleftrightarrow>
     sys_open fs (fm_Path m) = Inr f
     \<and> (\<exists>stat content. of_Fstat f = Inr stat \<and> of_Copy f = Inr content \<and> of_Seek f = Inr ()
        \<and> is_regular (fs_Mode stat) \<and> any_exec_bit (fs_Mode stat)
        \<and> fs_Dev stat \<le> maxSafeInteger \<and> fs_Ino stat \<le> maxSafeInteger
        \<and> 0 \<le> fs_Size stat \<and> fs_Size stat \<le> uint maxSafeInteger
        \<and> m = \<lparr>fm_Path = fm_Path m, fm_Device = Some (fs_Dev stat), fm_Inode = Some (fs_Ino stat),
                fm_Size = Some (word_of_int (fs_Size stat)), fm_OwnerUID = Some (fs_Uid stat),
                fm_Mode = Some (fs_Mode stat), fm_MtimeNS = Some (timestamp (fs_Mtim stat)),
                fm_CtimeNS = Some (timestamp (fs_Ctim stat)), fm_SHA256 = sha256_hex content\<rparr>)"
  unfolding OpenVerified_iff inspectExecutableFile_Inr by auto

text \<open>A file that has not changed since it was inspected passes verification: on the same file system
  the executable opens verified, and for a script so does its recorded interpreter, which is then not
  itself a script.\<close>

lemma inspected_files_verify:
  assumes "InspectExecutableAndInterpreter fs path maxBytes = Inr (m, interpreter, argument)"
  shows "is_ok (OpenVerifiedExecutable fs m)
    \<and> (case interpreter of None \<Rightarrow> True
       | Some i \<Rightarrow> \<exists>f. OpenVerifiedExecutable fs i = Inr f \<and> inspectShebang f = Inr None)"
proof -
  obtain fl shebang where f: "sys_open fs path = Inr fl" "inspectExecutableFile fl path maxBytes = Inr m"
    and sb: "inspectShebang fl = Inr shebang"
    using assms by (auto simp: InspectExecutableAndInterpreter_def res_bind_Inr
        split: option.splits prod.splits if_splits)
  have path: "fm_Path m = path" using f(2) by (auto simp: inspectExecutableFile_Inr)
  have "OpenVerifiedExecutable fs m = Inr fl"
    unfolding OpenVerified_iff using f path inspectExecutableFile_unlimited by simp
  moreover have "\<exists>g. OpenVerifiedExecutable fs i = Inr g \<and> inspectShebang g = Inr None"
    if i_eq: "interpreter = Some i" for i
  proof -
    obtain resolved where i: "inspectExecutablePath fs resolved maxBytes = Inr (i, False)"
      using assms f sb i_eq
      by (auto simp: InspectExecutableAndInterpreter_def res_bind_Inr split: option.splits if_splits prod.splits)
    then obtain g where g: "sys_open fs resolved = Inr g" "inspectExecutableFile g resolved maxBytes = Inr i"
      "inspectShebang g = Inr None"
      by (auto simp: inspectExecutablePath_def res_bind_Inr) (metis not_None_eq surj_pair)
    have "fm_Path i = resolved" using g(2) by (auto simp: inspectExecutableFile_Inr)
    then have "OpenVerifiedExecutable fs i = Inr g"
      unfolding OpenVerified_iff using g inspectExecutableFile_unlimited by simp
    then show ?thesis using g(3) by blast
  qed
  ultimately show ?thesis by (auto split: option.splits)
qed

definition example_file :: "bytes \<Rightarrow> open_file" where
  "example_file content = \<lparr>of_Fstat = Inr \<lparr>fs_Mode = 0x81ED, fs_Dev = 1, fs_Ino = 2, fs_Size = int (length content),
     fs_Uid = 0, fs_Mtim = (5, 0), fs_Ctim = (6, 0)\<rparr>, of_Copy = Inr content, of_Seek = Inr (), of_Head = content\<rparr>"

definition example_fs :: filesystem where
  "example_fs = \<lparr>sys_open = (\<lambda>p. if p = ''/bin/sh'' then Inr (example_file ''ELF'')
        else if p = ''/bin/x'' then Inr (example_file [CHR ''#'', CHR ''!'', CHR ''/'', CHR ''b'', CHR ''i'', CHR ''n'', CHR ''/'', CHR ''s'', CHR ''h'', CHR 0x0A])
        else Inl (External ''ENOENT'')),
     sys_open_follow = (\<lambda>p. Inl (External ''ENOENT'')), sys_open_dir = (\<lambda>p. Inl (External ''ENOENT'')),
     sys_Stat = (\<lambda>p. Inl (External ''ENOENT'')), sys_EvalSymlinks = (\<lambda>p. Inr p)\<rparr>"

lemma example_file_inspects:
  "length content < 100 \<Longrightarrow> \<exists>m. inspectExecutableFile (example_file content) path n = Inr m \<or> 0 < n"
  by (auto simp: inspectExecutableFile_Inr example_file_def is_regular_def any_exec_bit_def maxSafeInteger_def)

lemma example_inspects:
  "\<exists>m. InspectExecutableAndInterpreter example_fs ''/bin/sh'' 0 = Inr (m, None, None)"
proof -
  obtain m where "inspectExecutableFile (example_file ''ELF'') ''/bin/sh'' 0 = Inr m"
    using example_file_inspects [of "''ELF''" "''/bin/sh''" 0] by auto
  moreover have "inspectShebang (example_file ''ELF'') = Inr None"
    by (simp add: inspectShebang_def example_file_def has_prefix_def)
  ultimately show ?thesis
    by (simp add: InspectExecutableAndInterpreter_def example_fs_def)
qed

text \<open>Verifying a working directory succeeds exactly when the recorded path opens as a directory
  without following a link and its status has the recorded device, inode, owner, mode and times.\<close>

lemma OpenVerifiedDirectory_exact:
  "OpenVerifiedDirectory fs w = Inr f \<longleftrightarrow>
     sys_open_dir fs (wd_Path w) = Inr f
     \<and> (\<exists>stat. of_Fstat f = Inr stat
        \<and> wd_Device w = fs_Dev stat \<and> wd_Inode w = fs_Ino stat \<and> wd_OwnerUID w = fs_Uid stat
        \<and> wd_Mode w = fs_Mode stat \<and> wd_MtimeNS w = timestamp (fs_Mtim stat)
        \<and> wd_CtimeNS w = timestamp (fs_Ctim stat))"
  by (cases w) (auto simp: OpenVerifiedDirectory_def res_bind_Inr Let_def split: if_splits)

subsection \<open>Times as decimal text\<close>

lemma digit_inject: "m < 10 \<Longrightarrow> n < 10 \<Longrightarrow> digit m = digit n \<Longrightarrow> m = n"
  by (simp add: digit_def)

lemma nat_dec_not_Nil [simp]: "nat_dec n \<noteq> []"
  by (subst nat_dec.simps) simp

lemma nat_dec_inject: "nat_dec m = nat_dec n \<Longrightarrow> m = n"
proof (induction m arbitrary: n rule: less_induct)
  case (less m)
  show ?case
  proof (cases "m < 10 \<or> n < 10")
    case True
    then show ?thesis
      using less.prems nat_dec.simps [of m] nat_dec.simps [of n]
      by (auto simp: append_eq_Cons_conv Cons_eq_append_conv digit_inject split: if_splits)
  next
    case False
    then have "nat_dec (m div 10) = nat_dec (n div 10)" "digit (m mod 10) = digit (n mod 10)"
      using less.prems nat_dec.simps [of m] nat_dec.simps [of n] by (auto split: if_splits)
    moreover have "m div 10 < m" using False by simp
    ultimately have "m div 10 = n div 10" "m mod 10 = n mod 10"
      using less.IH by (auto intro: digit_inject)
    then show ?thesis by (metis div_mult_mod_eq)
  qed
qed

lemma nat_dec_digits: "set (nat_dec n) \<subseteq> digit ` {..<10}"
proof (induction n rule: nat_dec.induct)
  case (1 n)
  then show ?case by (subst nat_dec.simps) (auto simp: image_iff)
qed

lemma minus_not_digit: "CHR ''-'' \<notin> digit ` {..<10}"
proof
  assume "CHR ''-'' \<in> digit ` {..<10}"
  then obtain n where "n < 10" "CHR ''-'' = digit n" by auto
  then have "byte (CHR ''-'') = 0x30 + n" by (simp add: digit_def byte_def)
  then show False by (simp add: byte_def)
qed

lemma int_dec_inject: "int_dec i = int_dec j \<longleftrightarrow> i = j"
proof
  have neq: "CHR ''-'' # xs \<noteq> nat_dec n" for xs n
  proof
    assume "CHR ''-'' # xs = nat_dec n"
    then have "CHR ''-'' \<in> set (nat_dec n)" by (metis list.set_intros(1))
    then show False using nat_dec_digits minus_not_digit by blast
  qed
  assume "int_dec i = int_dec j"
  then show "i = j"
    using neq neq [symmetric] nat_dec_inject [of "nat (- i)" "nat (- j)"] nat_dec_inject [of "nat i" "nat j"]
    by (auto simp: int_dec_def split: if_splits)
qed simp

text \<open>The recorded time text identifies the time: two time stamps between the years 1677 and 2262 have
  the same text exactly when their seconds and nanoseconds are equal, so a changed modification or
  change time is never missed.\<close>

lemma timestamp_inject:
  assumes "\<bar>s\<bar> \<le> 9223372035" and "\<bar>s'\<bar> \<le> 9223372035" and "0 \<le> n" "n < 10 ^ 9" and "0 \<le> n'" "n' < 10 ^ 9"
  shows "timestamp (s, n) = timestamp (s', n') \<longleftrightarrow> s = s' \<and> n = n'"
proof -
  have in_range: "wrap64 (wrap64 (a * 1000000000) + b) = a * 1000000000 + b"
    if "\<bar>a\<bar> \<le> 9223372035" "0 \<le> b" "b < 10 ^ 9" for a b :: int
  proof -
    have "wrap64 (a * 1000000000) = a * 1000000000"
      using that by (intro wrap64_id) (auto simp: int64_range_def)
    moreover have "wrap64 (a * 1000000000 + b) = a * 1000000000 + b"
      using that by (intro wrap64_id) (auto simp: int64_range_def)
    ultimately show ?thesis by simp
  qed
  have "timestamp (s, n) = timestamp (s', n') \<longleftrightarrow> s * 1000000000 + n = s' * 1000000000 + n'"
    using assms in_range by (simp add: timestamp_def int_dec_inject)
  also have "\<dots> \<longleftrightarrow> s = s' \<and> n = n'"
    using assms by (cases s s' rule: linorder_cases) auto
  finally show ?thesis .
qed

subsection \<open>What runs\<close>

text \<open>Execution uses descriptors only: the helper changes into the pinned directory and executes
  \<open>/proc/self/fd/n\<close> for the descriptor of the executable or, for a script, of the interpreter with the
  script given as its descriptor path; the environment is passed on and the request's arguments come
  last, unchanged.\<close>

lemma ExecPinned_uses_descriptors:
  assumes "ExecPinned fchdir efd dfd ifd path arguments environment interpreter argument = Inr call"
  shows "fchdir dfd = Inr () \<and> 3 \<le> efd \<and> 3 \<le> dfd \<and> xc_Env call = environment
    \<and> (if interpreter = '''' then xc_Path call = fd_path efd \<and> xc_Argv call = path # arguments
       else 3 \<le> ifd \<and> xc_Path call = fd_path ifd
         \<and> (\<exists>options. xc_Argv call = interpreter # options @ fd_path efd # arguments
             \<and> options = (case argument of None \<Rightarrow> [] | Some a \<Rightarrow> [a])))"
proof -
  have fds: "3 \<le> efd" "3 \<le> dfd" "path \<noteq> ''''" and dir: "fchdir dfd = Inr ()"
    using assms by (auto simp: ExecPinned_def res_bind_Inr split: if_splits)
  show ?thesis
  proof (cases "interpreter = ''''")
    case True
    then have "ExecVerified efd (path # arguments) environment = Inr call"
      using assms fds dir by (simp add: ExecPinned_def)
    with True fds dir show ?thesis by (auto simp: ExecVerified_def)
  next
    case False
    let ?argv = "[interpreter] @ (case argument of None \<Rightarrow> [] | Some a \<Rightarrow> [a]) @ [fd_path efd] @ arguments"
    have ifd: "3 \<le> ifd" using assms fds dir False by (simp add: ExecPinned_def split: if_splits)
    then have "ExecVerified ifd ?argv environment = Inr call"
      using assms fds dir False by (simp add: ExecPinned_def)
    then have "call = \<lparr>xc_Path = fd_path ifd, xc_Argv = ?argv, xc_Env = environment\<rparr>"
      using ifd by (simp add: ExecVerified_def)
    with False fds dir ifd show ?thesis by simp
  qed
qed

text \<open>The environment of a command never depends on the request: any override, and any configured
  pass-through, is refused, and otherwise the result is the same three variables.\<close>

lemma SanitizeEnvironment_fixed:
  "SanitizeEnvironment overrides allowed = Inr env \<longleftrightarrow>
     overrides = [] \<and> allowed = [] \<and> env = [''PATH='' @ safePath, ''HOME=/root'', ''LANG=C.UTF-8'']"
  by (auto simp: SanitizeEnvironment_def)

end
