(* ===== verification/Go_Time.thy ===== *)
theory Go_Time
  imports Go_Std
begin

section \<open>Instants as text: time.RFC3339Nano\<close>

text \<open>
  The program stores every instant as the text \<open>t.UTC().Format(time.RFC3339Nano)\<close> and reads
  expiry and creation times back with \<open>time.Parse\<close>. An instant is a number of nanoseconds since
  the Unix epoch; what the daemon's clock returns is not before the epoch. Parsing follows the
  strict RFC 3339 reader of the library (the library also tolerates a few near misses, such as
  a comma before the fraction, in text the program never writes).
\<close>

subsection \<open>The calendar\<close>

definition leap :: "nat \<Rightarrow> bool" where
  "leap y \<longleftrightarrow> (4 dvd y \<and> \<not> 100 dvd y) \<or> 400 dvd y"

definition year_len :: "nat \<Rightarrow> nat" where
  "year_len y = (if leap y then 366 else 365)"

definition month_len :: "nat \<Rightarrow> nat \<Rightarrow> nat" where
  "month_len y m =
    (if m = 2 then (if leap y then 29 else 28) else if m \<in> {4, 6, 9, 11} then 30 else 31)"

text \<open>The year and the day of the year that lie \<open>d\<close> days after the start of year \<open>y\<close>.\<close>

function civil_year :: "nat \<Rightarrow> nat \<Rightarrow> nat \<times> nat" where
  "civil_year y d = (if d < year_len y then (y, d) else civil_year (Suc y) (d - year_len y))"
  by pat_completeness auto
termination
  by (relation "measure snd") (auto simp: year_len_def)

declare civil_year.simps [simp del]

function civil_month :: "nat \<Rightarrow> nat \<Rightarrow> nat \<Rightarrow> nat \<times> nat" where
  "civil_month y m d =
    (if 12 \<le> m \<or> d < month_len y m then (m, Suc d) else civil_month y (Suc m) (d - month_len y m))"
  by pat_completeness auto
termination
  by (relation "measure (\<lambda>(y, m, d). 12 - m)") auto

declare civil_month.simps [simp del]

text \<open>Days from the epoch to the start of a year (leap days counted in closed form), and from the
  start of a year to the start of a month.\<close>

definition days_to_year :: "nat \<Rightarrow> int" where
  "days_to_year y =
    365 * (int y - 1970) + (int y - 1) div 4 - (int y - 1) div 100 + (int y - 1) div 400 - 477"

definition days_to_month :: "nat \<Rightarrow> nat \<Rightarrow> nat" where
  "days_to_month y m = sum_list (map (month_len y) [1..<m])"

subsection \<open>Format\<close>

definition dec2 :: "nat \<Rightarrow> string" where
  "dec2 n = [digit (n div 10 mod 10), digit (n mod 10)]"

definition dec4 :: "nat \<Rightarrow> string" where
  "dec4 n = (if n < 10000 then dec2 (n div 100) @ dec2 (n mod 100) else nat_dec n)"

text \<open>The low \<open>k\<close> decimal digits.\<close>

fun low_digits :: "nat \<Rightarrow> nat \<Rightarrow> string" where
  "low_digits 0 n = []"
| "low_digits (Suc k) n = low_digits k (n div 10) @ [digit (n mod 10)]"

definition strip_zeros :: "string \<Rightarrow> string" where
  "strip_zeros s = rev (dropWhile (\<lambda>c. c = CHR ''0'') (rev s))"

definition frac_text :: "nat \<Rightarrow> string" where
  "frac_text ns = (if ns = 0 then '''' else ''.'' @ strip_zeros (low_digits 9 ns))"

definition clock_text :: "nat \<Rightarrow> string" where
  "clock_text sod = dec2 (sod div 3600) @ '':'' @ dec2 (sod div 60 mod 60) @ '':'' @ dec2 (sod mod 60)"

definition date_text :: "nat \<Rightarrow> string" where
  "date_text days =
    (case civil_year 1970 days of (y, yd) \<Rightarrow>
       case civil_month y 1 yd of (m, d) \<Rightarrow> dec4 y @ ''-'' @ dec2 m @ ''-'' @ dec2 d)"

definition fmt_time :: "nat \<Rightarrow> string" where
  "fmt_time t =
    (let secs = t div 1000000000 in
     date_text (secs div 86400) @ ''T'' @ clock_text (secs mod 86400) @ frac_text (t mod 1000000000)
     @ ''Z'')"

subsection \<open>Parse\<close>

definition digit_val :: "char \<Rightarrow> nat option" where
  "digit_val c = (if 0x30 \<le> byte c \<and> byte c \<le> 0x39 then Some (byte c - 0x30) else None)"

fun digits_val :: "nat \<Rightarrow> string \<Rightarrow> nat option" where
  "digits_val acc [] = Some acc"
| "digits_val acc (c # cs) =
    (case digit_val c of None \<Rightarrow> None | Some d \<Rightarrow> digits_val (10 * acc + d) cs)"

definition parse_field :: "string \<Rightarrow> nat \<Rightarrow> nat \<Rightarrow> nat option" where
  "parse_field s lo hi =
    (case digits_val 0 s of Some v \<Rightarrow> if lo \<le> v \<and> v \<le> hi then Some v else None | None \<Rightarrow> None)"

definition is_digit :: "char \<Rightarrow> bool" where
  "is_digit c \<longleftrightarrow> 0x30 \<le> byte c \<and> byte c \<le> 0x39"

text \<open>The fraction after the seconds: its value in nanoseconds and the text after it.\<close>

definition parse_frac :: "string \<Rightarrow> nat \<times> string" where
  "parse_frac s =
    (if 2 \<le> length s \<and> hd s = CHR ''.'' \<and> is_digit (s ! 1)
     then let ds = takeWhile is_digit (tl s); used = take 9 ds
          in (the (digits_val 0 used) * 10 ^ (9 - length used), dropWhile is_digit (tl s))
     else (0, s))"

text \<open>\<open>Z\<close>, or a signed offset in hours and minutes: seconds east of UTC.\<close>

definition parse_zone :: "string \<Rightarrow> int option" where
  "parse_zone s =
    (if s = ''Z'' then Some 0
     else if length s = 6 \<and> (hd s = CHR ''+'' \<or> hd s = CHR ''-'') \<and> s ! 3 = CHR '':''
     then (case (parse_field (take 2 (drop 1 s)) 0 23, parse_field (drop 4 s) 0 59) of
             (Some hh, Some mm) \<Rightarrow>
               Some ((if hd s = CHR ''-'' then -1 else 1) * int (hh * 3600 + mm * 60))
           | _ \<Rightarrow> None)
     else None)"

definition days_of :: "nat \<Rightarrow> nat \<Rightarrow> nat \<Rightarrow> int" where
  "days_of y m d = days_to_year y + int (days_to_month y m) + int d - 1"

definition parse_time :: "string \<Rightarrow> int option" where
  "parse_time s =
    (if length s < 19 then None
     else case (parse_field (take 4 s) 0 9999, parse_field (take 2 (drop 5 s)) 1 12) of
       (Some y, Some m) \<Rightarrow>
         (case (parse_field (take 2 (drop 8 s)) 1 (month_len y m),
                parse_field (take 2 (drop 11 s)) 0 23, parse_field (take 2 (drop 14 s)) 0 59,
                parse_field (take 2 (drop 17 s)) 0 59) of
            (Some d, Some hh, Some mm, Some ss) \<Rightarrow>
              if s ! 4 = CHR ''-'' \<and> s ! 7 = CHR ''-'' \<and> s ! 10 = CHR ''T'' \<and> s ! 13 = CHR '':''
                 \<and> s ! 16 = CHR '':''
              then (case parse_frac (drop 19 s) of (ns, rest) \<Rightarrow>
                      map_option (\<lambda>off. (days_of y m d * 86400 + int (hh * 3600 + mm * 60 + ss) - off)
                                   * 1000000000 + int ns) (parse_zone rest))
              else None
          | _ \<Rightarrow> None)
     | _ \<Rightarrow> None)"

subsection \<open>The calendar inverts\<close>

lemma div_step: "0 < k \<Longrightarrow> (x :: int) div k - (x - 1) div k = (if k dvd x then 1 else 0)"
proof -
  assume k: "0 < k"
  have "(x - 1) div k = x div k - 1" if dv: "k dvd x"
  proof -
    obtain q where q: "x = k * q" using dv by (rule dvdE)
    have "(k * q - 1) div k = ((k - 1) + k * (q - 1)) div k" by (simp add: algebra_simps)
    also have "\<dots> = q - 1" using k by (simp add: div_mult_self2)
    finally show ?thesis using q k by simp
  qed
  moreover have "(x - 1) div k = x div k" if "\<not> k dvd x"
  proof -
    have "0 \<le> x mod k" "x mod k \<noteq> 0" using that k by (simp_all add: dvd_eq_mod_eq_0)
    then have m: "1 \<le> x mod k" by linarith
    have z: "(x mod k - 1) div k = 0"
      using m pos_mod_bound [OF k, of x] by (simp add: div_pos_pos_trivial)
    have "x - 1 = (x mod k - 1) + k * (x div k)" by simp
    also have "\<dots> div k = x div k"
      using z k by (simp only: div_mult_self2)
    finally show ?thesis .
  qed
  ultimately show ?thesis by auto
qed

lemma leap_days:
  "(if 4 dvd y then 1 else 0) - (if 100 dvd y then 1 else 0) + (if 400 dvd y then 1 else 0)
    = (if leap y then 1 else (0 :: int))"
proof -
  have "100 dvd y \<Longrightarrow> 4 dvd y" "400 dvd y \<Longrightarrow> 100 dvd y"
    using dvd_trans [of 4 100 y] dvd_trans [of 100 400 y] by simp_all
  then show ?thesis by (simp add: leap_def)
qed

lemma div_step_nat:
  "0 < k \<Longrightarrow> int y div int k = (int y - 1) div int k + (if k dvd y then 1 else 0)"
  using div_step [of "int k" "int y"] by (simp add: int_dvd_int_iff)

lemma days_to_year_Suc: "days_to_year (Suc y) = days_to_year y + int (year_len y)"
proof -
  have "int (year_len y) = 365 + (if leap y then 1 else 0)" by (simp add: year_len_def)
  moreover have "days_to_year (Suc y) = days_to_year y + 365
      + ((if 4 dvd y then 1 else 0) - (if 100 dvd y then 1 else 0) + (if 400 dvd y then 1 else 0))"
    using div_step_nat [of 4 y] div_step_nat [of 100 y] div_step_nat [of 400 y]
    unfolding days_to_year_def by simp
  ultimately show ?thesis by (simp only: leap_days)
qed

lemma civil_year_days:
  "civil_year y d = (y', d') \<Longrightarrow>
    days_to_year y' + int d' = days_to_year y + int d \<and> d' < year_len y' \<and> y \<le> y'"
proof (induction y d rule: civil_year.induct)
  case (1 y d)
  show ?case
  proof (cases "d < year_len y")
    case True
    with 1 show ?thesis by (simp add: civil_year.simps)
  next
    case False
    with 1 have "civil_year (Suc y) (d - year_len y) = (y', d')" by (simp add: civil_year.simps [of y d])
    with 1 False days_to_year_Suc [of y] show ?thesis by auto
  qed
qed

lemma days_to_month_Suc: "1 \<le> m \<Longrightarrow> days_to_month y (Suc m) = days_to_month y m + month_len y m"
  by (simp add: days_to_month_def)

lemma days_to_month_13: "days_to_month y 13 = year_len y"
  by (simp add: days_to_month_def month_len_def year_len_def upt_rec [of 1] numeral_eq_Suc upt_rec)

lemma civil_month_days:
  "civil_month y m d = (m', d') \<Longrightarrow> 1 \<le> m \<Longrightarrow> m \<le> 12 \<Longrightarrow> days_to_month y m + d < year_len y \<Longrightarrow>
    days_to_month y m' + d' = Suc (days_to_month y m + d) \<and> 1 \<le> m' \<and> m' \<le> 12
    \<and> 1 \<le> d' \<and> d' \<le> month_len y m'"
proof (induction y m d rule: civil_month.induct)
  case (1 y m d)
  show ?case
  proof (cases "12 \<le> m \<or> d < month_len y m")
    case True
    have "d < month_len y m"
    proof (cases "m = 12")
      case True
      then have "days_to_month y 12 + d < days_to_month y 12 + month_len y 12"
        using "1.prems" days_to_month_13 [of y] days_to_month_Suc [of 12 y] by simp
      with True show ?thesis by simp
    qed (use True "1.prems" in auto)
    with True 1 show ?thesis by (auto simp: civil_month.simps [of y m d])
  next
    case False
    then have "civil_month y (Suc m) (d - month_len y m) = (m', d')"
      using "1.prems" by (simp add: civil_month.simps [of y m d])
    moreover have "days_to_month y (Suc m) + (d - month_len y m) = days_to_month y m + d"
      using False "1.prems" days_to_month_Suc [of m y] by simp
    ultimately show ?thesis using "1.IH" False "1.prems" by simp
  qed
qed

lemma days_to_year_mono: "y \<le> y' \<Longrightarrow> days_to_year y \<le> days_to_year y'"
  by (induction rule: dec_induct) (auto simp: days_to_year_Suc)

lemma days_to_year_1970: "days_to_year 1970 = 0"
  by (simp add: days_to_year_def)

lemma days_to_year_10000: "days_to_year 10000 = 2932897"
  by (simp add: days_to_year_def)

subsection \<open>Digits invert\<close>

lemma digit_val_digit [simp]: "d < 10 \<Longrightarrow> digit_val (digit d) = Some d"
  by (simp add: digit_val_def digit_def byte_def)

lemma is_digit_digit [simp]: "d < 10 \<Longrightarrow> is_digit (digit d)"
  by (simp add: is_digit_def digit_def byte_def)

lemma digits_val_append:
  "digits_val acc (s @ t) = (case digits_val acc s of None \<Rightarrow> None | Some v \<Rightarrow> digits_val v t)"
  by (induction s arbitrary: acc) (auto split: option.splits)

lemma digits_val_dec2: "n < 100 \<Longrightarrow> digits_val acc (dec2 n) = Some (100 * acc + n)"
  by (simp add: dec2_def)

lemma digits_val_dec4: "n < 10000 \<Longrightarrow> digits_val 0 (dec4 n) = Some n"
  by (simp add: dec4_def digits_val_append digits_val_dec2)

lemma length_dec2 [simp]: "length (dec2 n) = 2"
  by (simp add: dec2_def)

lemma length_dec4: "n < 10000 \<Longrightarrow> length (dec4 n) = 4"
  by (simp add: dec4_def)

lemma length_low_digits [simp]: "length (low_digits k n) = k"
  by (induction k arbitrary: n) auto

lemma digits_val_low_digits:
  "n < 10 ^ k \<Longrightarrow> digits_val acc (low_digits k n) = Some (acc * 10 ^ k + n)"
proof (induction k arbitrary: n)
  case (Suc k)
  have "n div 10 < 10 ^ k" using Suc.prems by (simp add: div_less_iff_less_mult mult.commute)
  then show ?case using Suc.IH [of "n div 10"] by (simp add: digits_val_append algebra_simps)
qed simp

lemma low_digits_are_digits: "\<forall>c \<in> set (low_digits k n). is_digit c"
  by (induction k arbitrary: n) auto

lemma strip_zeros_split:
  "\<exists>k. s = strip_zeros s @ replicate k (CHR ''0'')"
proof -
  let ?p = "\<lambda>c. c = CHR ''0''"
  have "takeWhile ?p (rev s) = replicate (length (takeWhile ?p (rev s))) (CHR ''0'')"
    by (rule sym, rule replicate_length_same) (auto dest: set_takeWhileD)
  then have "rev (takeWhile ?p (rev s)) = rev (replicate (length (takeWhile ?p (rev s))) (CHR ''0''))"
    by (rule arg_cong)
  then have "rev (takeWhile ?p (rev s)) = replicate (length (takeWhile ?p (rev s))) (CHR ''0'')"
    by simp
  moreover have "s = rev (dropWhile ?p (rev s)) @ rev (takeWhile ?p (rev s))"
    by (simp flip: rev_append)
  ultimately show ?thesis unfolding strip_zeros_def by (rule_tac exI) (erule trans, simp)
qed

lemma digits_val_zeros: "digits_val acc (replicate k (CHR ''0'')) = Some (acc * 10 ^ k)"
  by (induction k arbitrary: acc) (simp_all add: digit_val_def byte_def)

text \<open>The stripped fraction still has its value once the missing zeros are counted.\<close>

lemma strip_zeros_value:
  assumes "0 < n" "n < 10 ^ 9"
  shows "\<exists>v. digits_val 0 (strip_zeros (low_digits 9 n)) = Some v
    \<and> v * 10 ^ (9 - length (strip_zeros (low_digits 9 n))) = n
    \<and> strip_zeros (low_digits 9 n) \<noteq> [] \<and> length (strip_zeros (low_digits 9 n)) \<le> 9"
proof -
  let ?s = "strip_zeros (low_digits 9 n)"
  obtain k where k: "low_digits 9 n = ?s @ replicate k (CHR ''0'')"
    using strip_zeros_split by blast
  have len: "length ?s + k = 9"
    using arg_cong [OF k, of length] by simp
  have "digits_val 0 (low_digits 9 n) = Some n"
    using digits_val_low_digits [of n 9 0] assms by simp
  then have "digits_val 0 (?s @ replicate k (CHR ''0'')) = Some n"
    by (simp only: flip: k)
  then obtain v where v: "digits_val 0 ?s = Some v" "v * 10 ^ k = n"
    by (auto simp: digits_val_append digits_val_zeros split: option.splits)
  moreover have "?s \<noteq> []" using v assms by auto
  moreover have "k = 9 - length ?s" using len by simp
  ultimately show ?thesis using len by auto
qed

subsection \<open>Parsing what was formatted\<close>

lemma parse_field_dec2: "lo \<le> n \<Longrightarrow> n \<le> hi \<Longrightarrow> n < 100 \<Longrightarrow> parse_field (dec2 n) lo hi = Some n"
  by (simp add: parse_field_def digits_val_dec2)

lemma parse_field_dec4: "n < 10000 \<Longrightarrow> parse_field (dec4 n) 0 9999 = Some n"
  by (simp add: parse_field_def digits_val_dec4)

lemma strip_zeros_digits: "\<forall>c \<in> set (strip_zeros (low_digits k n)). is_digit c"
  using low_digits_are_digits [of k n] by (auto simp: strip_zeros_def dest: set_dropWhileD)

lemma not_digit_Z: "\<not> is_digit (CHR ''Z'')"
  by (simp add: is_digit_def byte_def)

lemma parse_frac_text:
  assumes "n < 10 ^ 9"
  shows "parse_frac (frac_text n @ ''Z'') = (n, ''Z'')"
proof (cases "n = 0")
  case True
  then show ?thesis by (simp add: frac_text_def parse_frac_def)
next
  case False
  let ?s = "strip_zeros (low_digits 9 n)"
  obtain v where v: "digits_val 0 ?s = Some v" "v * 10 ^ (9 - length ?s) = n" "?s \<noteq> []" "length ?s \<le> 9"
    using strip_zeros_value [of n] False assms by auto
  have ds: "takeWhile is_digit (?s @ ''Z'') = ?s" "dropWhile is_digit (?s @ ''Z'') = ''Z''"
    using strip_zeros_digits [of 9 n] not_digit_Z by (simp_all add: takeWhile_append dropWhile_append)
  have "is_digit ((?s @ ''Z'') ! 0)"
    using v(3) strip_zeros_digits [of 9 n] by (cases ?s) auto
  then show ?thesis
    using False v ds by (simp add: frac_text_def parse_frac_def Let_def)
qed

lemma date_text_shape:
  assumes "days < 2932897"
  obtains y m d where "date_text days = dec4 y @ ''-'' @ dec2 m @ ''-'' @ dec2 d"
    "y < 10000" "1 \<le> m" "m \<le> 12" "1 \<le> d" "d \<le> month_len y m" "days_of y m d = int days"
proof -
  obtain y yd where y: "civil_year 1970 days = (y, yd)" by (metis surj_pair)
  obtain m d where m: "civil_month y 1 yd = (m, d)" by (metis surj_pair)
  note cy = civil_year_days [OF y]
  have "days_to_month y 1 = 0" by (simp add: days_to_month_def)
  then have cm: "days_to_month y m + d = Suc yd \<and> 1 \<le> m \<and> m \<le> 12 \<and> 1 \<le> d \<and> d \<le> month_len y m"
    using civil_month_days [OF m] cy by simp
  have "days_of y m d = int days"
    using cy cm days_to_year_1970 by (simp add: days_of_def)
  moreover have "y < 10000"
  proof (rule ccontr)
    assume "\<not> y < 10000"
    then have "days_to_year 10000 \<le> days_to_year y" by (intro days_to_year_mono) simp
    then show False using cy assms days_to_year_1970 days_to_year_10000 by simp
  qed
  moreover have "date_text days = dec4 y @ ''-'' @ dec2 m @ ''-'' @ dec2 d"
    by (simp add: date_text_def y m del: One_nat_def)
  ultimately show ?thesis using that cm by blast
qed

lemma month_len_le: "month_len y m \<le> 31"
  by (simp add: month_len_def)

lemma parse_time_fields:
  assumes "y < 10000" "1 \<le> m" "m \<le> 12" "1 \<le> d" "d \<le> month_len y m" "hh < 24" "mm < 60" "ss < 60"
    and "n < 10 ^ 9"
  shows "parse_time ((dec4 y @ ''-'' @ dec2 m @ ''-'' @ dec2 d) @ ''T''
      @ (dec2 hh @ '':'' @ dec2 mm @ '':'' @ dec2 ss) @ frac_text n @ ''Z'')
    = Some ((days_of y m d * 86400 + int (hh * 3600 + mm * 60 + ss)) * 1000000000 + int n)"
proof -
  have "d < 100" using assms month_len_le [of y m] by linarith
  then show ?thesis
    using assms parse_frac_text [of n]
    by (simp add: parse_time_def length_dec4 parse_field_dec4 parse_field_dec2 nth_append
        parse_zone_def)
qed

text \<open>Reading back the text of an instant gives the instant, to the nanosecond, for every instant
  from 1970 up to the year 10000: no stored creation or expiry time is ever unreadable or shifted.\<close>

lemma parse_fmt_time:
  assumes "t < 253402300800 * 10 ^ 9"
  shows "parse_time (fmt_time t) = Some (int t)"
proof -
  define secs where "secs = t div 1000000000"
  define sod where "sod = secs mod 86400"
  have "secs div 86400 < 2932897"
    using assms by (simp add: secs_def div_less_iff_less_mult)
  then obtain y m d where d: "date_text (secs div 86400) = dec4 y @ ''-'' @ dec2 m @ ''-'' @ dec2 d"
    "y < 10000" "1 \<le> m" "m \<le> 12" "1 \<le> d" "d \<le> month_len y m" "days_of y m d = int (secs div 86400)"
    by (rule date_text_shape)
  have sod: "sod < 86400" by (simp add: sod_def)
  have hms: "sod div 3600 * 3600 + sod div 60 mod 60 * 60 + sod mod 60 = sod"
  proof -
    have "sod div 3600 = sod div 60 div 60" by (simp flip: div_mult2_eq)
    then show ?thesis
      using div_mult_mod_eq [of sod 60] div_mult_mod_eq [of "sod div 60" 60] by linarith
  qed
  have "parse_time (fmt_time t) =
      Some ((int (secs div 86400) * 86400 + int (sod div 3600 * 3600 + sod div 60 mod 60 * 60 + sod mod 60))
        * 1000000000 + int (t mod 1000000000))"
    using parse_time_fields [of y m d "sod div 3600" "sod div 60 mod 60" "sod mod 60" "t mod 1000000000"]
      d sod by (simp add: fmt_time_def Let_def clock_text_def flip: secs_def sod_def)
  also have "\<dots> = Some (int t)"
  proof -
    have "secs div 86400 * 86400 + sod = secs" by (simp add: sod_def)
    then have "(secs div 86400 * 86400 + sod) * 1000000000 + t mod 1000000000 = t"
      by (simp add: secs_def)
    then have "int ((secs div 86400 * 86400 + sod) * 1000000000 + t mod 1000000000) = int t"
      by (rule arg_cong)
    then show ?thesis unfolding hms by (simp only: of_nat_mult of_nat_add of_nat_numeral)
  qed
  finally show ?thesis .
qed

lemma digit_chars:
  "digit 0 = CHR ''0''" "digit (Suc 0) = CHR ''1''" "digit 2 = CHR ''2''" "digit 7 = CHR ''7''" "digit 9 = CHR ''9''"
  by code_simp+

text \<open>The text order of two instants is not their time order: within one second the text of a
  whole tenth sorts after the text of a later hundredth, because trailing zeros are dropped.\<close>

lemma fmt_time_order_not_chronological:
  "\<exists>s t. s < t \<and> fmt_time t < fmt_time s"
proof (intro exI conjI)
  have date: "date_text 0 = ''1970-01-01''"
    by (simp add: date_text_def civil_year.simps year_len_def civil_month.simps month_len_def
        dec4_def dec2_def digit_chars)
  have clock: "clock_text 0 = ''00:00:00''"
    by (simp add: clock_text_def dec2_def digit_chars)
  have nine: "(9 :: nat) = Suc (Suc (Suc (Suc (Suc (Suc (Suc (Suc (Suc 0))))))))" by simp
  have frac: "frac_text 120000000 = ''.12''" "frac_text 100000000 = ''.1''"
    unfolding frac_text_def nine low_digits.simps by (simp_all add: strip_zeros_def digit_chars)
  show "(100000000 :: nat) < 120000000" by simp
  show "fmt_time 120000000 < fmt_time 100000000"
    by (simp add: fmt_time_def date clock frac)
qed

end
