(* ===== verification/Sql_Store.thy ===== *)
theory Sql_Store
  imports Json_Codec Go_Time
begin

section \<open>The tables of the state database and its statements\<close>

text \<open>
  The database that internal/state/state.go creates and uses: its tables as lists of rows in
  insertion order, the statements the store sends to it, and the transaction wrapper. A JSON column
  holds the value that its text denotes. A statement checks the constraints the schema declares
  (primary keys, the unique request of an approval, foreign keys) and, when it reports an error,
  leaves the tables as they were. Any statement, and the begin and commit of a transaction, may also
  fail for a reason outside the model (a busy or full disk, an I/O error, a cancelled context): the
  state carries the list of such failures, one flag for each statement to come, and an exhausted list
  means no further failure.

  What the SQL functions \<open>julianday\<close> and \<open>json_extract\<close> compute is an argument of the statements
  that use them.
\<close>

subsection \<open>Rows\<close>

record request_row =
  rr_request_id :: string
  rr_request_hash :: string
  rr_request_json :: json
  rr_status :: req_status
  rr_created_at :: string
  rr_expires_at :: string
  rr_output_bytes :: int
  rr_output_truncated :: int

record approval_row =
  ar_approval_id :: string
  ar_request_id :: string
  ar_approval_json :: json
  ar_received_at :: string
  ar_consumed_at :: "string option"

record execution_row =
  xr_request_id :: string
  xr_started_at :: string
  xr_finished_at :: "string option"
  xr_exit_code :: "int option"
  xr_signal :: "string option"

record chunk_row =
  cr_request_id :: string
  cr_sequence :: int
  cr_stream :: string
  cr_data :: bytes

record event_row =
  ev_event_id :: nat
  ev_type :: string
  ev_request_id :: "string option"
  ev_input_hash :: "string option"
  ev_detail :: string
  ev_occurred_at :: string

text \<open>\<open>d_legacy_tables\<close> and \<open>d_host_id_column\<close> are what an older version may have left.\<close>

record db =
  d_requests :: "request_row list"
  d_approvals :: "approval_row list"
  d_executions :: "execution_row list"
  d_output_chunks :: "chunk_row list"
  d_server_state :: "(string \<times> string) list"
  d_security_events :: "event_row list"
  d_legacy_tables :: "string list"
  d_host_id_column :: bool

record sql_functions =
  sf_julianday :: "string \<Rightarrow> int option"
  sf_requester_uid :: "json \<Rightarrow> int option"

record store =
  st_db :: db
  st_maxBytes :: int
  st_faults :: "bool list"

type_synonym 'a store_op = "(store, 'a) op"

abbreviation request_at :: "string \<Rightarrow> db \<Rightarrow> request_row option" where
  "request_at k d \<equiv> lookup_by rr_request_id k (d_requests d)"

abbreviation approval_at :: "string \<Rightarrow> db \<Rightarrow> approval_row option" where
  "approval_at k d \<equiv> lookup_by ar_request_id k (d_approvals d)"

abbreviation execution_at :: "string \<Rightarrow> db \<Rightarrow> execution_row option" where
  "execution_at k d \<equiv> lookup_by xr_request_id k (d_executions d)"

abbreviation request_ids :: "db \<Rightarrow> string set" where
  "request_ids d \<equiv> rr_request_id ` set (d_requests d)"

subsection \<open>Running a statement\<close>

definition sql_error :: err where
  "sql_error = External ''sqlite''"

definition stmt :: "(db, 'a) op \<Rightarrow> 'a store_op" where
  "stmt f = (\<lambda>s. case st_faults s of
       True # fs \<Rightarrow> (Inl sql_error, s\<lparr>st_faults := fs\<rparr>)
     | fs \<Rightarrow> (case f (st_db s) of
         (Inl e, d) \<Rightarrow> (Inl e, s\<lparr>st_faults := drop 1 fs\<rparr>)
       | (Inr x, d) \<Rightarrow> (Inr x, s\<lparr>st_db := d, st_faults := drop 1 fs\<rparr>)))"

definition select :: "(db \<Rightarrow> 'a) \<Rightarrow> 'a store_op" where
  "select q = stmt (state_get q)"

definition transactionContext :: "unit store_op \<Rightarrow> unit store_op" where
  "transactionContext operation = (\<lambda>s.
     case stmt (ret ()) s of
       (Inl e, s1) \<Rightarrow> (Inl e, s1)
     | (Inr _, s1) \<Rightarrow> (case operation s1 of
         (Inl e, s2) \<Rightarrow> (Inl e, s2\<lparr>st_db := st_db s1\<rparr>)
       | (Inr _, s2) \<Rightarrow> (case stmt (ret ()) s2 of
           (Inl e, s3) \<Rightarrow> (Inl e, s3\<lparr>st_db := st_db s1\<rparr>)
         | (Inr _, s3) \<Rightarrow> (Inr (), s3))))"

subsection \<open>Statements\<close>

definition constraint_error :: "string \<Rightarrow> err" where
  "constraint_error what = External (''constraint failed: '' @ what)"

definition insert_request :: "request_row \<Rightarrow> (db, unit) op" where
  "insert_request r = (\<lambda>d.
     if rr_request_id r \<in> request_ids d then (Inl (constraint_error ''requests.request_id''), d)
     else (Inr (), d\<lparr>d_requests := d_requests d @ [r]\<rparr>))"

definition insert_approval :: "approval_row \<Rightarrow> (db, unit) op" where
  "insert_approval a = (\<lambda>d.
     if ar_approval_id a \<in> ar_approval_id ` set (d_approvals d)
     then (Inl (constraint_error ''approvals.approval_id''), d)
     else if ar_request_id a \<in> ar_request_id ` set (d_approvals d)
     then (Inl (constraint_error ''approvals.request_id''), d)
     else if ar_request_id a \<notin> request_ids d then (Inl (constraint_error ''foreign key''), d)
     else (Inr (), d\<lparr>d_approvals := d_approvals d @ [a]\<rparr>))"

definition insert_execution :: "execution_row \<Rightarrow> (db, unit) op" where
  "insert_execution x = (\<lambda>d.
     if xr_request_id x \<in> xr_request_id ` set (d_executions d)
     then (Inl (constraint_error ''executions.request_id''), d)
     else if xr_request_id x \<notin> request_ids d then (Inl (constraint_error ''foreign key''), d)
     else (Inr (), d\<lparr>d_executions := d_executions d @ [x]\<rparr>))"

definition chunk_key :: "chunk_row \<Rightarrow> string \<times> int" where
  "chunk_key c = (cr_request_id c, cr_sequence c)"

definition insert_chunk :: "chunk_row \<Rightarrow> (db, unit) op" where
  "insert_chunk c = (\<lambda>d.
     if chunk_key c \<in> chunk_key ` set (d_output_chunks d)
     then (Inl (constraint_error ''output_chunks.request_id, output_chunks.sequence''), d)
     else if cr_request_id c \<notin> request_ids d then (Inl (constraint_error ''foreign key''), d)
     else (Inr (), d\<lparr>d_output_chunks := d_output_chunks d @ [c]\<rparr>))"

text \<open>\<open>event_id INTEGER PRIMARY KEY AUTOINCREMENT\<close>\<close>

definition insert_event ::
  "string \<Rightarrow> string option \<Rightarrow> string option \<Rightarrow> string \<Rightarrow> string \<Rightarrow> (db, unit) op" where
  "insert_event type rid hash detail at = (\<lambda>d.
     (Inr (), d\<lparr>d_security_events := d_security_events d @
        [\<lparr>ev_event_id = Suc (foldr (\<lambda>e m. max (ev_event_id e) m) (d_security_events d) 0),
          ev_type = type, ev_request_id = rid, ev_input_hash = hash, ev_detail = detail,
          ev_occurred_at = at\<rparr>]\<rparr>))"

text \<open>The result of an update is the number of rows it affected.\<close>

definition update_status :: "req_status \<Rightarrow> (request_row \<Rightarrow> bool) \<Rightarrow> (db, nat) op" where
  "update_status next p = (\<lambda>d. (Inr (rows_matching p (d_requests d)),
     d\<lparr>d_requests := update_where p (\<lambda>r. r\<lparr>rr_status := next\<rparr>) (d_requests d)\<rparr>))"

definition update_output :: "int \<Rightarrow> int \<Rightarrow> string \<Rightarrow> (db, nat) op" where
  "update_output n flag rid = (\<lambda>d.
     if \<not> list_all (\<lambda>r. rr_request_id r = rid \<longrightarrow> int64_range (rr_output_bytes r + n)) (d_requests d)
     then (Inl (constraint_error ''cannot store REAL value in INTEGER column''), d)
     else (Inr (rows_matching (\<lambda>r. rr_request_id r = rid) (d_requests d)),
       d\<lparr>d_requests := update_where (\<lambda>r. rr_request_id r = rid)
          (\<lambda>r. r\<lparr>rr_output_bytes := rr_output_bytes r + n, rr_output_truncated := flag\<rparr>)
          (d_requests d)\<rparr>))"

definition update_consumed :: "string \<Rightarrow> string \<Rightarrow> (db, nat) op" where
  "update_consumed at rid = (\<lambda>d.
     (Inr (rows_matching (\<lambda>a. ar_request_id a = rid \<and> ar_consumed_at a = None) (d_approvals d)),
      d\<lparr>d_approvals := update_where (\<lambda>a. ar_request_id a = rid \<and> ar_consumed_at a = None)
           (\<lambda>a. a\<lparr>ar_consumed_at := Some at\<rparr>) (d_approvals d)\<rparr>))"

definition update_executions ::
  "(execution_row \<Rightarrow> bool) \<Rightarrow> (execution_row \<Rightarrow> execution_row) \<Rightarrow> (db, nat) op" where
  "update_executions p f = (\<lambda>d. (Inr (rows_matching p (d_executions d)),
     d\<lparr>d_executions := update_where p f (d_executions d)\<rparr>))"

definition delete_chunks :: "string \<Rightarrow> (db, unit) op" where
  "delete_chunks rid = state_upd (\<lambda>d.
     d\<lparr>d_output_chunks := filter (\<lambda>c. cr_request_id c \<noteq> rid) (d_output_chunks d)\<rparr>)"

definition delete_executions :: "string \<Rightarrow> (db, unit) op" where
  "delete_executions rid = state_upd (\<lambda>d.
     d\<lparr>d_executions := filter (\<lambda>x. xr_request_id x \<noteq> rid) (d_executions d)\<rparr>)"

text \<open>Deleting a request that another table still refers to is refused, if there is such a request.\<close>

definition delete_request :: "string \<Rightarrow> (db, unit) op" where
  "delete_request rid = (\<lambda>d.
     if rid \<in> request_ids d \<and>
        (rid \<in> ar_request_id ` set (d_approvals d) \<or> rid \<in> xr_request_id ` set (d_executions d)
         \<or> rid \<in> cr_request_id ` set (d_output_chunks d))
     then (Inl (constraint_error ''foreign key''), d)
     else (Inr (), d\<lparr>d_requests := filter (\<lambda>r. rr_request_id r \<noteq> rid) (d_requests d)\<rparr>))"

definition insert_server_state :: "string \<Rightarrow> string \<Rightarrow> (db, unit) op" where
  "insert_server_state k v = (\<lambda>d.
     if k \<in> fst ` set (d_server_state d) then (Inl (constraint_error ''server_state.key''), d)
     else (Inr (), d\<lparr>d_server_state := d_server_state d @ [(k, v)]\<rparr>))"

definition delete_server_state :: "string \<Rightarrow> (db, unit) op" where
  "delete_server_state k = state_upd (\<lambda>d.
     d\<lparr>d_server_state := filter (\<lambda>e. fst e \<noteq> k) (d_server_state d)\<rparr>)"

definition drop_table :: "string \<Rightarrow> (db, unit) op" where
  "drop_table t = state_upd (\<lambda>d. d\<lparr>d_legacy_tables := removeAll t (d_legacy_tables d)\<rparr>)"

definition drop_host_id :: "(db, unit) op" where
  "drop_host_id = state_upd (\<lambda>d. d\<lparr>d_host_id_column := False\<rparr>)"

text \<open>\<open>ORDER BY key DESC\<close> on text: byte order, rows with the same key in insertion order.\<close>

definition order_desc :: "('r \<Rightarrow> string) \<Rightarrow> 'r list \<Rightarrow> 'r list" where
  "order_desc key rows = rev (sort_key key (rev rows))"

subsection \<open>Statements and transactions as effects\<close>

text \<open>Whatever a transaction does, it is all or nothing.\<close>

lemma stmt_Inl_db: "fst (stmt f s) = Inl e \<Longrightarrow> st_db (snd (stmt f s)) = st_db s"
  by (auto simp: stmt_def split: list.splits bool.splits prod.splits sum.splits)

lemma stmt_ret_db [simp]: "st_db (snd (stmt (ret x) s)) = st_db s"
  by (auto simp: stmt_def ret_def split: list.splits bool.splits)

lemma transactionContext_Inl_db:
  "fst (transactionContext m s) = Inl e \<Longrightarrow> st_db (snd (transactionContext m s)) = st_db s"
  using stmt_ret_db [of "()" s]
  by (auto simp: transactionContext_def simp del: stmt_ret_db split: prod.splits sum.splits)

lemma transactionContext_Inr:
  assumes "fst (transactionContext m s) = Inr u"
  obtains s1 s2 where "st_db s1 = st_db s" "st_maxBytes s1 = st_maxBytes s" "m s1 = (Inr (), s2)"
    "st_db (snd (transactionContext m s)) = st_db s2"
proof -
  obtain r1 s1 where b: "stmt (ret ()) s = (r1, s1)" by fastforce
  obtain r2 s2 where o: "m s1 = (r2, s2)" by fastforce
  obtain r3 s3 where c: "stmt (ret ()) s2 = (r3, s3)" by fastforce
  have "r1 = Inr ()" "r2 = Inr ()" "r3 = Inr ()"
    using assms b o c by (auto simp: transactionContext_def split: sum.splits)
  moreover have "st_db s1 = st_db s" "st_db s3 = st_db s2"
    using stmt_ret_db [of "()" s] stmt_ret_db [of "()" s2] b c by simp_all
  moreover have "st_maxBytes s1 = st_maxBytes s"
    using b by (auto simp: stmt_def ret_def split: list.splits bool.splits)
  ultimately show thesis
    using that [of s1 s2] b o c by (simp add: transactionContext_def)
qed

lemma stmt_Inr:
  "stmt f s = (Inr x, t) \<Longrightarrow> f (st_db s) = (Inr x, st_db t) \<and> st_maxBytes t = st_maxBytes s"
  by (auto simp: stmt_def split: list.splits bool.splits prod.splits sum.splits)

lemma select_Inr:
  "select q s = (Inr x, t) \<Longrightarrow> x = q (st_db s) \<and> st_db t = st_db s \<and> st_maxBytes t = st_maxBytes s"
  unfolding select_def by (drule stmt_Inr) (auto simp: outcome_simps)

lemma select_Inl: "select q s = (Inl e, t) \<Longrightarrow> e = sql_error \<and> st_db t = st_db s"
  by (auto simp: select_def stmt_def state_get_def split: list.splits bool.splits)

text \<open>With no failures to come, statements and transactions do what their text says.\<close>

lemma store_faults_idle [simp]: "st_faults s = [] \<Longrightarrow> s\<lparr>st_faults := []\<rparr> = s"
  by (cases s) simp

lemma stmt_quiet:
  "st_faults s = [] \<Longrightarrow> stmt f s =
     (case f (st_db s) of (Inl e, d) \<Rightarrow> (Inl e, s) | (Inr x, d) \<Rightarrow> (Inr x, s\<lparr>st_db := d\<rparr>))"
  by (auto simp: stmt_def split: prod.splits sum.splits)

lemma select_quiet: "st_faults s = [] \<Longrightarrow> select q s = (Inr (q (st_db s)), s)"
  by (simp add: select_def stmt_quiet state_get_def)

lemma transaction_quiet:
  assumes "st_faults s = []" and "st_faults (snd (m s)) = []"
  shows "transactionContext m s =
    (case m s of (Inl e, t) \<Rightarrow> (Inl e, t\<lparr>st_db := st_db s\<rparr>) | (Inr _, t) \<Rightarrow> (Inr (), t))"
proof -
  have idle: "stmt (ret ()) u = (Inr (), u)" if "st_faults u = []" for u
    using that by (simp add: stmt_quiet ret_def)
  show ?thesis
    using assms idle [of s] idle [of "snd (m s)"]
    by (auto simp: transactionContext_def split: prod.splits sum.splits)
qed

lemma transactionContext_InrD:
  "transactionContext m s = (Inr u, t) \<Longrightarrow>
     \<exists>s1 s2. st_db s1 = st_db s \<and> m s1 = (Inr (), s2) \<and> st_db t = st_db s2"
  using transactionContext_Inr [of m s u] by (metis fst_conv snd_conv)

lemma transactionContext_InlD: "transactionContext m s = (Inl e, t) \<Longrightarrow> st_db t = st_db s"
  using transactionContext_Inl_db [of m s e] by simp

text \<open>An effect on the tables, seen from the store.\<close>

definition on_db :: "(db \<Rightarrow> db \<Rightarrow> bool) \<Rightarrow> store \<Rightarrow> store \<Rightarrow> bool" where
  "on_db Q s t \<longleftrightarrow> Q (st_db s) (st_db t) \<and> st_maxBytes t = st_maxBytes s"

locale table_effect =
  fixes Q :: "db \<Rightarrow> db \<Rightarrow> bool"
  assumes tab_refl: "Q d d"
    and tab_trans: "Q d e \<Longrightarrow> Q e f \<Longrightarrow> Q d f"
begin

lemma within_stmt:
  assumes "within Q f"
  shows "within (on_db Q) (stmt f)"
  unfolding within_def on_db_def
proof
  fix s :: store
  obtain r d where f: "f (st_db s) = (r, d)" by fastforce
  then have "Q (st_db s) d" using assms by (metis snd_conv within_def)
  then show "Q (st_db s) (st_db (snd (stmt f s))) \<and> st_maxBytes (snd (stmt f s)) = st_maxBytes s"
    using f by (auto simp: stmt_def tab_refl split: list.splits bool.splits sum.splits)
qed

lemma within_select: "within (on_db Q) (select q)"
  unfolding select_def by (rule within_stmt) (simp add: within_def state_get_def tab_refl)

lemma within_transaction:
  assumes "within (on_db Q) m"
  shows "within (on_db Q) (transactionContext m)"
proof -
  have "Q (st_db s) (st_db (snd (transactionContext m s))) \<and>
      st_maxBytes (snd (transactionContext m s)) = st_maxBytes s" for s :: store
  proof -
    obtain r1 s1 where b: "stmt (ret ()) s = (r1, s1)" by fastforce
    obtain r2 s2 where o: "m s1 = (r2, s2)" by fastforce
    obtain r3 s3 where c: "stmt (ret ()) s2 = (r3, s3)" by fastforce
    have s1: "st_db s1 = st_db s" "st_maxBytes s1 = st_maxBytes s"
      using b by (auto simp: stmt_def ret_def split: list.splits bool.splits)
    have s3: "st_db s3 = st_db s2" "st_maxBytes s3 = st_maxBytes s2"
      using c by (auto simp: stmt_def ret_def split: list.splits bool.splits)
    have s2: "Q (st_db s) (st_db s2)" "st_maxBytes s2 = st_maxBytes s"
      using assms o s1 by (metis on_db_def snd_conv within_def)+
    show ?thesis
      using b o c s1 s2 s3 by (auto simp: transactionContext_def tab_refl split: sum.splits)
  qed
  then show ?thesis by (simp add: within_def on_db_def)
qed

end

sublocale table_effect \<subseteq> store_effect: effect_order "on_db Q"
  by unfold_locales (auto simp: on_db_def tab_refl intro: tab_trans)

end
