(* ===== verification/State_Store.thy ===== *)
theory State_Store
  imports Sql_Store
begin

section \<open>The state store: internal/state/state.go\<close>

text \<open>
  Every method of \<open>Store\<close> as an operation on the tables of \<open>Sql_Store\<close>, statement by statement. The
  instants a method reads from the clock are its last arguments, in nanoseconds since 1970; the
  file sizes \<open>hasCapacity\<close> reads are the argument \<open>sizes\<close>, a missing file being \<^term>\<open>None\<close>. An
  expected state that may be empty is an option. The mutex of the store makes each transaction
  exclusive; what happens between the statements of different calls is the subject of the theory
  on interleavings.
\<close>

subsection \<open>Types and constants\<close>

fun transitions :: "req_status \<Rightarrow> req_status list" where
  "transitions Created = [PolicyRejected, Queued, Waiting, Executing, Cancelled, Expired]"
| "transitions Queued = [Synced, Waiting, PolicyRejected, Cancelled, Expired]"
| "transitions Synced = [Waiting, PolicyRejected, Cancelled, Expired]"
| "transitions Waiting = [Approved, Denied, PolicyRejected, Cancelled, Expired]"
| "transitions Approved = [Executing, PolicyRejected, Expired]"
| "transitions Executing = [Succeeded, Failed]"
| "transitions PolicyRejected = []"
| "transitions Denied = []"
| "transitions Expired = []"
| "transitions Succeeded = []"
| "transitions Failed = []"
| "transitions Cancelled = []"

record stored_request =
  sr_Request :: execution_request
  sr_RequestHash :: string
  sr_Status :: req_status
  sr_OutputBytes :: int
  sr_OutputTruncated :: bool

record output_chunk =
  oc_Sequence :: u64
  oc_Stream :: string
  oc_Data :: bytes

record execution_result =
  xe_ExitCode :: "int option"
  xe_Signal :: string
  xe_StartedAt :: string
  xe_FinishedAt :: string

text \<open>\<open>now\<close>, \<open>boolInt\<close> and \<open>nullable\<close>.\<close>

definition now_text :: "nat \<Rightarrow> string" where
  "now_text t = fmt_time t"

definition boolInt :: "bool \<Rightarrow> int" where
  "boolInt b = (if b then 1 else 0)"

definition nullable :: "string \<Rightarrow> string option" where
  "nullable v = (if v = '''' then None else Some v)"

subsection \<open>Create, Get and Transition\<close>

definition hasCapacity :: "int option list \<Rightarrow> int \<Rightarrow> int \<Rightarrow> bool" where
  "hasCapacity sizes additional maxBytes \<longleftrightarrow>
     maxBytes \<le> 0 \<or>
     wrap64 (foldl (\<lambda>current size. case size of None \<Rightarrow> current | Some n \<Rightarrow> wrap64 (current + n)) 0 sizes
             + additional) \<le> maxBytes - maxBytes div 10"

definition Create :: "int option list \<Rightarrow> execution_request \<Rightarrow> string \<Rightarrow> unit store_op" where
  "Create sizes request hash =
     and_then (state_get st_maxBytes) (\<lambda>maxBytes.
       if \<not> hasCapacity sizes (int (length (json_text (execution_request_json request))) + 4096) maxBytes
       then fail ErrStorageLimit
       else stmt (insert_request
         \<lparr>rr_request_id = er_RequestID request, rr_request_hash = hash,
          rr_request_json = execution_request_json request, rr_status = Created,
          rr_created_at = er_CreatedAt request, rr_expires_at = er_ExpiresAt request,
          rr_output_bytes = 0, rr_output_truncated = 0\<rparr>))"

definition stored_of :: "request_row \<Rightarrow> stored_request res" where
  "stored_of r = res_bind (dec_execution_request (rr_request_json r)) (\<lambda>request.
     Inr \<lparr>sr_Request = request, sr_RequestHash = rr_request_hash r, sr_Status = rr_status r,
          sr_OutputBytes = rr_output_bytes r, sr_OutputTruncated = (rr_output_truncated r \<noteq> 0)\<rparr>)"

definition getFrom :: "string \<Rightarrow> stored_request option store_op" where
  "getFrom requestID =
     and_then (select (request_at requestID)) (\<lambda>row.
       case row of None \<Rightarrow> ret None
       | Some r \<Rightarrow> and_then (lift_res (stored_of r)) (\<lambda>stored. ret (Some stored)))"

definition Get :: "string \<Rightarrow> stored_request option store_op" where
  "Get requestID = getFrom requestID"

definition transition :: "string \<Rightarrow> req_status \<Rightarrow> req_status option \<Rightarrow> unit store_op" where
  "transition requestID next expected =
     and_then (getFrom requestID) (\<lambda>current.
       case current of None \<Rightarrow> fail (Plain ''unknown request'')
       | Some c \<Rightarrow>
         if expected \<noteq> None \<and> Some (sr_Status c) \<noteq> expected
         then fail (Plain (''expected '' @ status_text (the expected) @ '', found '' @ status_text (sr_Status c)))
         else if next \<notin> set (transitions (sr_Status c))
         then fail (Plain (''invalid transition '' @ status_text (sr_Status c) @ '' -> '' @ status_text next))
         else and_then (stmt (update_status next
                (\<lambda>r. rr_request_id r = requestID \<and> rr_status r = sr_Status c))) (\<lambda>changed.
              if changed \<noteq> 1 then fail (Plain ''concurrent state transition'') else ret ()))"

definition transaction :: "unit store_op \<Rightarrow> unit store_op" where
  "transaction operation = transactionContext operation"

definition Transition :: "string \<Rightarrow> req_status \<Rightarrow> req_status option \<Rightarrow> unit store_op" where
  "Transition requestID next expected = transaction (transition requestID next expected)"

subsection \<open>Queries over requests\<close>

text \<open>\<open>for _, id := range ids { item, err := s.Get(id); ... }\<close>: the rows that are still there.\<close>

fun get_each :: "string list \<Rightarrow> stored_request list store_op" where
  "get_each [] = ret []"
| "get_each (i # ids) =
     and_then (Get i) (\<lambda>item. and_then (get_each ids) (\<lambda>rest.
       ret (case item of None \<Rightarrow> rest | Some x \<Rightarrow> x # rest)))"

definition uid_matches :: "sql_functions \<Rightarrow> u32 \<Rightarrow> request_row \<Rightarrow> bool" where
  "uid_matches sf uid r \<longleftrightarrow> sf_requester_uid sf (rr_request_json r) = Some (uint uid)"

definition recent_ids :: "sql_functions \<Rightarrow> int \<Rightarrow> u32 \<Rightarrow> bool \<Rightarrow> req_status list \<Rightarrow> db \<Rightarrow> string list" where
  "recent_ids sf limit uid allUsers statuses d =
     map rr_request_id (take (nat limit) (order_desc rr_created_at
       (filter (\<lambda>r. rr_status r \<in> set statuses \<and> (allUsers \<or> uid_matches sf uid r)) (d_requests d))))"

definition recent :: "sql_functions \<Rightarrow> int \<Rightarrow> u32 \<Rightarrow> bool \<Rightarrow> req_status list \<Rightarrow> stored_request list store_op" where
  "recent sf limit uid allUsers statuses =
     (if limit < 1 \<or> limit > 1000 \<or> statuses = [] then fail (Plain ''invalid recent request query'')
      else and_then (select (recent_ids sf limit uid allUsers statuses)) get_each)"

definition byStatuses :: "req_status list \<Rightarrow> stored_request list store_op" where
  "byStatuses statuses =
     and_then (select (\<lambda>d. map rr_request_id (filter (\<lambda>r. rr_status r \<in> set statuses) (d_requests d))))
       get_each"

definition expirable :: "sql_functions \<Rightarrow> string \<Rightarrow> request_row \<Rightarrow> bool" where
  "expirable sf at r \<longleftrightarrow> rr_status r \<in> {Queued, Synced, Waiting, Approved} \<and>
     (case (sf_julianday sf (rr_expires_at r), sf_julianday sf at) of
        (Some e, Some n) \<Rightarrow> e \<le> n | _ \<Rightarrow> False)"

definition ExpireOutstanding :: "sql_functions \<Rightarrow> nat \<Rightarrow> unit store_op" where
  "ExpireOutstanding sf t =
     and_then (stmt (update_status Expired (expirable sf (now_text t)))) (\<lambda>_. ret ())"

definition Pending :: "sql_functions \<Rightarrow> nat \<Rightarrow> stored_request list store_op" where
  "Pending sf t = and_then (ExpireOutstanding sf t) (\<lambda>_. byStatuses [Waiting])"

definition RecentPending :: "sql_functions \<Rightarrow> nat \<Rightarrow> int \<Rightarrow> u32 \<Rightarrow> bool \<Rightarrow> stored_request list store_op" where
  "RecentPending sf t limit uid allUsers =
     and_then (ExpireOutstanding sf t) (\<lambda>_. recent sf limit uid allUsers [Waiting])"

definition Recent :: "sql_functions \<Rightarrow> int \<Rightarrow> u32 \<Rightarrow> bool \<Rightarrow> stored_request list store_op" where
  "Recent sf limit uid allUsers = recent sf limit uid allUsers
     [Created, Queued, Synced, Waiting, Approved, Executing, PolicyRejected, Denied, Expired,
      Succeeded, Failed, Cancelled]"

definition All_requests :: "stored_request list store_op" where
  "All_requests = byStatuses [Created, Queued, Synced, Waiting, Approved, Executing, PolicyRejected,
     Denied, Expired, Succeeded, Failed, Cancelled]"

definition Approved_requests :: "stored_request list store_op" where
  "Approved_requests = byStatuses [Approved]"

definition Executed :: "stored_request list store_op" where
  "Executed = byStatuses [Executing, Succeeded, Failed]"

definition Cancelled_requests :: "stored_request list store_op" where
  "Cancelled_requests = byStatuses [Cancelled]"

definition outstanding :: "req_status list" where
  "outstanding = [Created, Queued, Synced, Waiting, Approved, Executing]"

definition OutstandingCounts :: "sql_functions \<Rightarrow> u32 \<Rightarrow> (int \<times> int) store_op" where
  "OutstandingCounts sf uid = select (\<lambda>d.
     let rows = filter (\<lambda>r. rr_status r \<in> set outstanding) (d_requests d)
     in (int (rows_matching (uid_matches sf uid) rows), int (length rows)))"

subsection \<open>Approvals and executions\<close>

definition ApprovalFor :: "string \<Rightarrow> approval option store_op" where
  "ApprovalFor requestID =
     and_then (select (approval_at requestID)) (\<lambda>row.
       case row of None \<Rightarrow> ret None
       | Some a \<Rightarrow> and_then (lift_res (dec_approval (ar_approval_json a))) (\<lambda>approval. ret (Some approval)))"

definition approval_well_formed :: "approval \<Rightarrow> bool" where
  "approval_well_formed a \<longleftrightarrow> \<not> (ap_Version a \<noteq> 1 \<or> ap_ApprovalID a = '''' \<or> ap_RequestID a = ''''
     \<or> ap_RequestHash a = '''' \<or> ab_Subject (ap_ApprovedBy a) = ''''
     \<or> (ap_Decision a \<noteq> ''approve'' \<and> ap_Decision a \<noteq> ''deny''))"

definition AcceptApprovalContext :: "approval \<Rightarrow> nat \<Rightarrow> unit store_op" where
  "AcceptApprovalContext approval t =
     (if \<not> approval_well_formed approval then fail (Plain ''invalid approval'')
      else transactionContext (
        and_then (stmt (insert_approval
          \<lparr>ar_approval_id = ap_ApprovalID approval, ar_request_id = ap_RequestID approval,
           ar_approval_json = approval_json approval, ar_received_at = now_text t,
           ar_consumed_at = None\<rparr>)) (\<lambda>_.
        transition (ap_RequestID approval)
          (if ap_Decision approval = ''approve'' then Approved else Denied) (Some Waiting))))"

definition AcceptApproval :: "approval \<Rightarrow> nat \<Rightarrow> unit store_op" where
  "AcceptApproval approval t = AcceptApprovalContext approval t"

definition BeginExecution :: "string \<Rightarrow> req_status \<Rightarrow> nat \<Rightarrow> nat \<Rightarrow> unit store_op" where
  "BeginExecution requestID expected t1 t2 = transaction (
     and_then (transition requestID Executing (Some expected)) (\<lambda>_.
     and_then (stmt (insert_execution
       \<lparr>xr_request_id = requestID, xr_started_at = now_text t1, xr_finished_at = None,
        xr_exit_code = None, xr_signal = None\<rparr>)) (\<lambda>_.
     if expected = Approved
     then and_then (stmt (update_consumed (now_text t2) requestID)) (\<lambda>changed.
       if changed \<noteq> 1 then fail (Plain ''approval was not consumed exactly once'') else ret ())
     else ret ())))"

definition FinishExecution :: "string \<Rightarrow> int option \<Rightarrow> string \<Rightarrow> nat \<Rightarrow> unit store_op" where
  "FinishExecution requestID exitCode signal t = transaction (
     and_then (transition requestID (if exitCode = Some 0 then Succeeded else Failed) (Some Executing)) (\<lambda>_.
     and_then (stmt (update_executions (\<lambda>x. xr_request_id x = requestID)
       (\<lambda>x. x\<lparr>xr_finished_at := Some (now_text t), xr_exit_code := exitCode, xr_signal := nullable signal\<rparr>)))
     (\<lambda>_. ret ())))"

definition Execution :: "string \<Rightarrow> execution_result option store_op" where
  "Execution requestID =
     and_then (select (execution_at requestID)) (\<lambda>row.
       ret (map_option (\<lambda>x. \<lparr>xe_ExitCode = xr_exit_code x,
              xe_Signal = (case xr_signal x of None \<Rightarrow> '''' | Some s \<Rightarrow> s),
              xe_StartedAt = xr_started_at x,
              xe_FinishedAt = (case xr_finished_at x of None \<Rightarrow> '''' | Some f \<Rightarrow> f)\<rparr>) row))"

subsection \<open>Output\<close>

text \<open>The driver refuses an unsigned value with the high bit set.\<close>

definition high_bit_error :: err where
  "high_bit_error = External ''uint64 values with high bit set are not supported''"

definition bind_u64 :: "u64 \<Rightarrow> int store_op" where
  "bind_u64 v = (if uint v < 2 ^ 63 then ret (uint v) else fail high_bit_error)"

text \<open>The bytes to store: what fits under the cap, or nothing when the disk budget is used up.\<close>

definition kept_output :: "int option list \<Rightarrow> int \<Rightarrow> int \<Rightarrow> int \<Rightarrow> bytes \<Rightarrow> bytes" where
  "kept_output sizes maxBytes used limit data =
     (let remaining = max 0 (wrap64 (limit - used));
          stored = (if int (length data) > remaining then take (nat remaining) data else data)
      in if \<not> hasCapacity sizes (int (length stored) + 4096) maxBytes then [] else stored)"

definition AppendOutput ::
  "int option list \<Rightarrow> string \<Rightarrow> u64 \<Rightarrow> string \<Rightarrow> bytes \<Rightarrow> int \<Rightarrow> (bool \<times> bytes) store_op" where
  "AppendOutput sizes requestID sequence stream data limit =
     and_then (Get requestID) (\<lambda>current.
       case current of None \<Rightarrow> fail (Plain ''unknown request'')
       | Some c \<Rightarrow>
         if sr_OutputTruncated c then ret (True, [])
         else and_then (state_get st_maxBytes) (\<lambda>maxBytes.
           let stored = kept_output sizes maxBytes (sr_OutputBytes c) limit data;
               truncated = (length stored < length data)
           in and_then
             (if stored = [] then ret ()
              else and_then (bind_u64 sequence) (\<lambda>seq. stmt (insert_chunk
                \<lparr>cr_request_id = requestID, cr_sequence = seq, cr_stream = stream, cr_data = stored\<rparr>)))
             (\<lambda>_. and_then (stmt (update_output (int (length stored)) (boolInt truncated) requestID))
               (\<lambda>_. ret (truncated, stored)))))"

definition chunks_from :: "string \<Rightarrow> int \<Rightarrow> db \<Rightarrow> chunk_row list" where
  "chunks_from requestID after d =
     sort_key cr_sequence (filter (\<lambda>c. cr_request_id c = requestID \<and> after \<le> cr_sequence c) (d_output_chunks d))"

definition chunk_of :: "chunk_row \<Rightarrow> output_chunk" where
  "chunk_of c = \<lparr>oc_Sequence = word_of_int (cr_sequence c), oc_Stream = cr_stream c, oc_Data = cr_data c\<rparr>"

text \<open>The row loop: \<open>result\<close> is what was collected so far and \<open>tot\<close> its size.\<close>

fun page :: "int \<Rightarrow> int \<Rightarrow> output_chunk list \<Rightarrow> chunk_row list \<Rightarrow> (output_chunk list \<times> bool) res" where
  "page maxBytes tot result [] = Inr (result, False)"
| "page maxBytes tot result (c # rows) =
     (if cr_sequence c < 0 then Inl (External ''converting driver.Value type int64 to a uint64'')
      else if maxBytes > 0 \<and> result \<noteq> [] \<and> wrap64 (tot + int (length (cr_data c))) > maxBytes
      then Inr (result, True)
      else page maxBytes (wrap64 (tot + int (length (cr_data c))))
        (result @ [chunk_of c]) rows)"

definition OutputAfter :: "string \<Rightarrow> u64 \<Rightarrow> int \<Rightarrow> (output_chunk list \<times> bool) store_op" where
  "OutputAfter requestID after maxBytes =
     and_then (bind_u64 after) (\<lambda>a.
     and_then (select (chunks_from requestID a)) (\<lambda>rows. lift_res (page maxBytes 0 [] rows)))"

definition Output :: "string \<Rightarrow> output_chunk list store_op" where
  "Output requestID = and_then (OutputAfter requestID 0 0) (\<lambda>(chunks, _). ret chunks)"

subsection \<open>Retention, events and opening\<close>

definition prunable :: "db \<Rightarrow> request_row \<Rightarrow> bool" where
  "prunable d r \<longleftrightarrow> rr_status r \<in> {PolicyRejected, Denied, Expired, Cancelled, Failed, Succeeded}
     \<and> rr_request_id r \<notin> ar_request_id ` set (d_approvals d)"

definition prune_candidates :: "db \<Rightarrow> (string \<times> string) list" where
  "prune_candidates d = map (\<lambda>r. (rr_request_id r, rr_created_at r))
     (order_desc rr_created_at (filter (prunable d) (d_requests d)))"

fun prune_ids :: "int \<Rightarrow> int \<Rightarrow> int \<Rightarrow> (string \<times> string) list \<Rightarrow> string list" where
  "prune_ids olderThan retain index [] = []"
| "prune_ids olderThan retain index ((i, createdAt) # rows) =
     (let rest = prune_ids olderThan retain (index + 1) rows;
          stale = (case parse_time createdAt of None \<Rightarrow> True | Some created \<Rightarrow> created < olderThan)
      in if index \<ge> retain \<or> stale then i # rest else rest)"

fun delete_each :: "string list \<Rightarrow> unit store_op" where
  "delete_each [] = ret ()"
| "delete_each (i # ids) =
     and_then (stmt (delete_chunks i)) (\<lambda>_.
     and_then (stmt (delete_executions i)) (\<lambda>_.
     and_then (stmt (delete_request i)) (\<lambda>_. delete_each ids)))"

definition PruneUnapproved :: "int \<Rightarrow> int \<Rightarrow> unit store_op" where
  "PruneUnapproved olderThan retain =
     (if retain < 0 then fail (Plain ''invalid retention limit'')
      else and_then (select prune_candidates) (\<lambda>rows.
        let ids = prune_ids olderThan retain 0 rows
        in if ids = [] then ret () else transaction (delete_each ids)))"

definition RecordSecurityEvent :: "string \<Rightarrow> string \<Rightarrow> string \<Rightarrow> string \<Rightarrow> nat \<Rightarrow> unit store_op" where
  "RecordSecurityEvent eventType requestID inputHash detail t =
     stmt (insert_event eventType (nullable requestID) (nullable inputHash)
       (if length detail > 512 then take 512 detail else detail) (now_text t))"

definition recoverInterrupted :: "nat \<Rightarrow> unit store_op" where
  "recoverInterrupted t =
     and_then (stmt (update_status Failed (\<lambda>r. rr_status r = Executing))) (\<lambda>_.
     and_then (stmt (update_executions (\<lambda>x. xr_finished_at x = None)
       (\<lambda>x. x\<lparr>xr_finished_at := Some (now_text t), xr_signal := Some ''DAEMON_RESTART''\<rparr>))) (\<lambda>_. ret ()))"

definition migrateLocalOnly :: "nat \<Rightarrow> unit store_op" where
  "migrateLocalOnly t =
     and_then (select (\<lambda>d. map_of (d_server_state d) ''local_only_v2'')) (\<lambda>marker.
       case marker of Some _ \<Rightarrow> ret ()
       | None \<Rightarrow> transaction (
           and_then (stmt (update_status PolicyRejected
             (\<lambda>r. rr_status r \<in> {Queued, Synced, Waiting, Approved}))) (\<lambda>_.
           and_then (stmt (drop_table ''outbound_events'')) (\<lambda>_.
           and_then (stmt (drop_table ''used_nonces'')) (\<lambda>_.
           and_then (select d_host_id_column) (\<lambda>legacyHostColumn.
           and_then (if legacyHostColumn then stmt drop_host_id else ret ()) (\<lambda>_.
           and_then (stmt (delete_server_state ''approval_channel_quarantine'')) (\<lambda>_.
           and_then (stmt (insert_server_state ''local_only_v2'' ''enabled'')) (\<lambda>_.
           stmt (insert_event ''migration.local-only'' None None
             ''Remote approval state disabled; old pending requests rejected'' (now_text t)))))))))))"

definition SetMaxBytes :: "int \<Rightarrow> unit store_op" where
  "SetMaxBytes maxBytes = state_upd (\<lambda>s. s\<lparr>st_maxBytes := maxBytes\<rparr>)"

text \<open>Opening runs the schema script (which changes no existing table) and the two recovery steps; the
  new \<open>Store\<close> has no size limit until \<open>SetMaxBytes\<close>.\<close>

definition Open :: "nat \<Rightarrow> nat \<Rightarrow> unit store_op" where
  "Open t1 t2 =
     and_then (SetMaxBytes 0) (\<lambda>_.
     and_then (stmt (ret ())) (\<lambda>_.
     and_then (recoverInterrupted t1) (\<lambda>_. migrateLocalOnly t2)))"

end
