(* ===== verification/Store_Effects.thy ===== *)
theory Store_Effects
  imports State_Store
begin

section \<open>What the operations of the store may do to the tables\<close>

text \<open>
  The contract of the statements: an effect on the tables that every statement of the store stays
  within. The locale proves once that then every operation stays within it, whether it succeeds or
  fails and whichever statements fail. Inserting output, inserting requests and deleting rows are
  extensions of their own, for the effects that allow only some of them. The locales are interpreted on the
  effects of the development: the table invariant is kept, existing requests only move along the
  transition table, the audit trail (approvals, their requests and security events) only grows,
  only \<open>AppendOutput\<close> adds output, and only \<open>Create\<close> adds outstanding requests.
\<close>

subsection \<open>Reading\<close>

text \<open>The operations that only read stay within every effect.\<close>

context table_effect
begin

lemmas op_effects = store_effect.within_intros within_branches within_stmt within_select within_transaction

lemma getFrom_within: "within (on_db Q) (getFrom k)"
  unfolding getFrom_def by (intro op_effects)

lemma Get_within: "within (on_db Q) (Get k)"
  unfolding Get_def by (rule getFrom_within)

lemma get_each_within: "within (on_db Q) (get_each ids)"
  by (induction ids) (auto intro!: op_effects Get_within)

lemma recent_within: "within (on_db Q) (recent sf limit uid allUsers statuses)"
  unfolding recent_def by (intro op_effects get_each_within)

lemma byStatuses_within: "within (on_db Q) (byStatuses statuses)"
  unfolding byStatuses_def by (intro op_effects get_each_within)

lemma Recent_within: "within (on_db Q) (Recent sf limit uid allUsers)"
  unfolding Recent_def by (rule recent_within)

lemma Approved_requests_within: "within (on_db Q) Approved_requests"
  unfolding Approved_requests_def by (rule byStatuses_within)

lemma OutstandingCounts_within: "within (on_db Q) (OutstandingCounts sf uid)"
  unfolding OutstandingCounts_def by (rule within_select)

lemma ApprovalFor_within: "within (on_db Q) (ApprovalFor k)"
  unfolding ApprovalFor_def by (intro op_effects)

lemma Execution_within: "within (on_db Q) (Execution k)"
  unfolding Execution_def by (intro op_effects)

lemma OutputAfter_within: "within (on_db Q) (OutputAfter k after maxBytes)"
  unfolding OutputAfter_def bind_u64_def by (intro op_effects)

lemmas read_ops_within =
  Get_within get_each_within recent_within byStatuses_within Recent_within Approved_requests_within
  OutstandingCounts_within ApprovalFor_within Execution_within OutputAfter_within

end

subsection \<open>The contract\<close>

locale table_writes = table_effect Q for Q :: "db \<Rightarrow> db \<Rightarrow> bool" +
  assumes insert_approval_eff: "ar_consumed_at a = None \<Longrightarrow> within Q (insert_approval a)"
    and insert_execution_eff: "within Q (insert_execution x)"
    and insert_event_eff: "within Q (insert_event ty rido hash detail at)"
    and update_status_eff: "(\<And>r. p r \<Longrightarrow> next \<in> set (transitions (rr_status r))) \<Longrightarrow>
      within Q (update_status next p)"
    and update_output_eff: "0 \<le> n \<Longrightarrow> within Q (update_output n flag rid)"
    and update_consumed_eff: "within Q (update_consumed at rid)"
    and update_executions_eff: "(\<And>x. xr_request_id (f x) = xr_request_id x) \<Longrightarrow>
      within Q (update_executions q f)"
    and insert_server_state_eff: "within Q (insert_server_state k v)"
    and delete_server_state_eff: "within Q (delete_server_state k)"
    and drop_table_eff: "within Q (drop_table tb)"
    and drop_host_id_eff: "within Q drop_host_id"
begin

lemma transition_within: "within (on_db Q) (transition k next expected)"
  unfolding transition_def by (intro op_effects getFrom_within update_status_eff) simp

lemma Transition_within: "within (on_db Q) (Transition k next expected)"
  unfolding Transition_def transaction_def by (intro op_effects transition_within)

lemma ExpireOutstanding_within: "within (on_db Q) (ExpireOutstanding sf t)"
  unfolding ExpireOutstanding_def by (intro op_effects update_status_eff) (auto simp: expirable_def)

lemma Pending_within: "within (on_db Q) (Pending sf t)"
  unfolding Pending_def by (intro op_effects ExpireOutstanding_within byStatuses_within)

lemma RecentPending_within: "within (on_db Q) (RecentPending sf t limit uid allUsers)"
  unfolding RecentPending_def by (intro op_effects ExpireOutstanding_within recent_within)

lemma AcceptApprovalContext_within: "within (on_db Q) (AcceptApprovalContext a t)"
  unfolding AcceptApprovalContext_def
  by (intro op_effects transition_within insert_approval_eff) simp

lemma BeginExecution_within: "within (on_db Q) (BeginExecution k expected t1 t2)"
  unfolding BeginExecution_def transaction_def
  by (intro op_effects transition_within insert_execution_eff update_consumed_eff)

lemma FinishExecution_within: "within (on_db Q) (FinishExecution k exitCode signal t)"
  unfolding FinishExecution_def transaction_def
  by (intro op_effects transition_within update_executions_eff) simp

lemma RecordSecurityEvent_within: "within (on_db Q) (RecordSecurityEvent ty k hash detail t)"
  unfolding RecordSecurityEvent_def by (intro op_effects insert_event_eff)

lemma recoverInterrupted_within: "within (on_db Q) (recoverInterrupted t)"
  unfolding recoverInterrupted_def
  by (intro op_effects update_status_eff update_executions_eff) simp_all

lemma migrateLocalOnly_within: "within (on_db Q) (migrateLocalOnly t)"
  unfolding migrateLocalOnly_def transaction_def
  by (intro op_effects update_status_eff insert_event_eff insert_server_state_eff
      delete_server_state_eff drop_table_eff drop_host_id_eff) auto

lemmas write_ops_within =
  Get_within Transition_within Recent_within RecentPending_within Approved_requests_within
  ExpireOutstanding_within OutstandingCounts_within ApprovalFor_within AcceptApprovalContext_within
  BeginExecution_within FinishExecution_within Execution_within OutputAfter_within
  RecordSecurityEvent_within

end

text \<open>Appending output inserts a chunk.\<close>

locale table_updates = table_writes Q for Q :: "db \<Rightarrow> db \<Rightarrow> bool" +
  assumes insert_chunk_eff: "0 \<le> cr_sequence c \<Longrightarrow> cr_sequence c < 2 ^ 63 \<Longrightarrow> within Q (insert_chunk c)"
begin

lemma AppendOutput_within: "within (on_db Q) (AppendOutput sizes k sequence stream data limit)"
proof -
  have insert: "within (on_db Q) (and_then (bind_u64 sequence) (\<lambda>seq. stmt (insert_chunk
      \<lparr>cr_request_id = k, cr_sequence = seq, cr_stream = stream, cr_data = bytes\<rparr>)))" for bytes
  proof (cases "uint sequence < 2 ^ 63")
    case True
    then show ?thesis
      using within_stmt [OF insert_chunk_eff, of "\<lparr>cr_request_id = k, cr_sequence = uint sequence, cr_stream = stream, cr_data = bytes\<rparr>"]
      by (simp add: bind_u64_def and_then_def ret_def within_def)
  next
    case False
    then show ?thesis
      using store_effect.within_fail by (simp add: bind_u64_def and_then_def fail_def within_def)
  qed
  show ?thesis
    unfolding AppendOutput_def Let_def
    by (intro op_effects Get_within insert update_output_eff) simp
qed

text \<open>The operations the daemon calls on an open store, creating a request and pruning apart.\<close>

lemmas update_ops_within = write_ops_within AppendOutput_within

end

text \<open>Creating a request inserts a row.\<close>

locale request_inserts = table_writes Q for Q :: "db \<Rightarrow> db \<Rightarrow> bool" +
  assumes insert_request_eff: "rr_status r = Created \<Longrightarrow> rr_output_bytes r = 0 \<Longrightarrow> within Q (insert_request r)"
begin

lemma Create_within: "within (on_db Q) (Create sizes request hash)"
  unfolding Create_def by (intro op_effects insert_request_eff) simp_all

end

locale table_statements = table_updates Q + request_inserts Q for Q :: "db \<Rightarrow> db \<Rightarrow> bool"
begin

lemmas store_ops_within = update_ops_within Create_within

end

text \<open>Pruning deletes rows.\<close>

locale deletions = table_writes Q for Q :: "db \<Rightarrow> db \<Rightarrow> bool" +
  assumes delete_chunks_eff: "within Q (delete_chunks k)"
    and delete_executions_eff: "within Q (delete_executions k)"
    and delete_request_eff: "within Q (delete_request k)"
begin

lemma delete_each_within: "within (on_db Q) (delete_each ids)"
  by (induction ids)
    (auto intro!: op_effects delete_chunks_eff delete_executions_eff delete_request_eff)

lemma PruneUnapproved_within: "within (on_db Q) (PruneUnapproved olderThan retain)"
  unfolding PruneUnapproved_def transaction_def Let_def by (intro op_effects delete_each_within)

end

text \<open>Everything but appending output.\<close>

locale silent_statements = request_inserts Q + deletions Q for Q :: "db \<Rightarrow> db \<Rightarrow> bool"

locale row_deletions = table_updates Q + deletions Q for Q :: "db \<Rightarrow> db \<Rightarrow> bool"

locale table_deletions = table_statements Q + row_deletions Q for Q :: "db \<Rightarrow> db \<Rightarrow> bool"

end
