(* ===== verification/Store_Invariants.thy ===== *)
theory Store_Invariants
  imports Store_Effects
begin

section \<open>The invariants of the tables\<close>

subsection \<open>Keys and references\<close>

text \<open>Keys are unique, every approval, execution and chunk belongs to a request, and counters are in
  range.\<close>

definition db_ok :: "db \<Rightarrow> bool" where
  "db_ok d \<longleftrightarrow>
     distinct (map rr_request_id (d_requests d)) \<and>
     distinct (map ar_approval_id (d_approvals d)) \<and>
     distinct (map ar_request_id (d_approvals d)) \<and>
     distinct (map xr_request_id (d_executions d)) \<and>
     distinct (map chunk_key (d_output_chunks d)) \<and>
     distinct (map fst (d_server_state d)) \<and>
     ar_request_id ` set (d_approvals d) \<subseteq> request_ids d \<and>
     xr_request_id ` set (d_executions d) \<subseteq> request_ids d \<and>
     cr_request_id ` set (d_output_chunks d) \<subseteq> request_ids d \<and>
     (\<forall>c \<in> set (d_output_chunks d). 0 \<le> cr_sequence c \<and> cr_sequence c < 2 ^ 63) \<and>
     (\<forall>r \<in> set (d_requests d). 0 \<le> rr_output_bytes r \<and> int64_range (rr_output_bytes r))"

definition db_inv :: "db \<Rightarrow> db \<Rightarrow> bool" where
  "db_inv d e \<longleftrightarrow> (db_ok d \<longrightarrow> db_ok e)"

lemma db_inv_split:
  "within db_inv m \<longleftrightarrow> (\<forall>d. db_ok d \<longrightarrow> db_ok (snd (m d)))"
  by (simp add: within_def db_inv_def)

lemma image_update_where [simp]:
  "(\<And>r. g (f r) = g r) \<Longrightarrow> g ` set (update_where p f rows) = g ` set rows"
  by (metis list.set_map map_update_where)

lemma ball_update_where:
  "(\<forall>r \<in> set (update_where p f rows). P r) \<longleftrightarrow> (\<forall>r \<in> set rows. P (if p r then f r else r))"
  by (auto simp: update_where_def)

lemma distinct_map_filter_subset [intro]: "distinct (map f xs) \<Longrightarrow> distinct (map f (filter p xs))"
  by (rule distinct_map_filter)

lemma db_inv_delete_request: "within db_inv (delete_request k)"
proof -
  have "f ` {x \<in> S. f x \<noteq> i} = f ` S - {i}" for f :: "request_row \<Rightarrow> string" and S i by auto
  then show ?thesis by (auto simp: db_inv_split db_ok_def delete_request_def)
qed

interpretation ok: table_deletions db_inv
proof
  show "within db_inv (delete_request k)" for k by (rule db_inv_delete_request)
  show "db_inv d d" for d by (simp add: db_inv_def)
  show "db_inv d f" if "db_inv d e" "db_inv e f" for d e f using that by (simp add: db_inv_def)
  show "within db_inv (update_output n flag rid)" if "0 \<le> n" for n flag rid
    using that
    by (auto simp: db_inv_split update_output_def db_ok_def ball_update_where list_all_iff)
qed (auto simp: db_inv_split db_ok_def insert_request_def insert_approval_def insert_execution_def
    insert_chunk_def insert_event_def update_status_def update_consumed_def update_executions_def
    insert_server_state_def delete_server_state_def drop_table_def drop_host_id_def delete_chunks_def
    delete_executions_def state_upd_def ball_update_where int64_range_def)

subsection \<open>Requests move along the transition table\<close>

abbreviation allowed :: "req_status \<Rightarrow> req_status \<Rightarrow> bool" where
  "allowed a b \<equiv> b \<in> set (transitions a)"

text \<open>The columns that the trigger \<open>requests_immutable\<close> protects, and the identifier.\<close>

definition same_request :: "request_row \<Rightarrow> request_row \<Rightarrow> bool" where
  "same_request r r' \<longleftrightarrow> rr_request_id r' = rr_request_id r \<and> rr_request_hash r' = rr_request_hash r
     \<and> rr_request_json r' = rr_request_json r \<and> rr_created_at r' = rr_created_at r
     \<and> rr_expires_at r' = rr_expires_at r"

definition follows :: "request_row \<Rightarrow> request_row \<Rightarrow> bool" where
  "follows r r' \<longleftrightarrow> same_request r r' \<and> allowed\<^sup>*\<^sup>* (rr_status r) (rr_status r')
     \<and> rr_output_bytes r \<le> rr_output_bytes r'"

lemma follows_refl [simp]: "follows r r"
  by (simp add: follows_def same_request_def)

lemma follows_trans: "follows r s \<Longrightarrow> follows s t \<Longrightarrow> follows r t"
  by (auto simp: follows_def same_request_def)

definition requests_follow :: "db \<Rightarrow> db \<Rightarrow> bool" where
  "requests_follow d e \<longleftrightarrow> (\<forall>k r. request_at k d = Some r \<longrightarrow> (\<exists>r'. request_at k e = Some r' \<and> follows r r'))"

lemma requests_follow_refl [simp]: "requests_follow d d"
  by (auto simp: requests_follow_def)

lemma requests_follow_trans: "requests_follow d e \<Longrightarrow> requests_follow e f \<Longrightarrow> requests_follow d f"
  unfolding requests_follow_def by (blast intro: follows_trans)

lemma requests_follow_same: "d_requests e = d_requests d \<Longrightarrow> requests_follow d e"
  by (auto simp: requests_follow_def)

lemma requests_follow_append: "d_requests e = d_requests d @ rs \<Longrightarrow> requests_follow d e"
  by (auto simp: requests_follow_def lookup_by_append)

lemma requests_follow_update:
  assumes "d_requests e = update_where p f (d_requests d)" and "\<And>r. rr_request_id (f r) = rr_request_id r"
    and "\<And>r. p r \<Longrightarrow> follows r (f r)"
  shows "requests_follow d e"
  using assms by (auto simp: requests_follow_def lookup_by_update_where)

lemma requests_follow_status:
  "(\<And>r. p r \<Longrightarrow> allowed (rr_status r) next) \<Longrightarrow> within requests_follow (update_status next p)"
  unfolding update_status_def
  by (intro withinI, rule requests_follow_update [where p = p and f = "\<lambda>r. r\<lparr>rr_status := next\<rparr>"])
    (auto simp: follows_def same_request_def)

lemma requests_follow_output: "0 \<le> n \<Longrightarrow> within requests_follow (update_output n flag rid)"
proof (rule withinI)
  fix d
  assume "0 \<le> n"
  then have "requests_follow d (d\<lparr>d_requests := update_where (\<lambda>r. rr_request_id r = rid)
      (\<lambda>r. r\<lparr>rr_output_bytes := rr_output_bytes r + n, rr_output_truncated := flag\<rparr>) (d_requests d)\<rparr>)"
    by (intro requests_follow_update [where p = "\<lambda>r. rr_request_id r = rid" and
        f = "\<lambda>r. r\<lparr>rr_output_bytes := rr_output_bytes r + n, rr_output_truncated := flag\<rparr>"])
      (auto simp: follows_def same_request_def)
  then show "requests_follow d (snd (update_output n flag rid d))"
    by (simp add: update_output_def)
qed

lemma requests_follow_insert: "within requests_follow (insert_request r)"
  by (rule withinI) (simp add: insert_request_def requests_follow_append)

interpretation moves: table_statements requests_follow
proof
  show "within requests_follow (insert_request r)" for r by (rule requests_follow_insert)
  show "requests_follow d f" if "requests_follow d e" "requests_follow e f" for d e f
    using that by (rule requests_follow_trans)
  show "within requests_follow (update_status nx p)"
    if "\<And>r. p r \<Longrightarrow> allowed (rr_status r) nx" for p nx
    using that by (rule requests_follow_status)
  show "within requests_follow (update_output n flag rid)" if "0 \<le> n" for n flag rid
    using that by (rule requests_follow_output)
qed (auto intro!: withinI requests_follow_same
    simp: insert_approval_def insert_execution_def
    insert_chunk_def insert_event_def update_consumed_def update_executions_def
    insert_server_state_def delete_server_state_def drop_table_def drop_host_id_def state_upd_def)

subsection \<open>The audit trail\<close>

text \<open>The columns that \<open>approvals_immutable\<close> protects; a consumption mark is set once and kept.\<close>

definition same_approval :: "approval_row \<Rightarrow> approval_row \<Rightarrow> bool" where
  "same_approval a b \<longleftrightarrow> ar_approval_id b = ar_approval_id a \<and> ar_request_id b = ar_request_id a
     \<and> ar_approval_json b = ar_approval_json a \<and> ar_received_at b = ar_received_at a
     \<and> (ar_consumed_at a \<noteq> None \<longrightarrow> ar_consumed_at b = ar_consumed_at a)"

definition approvals_kept :: "db \<Rightarrow> db \<Rightarrow> bool" where
  "approvals_kept d e \<longleftrightarrow>
     (\<forall>k a. approval_at k d = Some a \<longrightarrow> (\<exists>b. approval_at k e = Some b \<and> same_approval a b))"

definition events_kept :: "db \<Rightarrow> db \<Rightarrow> bool" where
  "events_kept d e \<longleftrightarrow> (\<exists>new. d_security_events e = d_security_events d @ new)"

definition approved_requests_follow :: "db \<Rightarrow> db \<Rightarrow> bool" where
  "approved_requests_follow d e \<longleftrightarrow>
     (\<forall>k r. request_at k d = Some r \<longrightarrow> approval_at k d \<noteq> None \<longrightarrow>
        (\<exists>r'. request_at k e = Some r' \<and> follows r r'))"

definition audit :: "db \<Rightarrow> db \<Rightarrow> bool" where
  "audit d e \<longleftrightarrow> approvals_kept d e \<and> events_kept d e \<and> approved_requests_follow d e"

lemma same_approval_trans: "same_approval a b \<Longrightarrow> same_approval b c \<Longrightarrow> same_approval a c"
  by (auto simp: same_approval_def)

lemma audit_trans: "audit d e \<Longrightarrow> audit e f \<Longrightarrow> audit d f"
proof -
  assume de: "audit d e" and ef: "audit e f"
  have "approvals_kept d f"
    using de ef unfolding audit_def approvals_kept_def by (blast intro: same_approval_trans)
  moreover have "events_kept d f"
    using de ef by (auto simp: audit_def events_kept_def)
  moreover have "approved_requests_follow d f"
    unfolding approved_requests_follow_def
  proof (intro allI impI)
    fix k r
    assume r: "request_at k d = Some r" and a: "approval_at k d \<noteq> None"
    obtain r' where r': "request_at k e = Some r'" "follows r r'"
      using de r a by (auto simp: audit_def approved_requests_follow_def)
    have "approval_at k e \<noteq> None"
      using de a by (auto simp: audit_def approvals_kept_def)
    then obtain r'' where "request_at k f = Some r''" "follows r' r''"
      using ef r' by (auto simp: audit_def approved_requests_follow_def)
    then show "\<exists>r''. request_at k f = Some r'' \<and> follows r r''"
      using r' follows_trans by blast
  qed
  ultimately show ?thesis by (simp add: audit_def)
qed

lemma approvals_kept_same: "d_approvals e = d_approvals d \<Longrightarrow> approvals_kept d e"
  by (auto simp: approvals_kept_def same_approval_def)

lemma approvals_kept_append: "d_approvals e = d_approvals d @ as \<Longrightarrow> approvals_kept d e"
  by (auto simp: approvals_kept_def same_approval_def lookup_by_append)

lemma approvals_kept_consumed:
  "d_approvals e = update_where (\<lambda>a. q a \<and> ar_consumed_at a = None) (\<lambda>a. a\<lparr>ar_consumed_at := Some at\<rparr>) (d_approvals d)
   \<Longrightarrow> approvals_kept d e"
  by (auto simp: approvals_kept_def same_approval_def lookup_by_update_where)

lemma events_kept_same: "d_security_events e = d_security_events d \<Longrightarrow> events_kept d e"
  by (auto simp: events_kept_def)

lemma events_kept_append: "d_security_events e = d_security_events d @ es \<Longrightarrow> events_kept d e"
  by (auto simp: events_kept_def)

lemma approved_requests_follow_weaken: "requests_follow d e \<Longrightarrow> approved_requests_follow d e"
  by (auto simp: requests_follow_def approved_requests_follow_def)

lemma auditI:
  "approvals_kept d e \<Longrightarrow> events_kept d e \<Longrightarrow> requests_follow d e \<Longrightarrow> audit d e"
  by (simp add: audit_def approved_requests_follow_weaken)

lemma lookup_filter_key:
  "k \<noteq> i \<Longrightarrow> lookup_by key k (filter (\<lambda>r. key r \<noteq> i) rows) = lookup_by key k rows"
  by (induction rows) auto

lemma audit_delete_request: "within audit (delete_request i)"
proof (rule withinI)
  fix d
  have "approved_requests_follow d (d\<lparr>d_requests := filter (\<lambda>r. rr_request_id r \<noteq> i) (d_requests d)\<rparr>)"
    if "i \<in> request_ids d \<longrightarrow> approval_at i d = None"
  proof -
    have "\<exists>r'. lookup_by rr_request_id k (filter (\<lambda>r. rr_request_id r \<noteq> i) (d_requests d)) = Some r' \<and> follows r r'"
      if "request_at k d = Some r" "approval_at k d \<noteq> None" for k r
    proof -
      have "k \<noteq> i"
        using that \<open>i \<in> request_ids d \<longrightarrow> _\<close> lookup_by_SomeD [OF that(1)] by auto
      then show ?thesis using that by (simp add: lookup_filter_key)
    qed
    then show ?thesis by (auto simp: approved_requests_follow_def)
  qed
  then show "audit d (snd (delete_request i d))"
    by (auto simp: delete_request_def audit_def approvals_kept_same events_kept_same lookup_by_None_iff
        approved_requests_follow_weaken)
qed

lemmas audit_simps = approvals_kept_same approvals_kept_append approvals_kept_consumed events_kept_same
  events_kept_append requests_follow_same requests_follow_append

interpretation trail: table_deletions audit
proof
  show "audit d d" for d
    by (intro auditI) (simp_all add: audit_simps)
  show "audit d f" if "audit d e" "audit e f" for d e f
    using that by (rule audit_trans)
  show "within audit (update_status nx p)" if "\<And>r. p r \<Longrightarrow> allowed (rr_status r) nx" for p nx
    using withinD [OF requests_follow_status [OF that]]
    by (intro withinI auditI) (auto simp: update_status_def audit_simps)
  show "within audit (update_output n flag rid)" if "0 \<le> n" for n flag rid
    using withinD [OF requests_follow_output [OF that]]
    by (intro withinI auditI) (auto simp: update_output_def audit_simps)
  show "within audit (update_consumed at rid)" for at rid
    by (intro withinI auditI) (auto simp: update_consumed_def audit_simps)
  show "within audit (delete_request k)" for k
    by (rule audit_delete_request)
qed (auto intro!: withinI auditI simp: audit_simps insert_request_def insert_approval_def
    insert_execution_def insert_chunk_def insert_event_def update_executions_def insert_server_state_def
    delete_server_state_def drop_table_def drop_host_id_def delete_chunks_def delete_executions_def
    state_upd_def)

end
