(* ===== verification/Store_Example.thy ===== *)
theory Store_Example
  imports Store_Invariants
begin

section \<open>A small database\<close>

text \<open>A request of user 1000 and a database that holds it in a given state, for the examples.\<close>

definition example_request :: execution_request where
  "example_request =
    \<lparr>er_Version = 1, er_RequestID = ''r1'',
     er_Requester = \<lparr>rq_UID = 1000, rq_GID = 1000, rq_PID = Some 7, rq_Username = Some ''ann'', rq_GroupName = None\<rparr>,
     er_Execution = \<lparr>ex_Executable = ''/bin/ls'', ex_Argv = [''-l''], ex_Cwd = ''/tmp'', ex_Env = []\<rparr>,
     er_ExecutableMetadata = \<lparr>fm_Path = ''/bin/ls'', fm_Device = Some 1, fm_Inode = Some 2, fm_Size = Some 3,
       fm_OwnerUID = Some 0, fm_Mode = Some 33261, fm_MtimeNS = Some ''5'', fm_CtimeNS = Some ''6'', fm_SHA256 = ''ab''\<rparr>,
     er_InterpreterMetadata = None, er_InterpreterArgument = None,
     er_WorkingDirectoryMetadata = \<lparr>wd_Path = ''/tmp'', wd_Device = 1, wd_Inode = 9, wd_OwnerUID = 0,
       wd_Mode = 17407, wd_MtimeNS = ''5'', wd_CtimeNS = ''6''\<rparr>,
     er_Risk = \<lparr>rk_Shell = False, rk_Interpreter = False, rk_Script = False, rk_EnvironmentOverrides = False,
       rk_Warnings = []\<rparr>,
     er_PolicyResult = ''require-approval'', er_Reason = ''list'', er_CreatedAt = ''2024-01-01T00:00:00Z'',
     er_ExpiresAt = ''2024-01-01T01:00:00Z'', er_Nonce = ''n''\<rparr>"

lemma valid_utf8_Cons_ascii: "byte c < 0x80 \<Longrightarrow> ascii s \<Longrightarrow> valid_utf8 (c # s)"
  by (rule valid_utf8_ascii) (simp add: ascii_def)

lemma example_request_valid: "valid_request example_request"
  by (simp add: valid_request_def example_request_def valid_requester_def valid_execution_def
      valid_file_metadata_def valid_working_directory_metadata_def valid_opt_def valid_strs_def
      valid_utf8_ascii ascii_def byte_def int64_range_def)

text \<open>An instance of the SQL functions: days as whole milliseconds, and the number in the member
  \<open>requester.uid\<close>.\<close>

definition example_sf :: sql_functions where
  "example_sf = \<lparr>sf_julianday = (\<lambda>t. map_option (\<lambda>n. n div 1000000) (parse_time t)),
     sf_requester_uid = (\<lambda>j. case member ''requester'' j of
        Some q \<Rightarrow> (case member ''uid'' q of Some (JNum n) \<Rightarrow> Some n | _ \<Rightarrow> None) | _ \<Rightarrow> None)\<rparr>"

definition example_row :: "req_status \<Rightarrow> request_row" where
  "example_row st = \<lparr>rr_request_id = ''r1'', rr_request_hash = ''h1'',
     rr_request_json = execution_request_json example_request, rr_status = st,
     rr_created_at = ''2024-01-01T00:00:00Z'', rr_expires_at = ''2024-01-01T01:00:00Z'',
     rr_output_bytes = 0, rr_output_truncated = 0\<rparr>"

definition example_approval :: approval where
  "example_approval = \<lparr>ap_Version = 1, ap_ApprovalID = ''a1'', ap_RequestID = ''r1'', ap_RequestHash = ''h1'',
     ap_Decision = ''approve'', ap_ApprovedBy = \<lparr>ab_Subject = ''uid:0'', ab_DisplayName = Some ''root''\<rparr>,
     ap_ApprovedAt = ''2024-01-01T00:01:00Z'', ap_Reason = ''''\<rparr>"

definition example_approval_row :: approval_row where
  "example_approval_row = \<lparr>ar_approval_id = ''a1'', ar_request_id = ''r1'',
     ar_approval_json = approval_json example_approval, ar_received_at = ''2024-01-01T00:01:00Z'',
     ar_consumed_at = None\<rparr>"

definition example_db :: "req_status \<Rightarrow> approval_row list \<Rightarrow> db" where
  "example_db st approvals = \<lparr>d_requests = [example_row st], d_approvals = approvals, d_executions = [],
     d_output_chunks = [], d_server_state = [(''local_only_v2'', ''enabled'')], d_security_events = [],
     d_legacy_tables = [], d_host_id_column = False\<rparr>"

definition example_store :: "req_status \<Rightarrow> approval_row list \<Rightarrow> store" where
  "example_store st approvals = \<lparr>st_db = example_db st approvals, st_maxBytes = 0, st_faults = []\<rparr>"

lemma example_store_simps [simp]:
  "st_faults (example_store st as) = []" "st_maxBytes (example_store st as) = 0"
  "st_db (example_store st as) = example_db st as"
  "d_approvals (example_db st as) = as" "d_executions (example_db st as) = []"
  "d_requests (example_db st as) = [example_row st]"
  "d_output_chunks (example_db st as) = []" "d_security_events (example_db st as) = []"
  "rr_status (example_row st) = st" "rr_request_id (example_row st) = ''r1''"
  "rr_request_hash (example_row st) = ''h1''" "ar_consumed_at example_approval_row = None"
  "ar_request_id example_approval_row = ''r1''"
  by (simp_all add: example_store_def example_db_def example_row_def example_approval_row_def)

lemma example_db_approvals [simp]: "(example_db st as)\<lparr>d_approvals := bs\<rparr> = example_db st bs"
  by (simp add: example_db_def)

lemma example_db_ok [simp]: "db_ok (example_db st [])" "db_ok (example_db st [example_approval_row])"
  by (simp_all add: db_ok_def example_db_def example_row_def example_approval_row_def int64_range_def)

lemma example_stored:
  "stored_of (example_row st) = Inr \<lparr>sr_Request = example_request, sr_RequestHash = ''h1'', sr_Status = st,
     sr_OutputBytes = 0, sr_OutputTruncated = False\<rparr>"
  by (simp add: stored_of_def example_row_def dec_execution_request_json example_request_valid)

lemma example_approval_well_formed [simp]: "approval_well_formed example_approval"
  "ap_RequestID example_approval = ''r1''" "ap_Decision example_approval = ''approve''"
  "ap_ApprovalID example_approval = ''a1''"
  by (simp_all add: approval_well_formed_def example_approval_def)

end
