(* ===== verification/Store_Props.thy ===== *)
theory Store_Props
  imports Store_Example
begin

section \<open>The behaviour of the store operations\<close>

text \<open>
  What each operation returns and leaves behind. Statements about success hold for any failures of
  the database; statements that an operation does succeed assume that no failure is to come
  (\<open>st_faults s = []\<close>). The last part runs arbitrary sequences of calls.
\<close>

subsection \<open>Reading and moving one request\<close>

abbreviation set_status :: "string \<Rightarrow> req_status \<Rightarrow> db \<Rightarrow> db" where
  "set_status k nx d \<equiv>
     d\<lparr>d_requests := update_where (\<lambda>r. rr_request_id r = k) (\<lambda>r. r\<lparr>rr_status := nx\<rparr>) (d_requests d)\<rparr>"

lemma request_at_set_status:
  "request_at j (set_status k nx d) =
     (if j = k then map_option (\<lambda>r. r\<lparr>rr_status := nx\<rparr>) (request_at j d) else request_at j d)"
  using lookup_by_SomeD [of rr_request_id j "d_requests d"]
  by (cases "request_at j d") (auto simp: lookup_by_update_where)

lemma stored_of_status [simp]: "stored_of r = Inr c \<Longrightarrow> sr_Status c = rr_status r"
  by (auto simp: stored_of_def res_bind_def split: sum.splits)

lemma stored_of_fields:
  "stored_of r = Inr c \<Longrightarrow> sr_RequestHash c = rr_request_hash r \<and> sr_OutputBytes c = rr_output_bytes r
     \<and> sr_OutputTruncated c = (rr_output_truncated r \<noteq> 0)
     \<and> dec_execution_request (rr_request_json r) = Inr (sr_Request c)"
  by (auto simp: stored_of_def res_bind_def split: sum.splits)

lemma getFrom_Inr:
  assumes "getFrom k s = (Inr c, t)"
  shows "st_db t = st_db s \<and> st_maxBytes t = st_maxBytes s \<and>
    (case request_at k (st_db s) of None \<Rightarrow> c = None | Some r \<Rightarrow> \<exists>x. stored_of r = Inr x \<and> c = Some x)"
  using assms unfolding getFrom_def
  by (auto simp: outcome_simps dest!: select_Inr split: option.splits)

lemma getFrom_quiet:
  "st_faults s = [] \<Longrightarrow> getFrom k s = (case request_at k (st_db s) of None \<Rightarrow> (Inr None, s)
     | Some r \<Rightarrow> (map_sum id Some (stored_of r), s))"
  by (auto simp: getFrom_def and_then_def select_quiet ret_def lift_res_def
      split: option.splits sum.splits)

lemma update_status_one:
  assumes "db_ok d" and "request_at k d = Some r"
  shows "update_status nx (\<lambda>x. rr_request_id x = k \<and> rr_status x = rr_status r) d = (Inr 1, set_status k nx d)"
proof -
  have d: "distinct (map rr_request_id (d_requests d))" using assms by (simp add: db_ok_def)
  have "rr_status x = rr_status r" if "x \<in> set (d_requests d)" "rr_request_id x = k" for x
    using lookup_by_distinct [OF d that(1)] that assms by simp
  then have "update_where (\<lambda>x. rr_request_id x = k \<and> rr_status x = rr_status r)
      (\<lambda>r. r\<lparr>rr_status := nx\<rparr>) (d_requests d) =
    update_where (\<lambda>x. rr_request_id x = k) (\<lambda>r. r\<lparr>rr_status := nx\<rparr>) (d_requests d)"
    by (auto simp: update_where_def)
  moreover have "rows_matching (\<lambda>x. rr_request_id x = k \<and> rr_status x = rr_status r) (d_requests d) = 1"
    using rows_matching_distinct [OF d, of k] assms by simp
  ultimately show ?thesis by (simp add: update_status_def)
qed

lemma transition_Inr:
  assumes "transition k nx ex s = (Inr u, t)" and "db_ok (st_db s)"
  obtains r c where "request_at k (st_db s) = Some r" "stored_of r = Inr c"
    "ex = None \<or> ex = Some (rr_status r)" "allowed (rr_status r) nx" "st_db t = set_status k nx (st_db s)"
proof -
  obtain co s1 where g: "getFrom k s = (Inr co, s1)"
    and step: "(case co of None \<Rightarrow> fail (Plain ''unknown request'')
       | Some c \<Rightarrow>
         if ex \<noteq> None \<and> Some (sr_Status c) \<noteq> ex
         then fail (Plain (''expected '' @ status_text (the ex) @ '', found '' @ status_text (sr_Status c)))
         else if nx \<notin> set (transitions (sr_Status c))
         then fail (Plain (''invalid transition '' @ status_text (sr_Status c) @ '' -> '' @ status_text nx))
         else and_then (stmt (update_status nx
                (\<lambda>r. rr_request_id r = k \<and> rr_status r = sr_Status c))) (\<lambda>changed.
              if changed \<noteq> 1 then fail (Plain ''concurrent state transition'') else ret ())) s1 = (Inr u, t)"
    using assms(1) unfolding transition_def and_then_Inr by blast
  obtain c where c: "co = Some c" using step by (cases co) (auto simp: outcome_simps)
  obtain r where r: "request_at k (st_db s) = Some r" "stored_of r = Inr c"
    using getFrom_Inr [OF g] c by (auto split: option.splits)
  have ex: "ex = None \<or> ex = Some (rr_status r)" "allowed (rr_status r) nx"
    using step c r by (auto simp: outcome_simps split: if_splits)
  then obtain n s2 where "stmt (update_status nx (\<lambda>x. rr_request_id x = k \<and> rr_status x = rr_status r)) s1 = (Inr n, s2)"
    "t = s2"
    using step c r by (auto simp: outcome_simps split: if_splits)
  then have "st_db t = set_status k nx (st_db s)"
    using stmt_Inr update_status_one [OF assms(2) r(1)] getFrom_Inr [OF g] by fastforce
  with r ex that show thesis by blast
qed

lemma transition_quiet:
  assumes "st_faults s = []" "db_ok (st_db s)" "request_at k (st_db s) = Some r" "stored_of r = Inr c"
    and "ex = None \<or> ex = Some (rr_status r)" "allowed (rr_status r) nx"
  shows "transition k nx ex s = (Inr (), s\<lparr>st_db := set_status k nx (st_db s)\<rparr>)"
  using assms update_status_one [OF assms(2,3), of nx]
  by (auto simp: transition_def and_then_def getFrom_quiet stmt_quiet ret_def)

text \<open>A transition succeeds exactly when the request exists and is readable, is in the expected
  state, and the table allows the move; then it changes that state and nothing else. A refused or
  failed transition leaves the database as it was.\<close>

lemma Transition_exact:
  assumes "db_ok (st_db s)" and "st_faults s = []"
  shows "(fst (Transition k nx ex s) = Inr () \<longleftrightarrow>
      (\<exists>r c. request_at k (st_db s) = Some r \<and> stored_of r = Inr c \<and>
         (ex = None \<or> ex = Some (rr_status r)) \<and> nx \<in> set (transitions (rr_status r))))
    \<and> st_db (snd (Transition k nx ex s)) =
        (if fst (Transition k nx ex s) = Inr () then set_status k nx (st_db s) else st_db s)"
proof -
  let ?T = "Transition k nx ex s"
  have fwd: "\<exists>r c. request_at k (st_db s) = Some r \<and> stored_of r = Inr c \<and>
      (ex = None \<or> ex = Some (rr_status r)) \<and> allowed (rr_status r) nx"
    and upd: "st_db (snd ?T) = set_status k nx (st_db s)" if "fst ?T = Inr ()"
  proof -
    have "transactionContext (transition k nx ex) s = (Inr (), snd ?T)"
      using that by (metis Transition_def transaction_def prod.collapse)
    then obtain s1 s2 where s12: "st_db s1 = st_db s" "transition k nx ex s1 = (Inr (), s2)"
      "st_db (snd ?T) = st_db s2"
      using transactionContext_InrD by blast
    obtain r c where "request_at k (st_db s1) = Some r" "stored_of r = Inr c"
      "ex = None \<or> ex = Some (rr_status r)" "allowed (rr_status r) nx" "st_db s2 = set_status k nx (st_db s1)"
      using transition_Inr [OF s12(2)] assms s12(1) by metis
    then show "\<exists>r c. request_at k (st_db s) = Some r \<and> stored_of r = Inr c \<and>
      (ex = None \<or> ex = Some (rr_status r)) \<and> allowed (rr_status r) nx"
      and "st_db (snd ?T) = set_status k nx (st_db s)"
      using s12 by auto
  qed
  moreover have "fst ?T = Inr ()"
    if "request_at k (st_db s) = Some r" "stored_of r = Inr c"
      "ex = None \<or> ex = Some (rr_status r)" "allowed (rr_status r) nx" for r c
    using transition_quiet [OF assms(2,1) that] assms
    by (simp add: Transition_def transaction_def transaction_quiet)
  moreover have "st_db (snd ?T) = st_db s" if "fst ?T \<noteq> Inr ()"
    using that transactionContext_Inl_db [of "transition k nx ex" s]
    by (cases "fst ?T") (auto simp: Transition_def transaction_def)
  ultimately show ?thesis by (auto 0 3)
qed

subsection \<open>Decisions\<close>

abbreviation approval_row_of :: "approval \<Rightarrow> nat \<Rightarrow> approval_row" where
  "approval_row_of a t \<equiv> \<lparr>ar_approval_id = ap_ApprovalID a, ar_request_id = ap_RequestID a,
     ar_approval_json = approval_json a, ar_received_at = now_text t, ar_consumed_at = None\<rparr>"

abbreviation decided_status :: "approval \<Rightarrow> req_status" where
  "decided_status a \<equiv> (if ap_Decision a = ''approve'' then Approved else Denied)"

lemma insert_approval_Inr:
  "insert_approval a d = (Inr u, e) \<longleftrightarrow>
     ar_approval_id a \<notin> ar_approval_id ` set (d_approvals d) \<and> approval_at (ar_request_id a) d = None
     \<and> ar_request_id a \<in> request_ids d \<and> e = d\<lparr>d_approvals := d_approvals d @ [a]\<rparr>"
  by (auto simp: insert_approval_def lookup_by_None_iff)

lemma AcceptApproval_Inr:
  assumes "AcceptApprovalContext a t s = (Inr u, s')" and ok: "db_ok (st_db s)"
  obtains r c where "approval_well_formed a" "request_at (ap_RequestID a) (st_db s) = Some r"
    "stored_of r = Inr c" "rr_status r = Waiting"
    "approval_at (ap_RequestID a) (st_db s) = None"
    "st_db s' = set_status (ap_RequestID a) (decided_status a)
       ((st_db s)\<lparr>d_approvals := d_approvals (st_db s) @ [approval_row_of a t]\<rparr>)"
proof -
  let ?k = "ap_RequestID a" and ?d = "st_db s"
  let ?e = "?d\<lparr>d_approvals := d_approvals ?d @ [approval_row_of a t]\<rparr>"
  have wf: "approval_well_formed a"
    using assms(1) by (auto simp: AcceptApprovalContext_def outcome_simps split: if_splits)
  then obtain s1 s2 s3 where s: "st_db s1 = ?d" "stmt (insert_approval (approval_row_of a t)) s1 = (Inr (), s2)"
    "transition ?k (decided_status a) (Some Waiting) s2 = (Inr (), s3)" "st_db s' = st_db s3"
    using assms(1) by (auto simp: AcceptApprovalContext_def outcome_simps dest!: transactionContext_InrD)
  have ins: "insert_approval (approval_row_of a t) ?d = (Inr (), st_db s2)"
    using stmt_Inr [OF s(2)] s(1) by simp
  then have s2: "st_db s2 = ?e" "approval_at ?k ?d = None"
    by (simp_all add: insert_approval_Inr)
  have "db_ok (st_db s2)"
    using ok withinD [OF ok.insert_approval_eff, of "approval_row_of a t" ?d] ins
    by (simp add: db_inv_def)
  then obtain r c where "request_at ?k (st_db s2) = Some r" "stored_of r = Inr c" "Some Waiting = Some (rr_status r)"
      "st_db s3 = set_status ?k (decided_status a) (st_db s2)"
    using transition_Inr [OF s(3)] by (metis option.discI)
  with that wf s2 s show thesis by simp
qed

lemma AcceptApproval_result:
  assumes "db_ok (st_db s)"
  shows "case AcceptApprovalContext a t s of
      (Inl e, s') \<Rightarrow> st_db s' = st_db s
    | (Inr _, s') \<Rightarrow> approval_well_formed a
        \<and> map_option rr_status (request_at (ap_RequestID a) (st_db s)) = Some Waiting
        \<and> approval_at (ap_RequestID a) (st_db s) = None
        \<and> st_db s' = set_status (ap_RequestID a) (decided_status a)
            ((st_db s)\<lparr>d_approvals := d_approvals (st_db s) @ [approval_row_of a t]\<rparr>)"
proof (cases "AcceptApprovalContext a t s")
  case (Pair r s')
  show ?thesis
  proof (cases r)
    case (Inl e)
    then have "st_db s' = st_db s"
      using Pair by (auto simp: AcceptApprovalContext_def outcome_simps split: if_splits
          dest: transactionContext_InlD)
    with Pair Inl show ?thesis by simp
  next
    case (Inr u)
    with Pair have acc: "AcceptApprovalContext a t s = (Inr u, s')" by simp
    show ?thesis
      by (rule AcceptApproval_Inr [OF acc assms]) (simp add: acc)
  qed
qed


lemma example_accepts:
  "\<exists>s'. AcceptApprovalContext example_approval 0 (example_store Waiting []) = (Inr (), s')"
proof -
  let ?s = "example_store Waiting []"
  let ?d = "example_db Waiting [approval_row_of example_approval 0]"
  have ins: "insert_approval (approval_row_of example_approval 0) (example_db Waiting []) = (Inr (), ?d)"
    by (simp add: insert_approval_Inr)
  have "db_ok ?d"
    using withinD [OF ok.insert_approval_eff [of "approval_row_of example_approval 0"], of "example_db Waiting []"] ins
    by (simp add: db_inv_def)
  then have "fst (AcceptApprovalContext example_approval 0 ?s) = Inr ()"
    using ins transition_quiet [of "?s\<lparr>st_db := ?d\<rparr>" "''r1''" "example_row Waiting" _ "Some Waiting" Approved]
    by (simp add: AcceptApprovalContext_def transaction_quiet and_then_def stmt_quiet example_stored)
  then show ?thesis by (metis prod.collapse)
qed


subsection \<open>Executions\<close>

lemma insert_execution_Inr:
  "insert_execution x d = (Inr u, e) \<longleftrightarrow>
     execution_at (xr_request_id x) d = None \<and> xr_request_id x \<in> request_ids d
     \<and> e = d\<lparr>d_executions := d_executions d @ [x]\<rparr>"
  by (auto simp: insert_execution_def lookup_by_None_iff)

lemma update_consumed_one:
  assumes "db_ok d" and "update_consumed at k d = (Inr 1, e)"
  shows "\<exists>a. approval_at k d = Some a \<and> ar_consumed_at a = None \<and>
    approval_at k e = Some (a\<lparr>ar_consumed_at := Some at\<rparr>)"
proof -
  have d: "distinct (map ar_request_id (d_approvals d))" using assms by (simp add: db_ok_def)
  have "rows_matching (\<lambda>a. ar_request_id a = k \<and> ar_consumed_at a = None) (d_approvals d) = 1"
    using assms by (simp add: update_consumed_def)
  then obtain a where a: "approval_at k d = Some a" "ar_consumed_at a = None"
    using rows_matching_distinct [OF d, of k] by (auto split: option.splits if_splits)
  moreover have "ar_request_id a = k" using lookup_by_SomeD [OF a(1)] by simp
  ultimately show ?thesis
    using assms by (auto simp: update_consumed_def lookup_by_update_where)
qed

text \<open>What a successful start of an approved request found and left.\<close>

lemma BeginExecution_Approved:
  assumes "BeginExecution k Approved t1 t2 s = (Inr u, s')" and ok: "db_ok (st_db s)"
  obtains r a where "request_at k (st_db s) = Some r" "rr_status r = Approved"
    "approval_at k (st_db s) = Some a" "ar_consumed_at a = None" "execution_at k (st_db s) = None"
    "request_at k (st_db s') = Some (r\<lparr>rr_status := Executing\<rparr>)"
    "approval_at k (st_db s') = Some (a\<lparr>ar_consumed_at := Some (now_text t2)\<rparr>)"
    "execution_at k (st_db s') \<noteq> None"
proof -
  let ?x = "\<lparr>xr_request_id = k, xr_started_at = now_text t1, xr_finished_at = None,
        xr_exit_code = None, xr_signal = None\<rparr>"
  obtain s1 s2 s3 s4 where s: "st_db s1 = st_db s" "transition k Executing (Some Approved) s1 = (Inr (), s2)"
    "stmt (insert_execution ?x) s2 = (Inr (), s3)" "stmt (update_consumed (now_text t2) k) s3 = (Inr 1, s4)"
    "st_db s' = st_db s4"
    using assms(1) unfolding BeginExecution_def transaction_def
    by (auto simp: outcome_simps dest!: transactionContext_InrD split: if_splits)
  obtain r where r: "request_at k (st_db s) = Some r" "rr_status r = Approved"
    "st_db s2 = set_status k Executing (st_db s)"
    using transition_Inr [OF s(2)] ok s(1) by (metis option.discI option.inject)
  have x: "insert_execution ?x (st_db s2) = (Inr (), st_db s3)" using stmt_Inr [OF s(3)] by simp
  then have s3: "st_db s3 = (st_db s2)\<lparr>d_executions := d_executions (st_db s2) @ [?x]\<rparr>"
    "execution_at k (st_db s) = None"
    using r by (simp_all add: insert_execution_Inr)
  have u: "update_consumed (now_text t2) k (st_db s3) = (Inr 1, st_db s4)" using stmt_Inr [OF s(4)] by simp
  have "db_ok (st_db s3)"
    using ok withinD [OF ok.transition_within [of k Executing "Some Approved"], of s1] s x
      withinD [OF ok.insert_execution_eff [of ?x], of "st_db s2"]
    by (simp add: db_inv_def on_db_def)
  then obtain a where a: "approval_at k (st_db s3) = Some a" "ar_consumed_at a = None"
    "approval_at k (st_db s4) = Some (a\<lparr>ar_consumed_at := Some (now_text t2)\<rparr>)"
    using update_consumed_one [OF _ u] by auto
  have s4: "d_requests (st_db s4) = d_requests (st_db s3)" "d_executions (st_db s4) = d_executions (st_db s3)"
    using arg_cong [OF u, of snd] by (auto simp: update_consumed_def dest: sym)
  show thesis
  proof (rule that [of r a])
    show "approval_at k (st_db s) = Some a" using a r s3 by simp
    show "request_at k (st_db s') = Some (r\<lparr>rr_status := Executing\<rparr>)"
      using request_at_set_status [of k k Executing "st_db s"] s(5) s4 s3 r by simp
    show "execution_at k (st_db s') \<noteq> None"
      using s(5) s4 s3 by (auto simp: lookup_by_append split: option.splits)
  qed (use r a s s3 in auto)
qed

lemma BeginExecution_starts:
  assumes q: "st_faults s = []" and ok: "db_ok (st_db s)"
    and r: "request_at k (st_db s) = Some r" "stored_of r = Inr c" "rr_status r = Approved"
    and a: "approval_at k (st_db s) = Some a" "ar_consumed_at a = None" and x: "execution_at k (st_db s) = None"
  shows "fst (BeginExecution k Approved t1 t2 s) = Inr ()"
proof -
  let ?x = "\<lparr>xr_request_id = k, xr_started_at = now_text t1, xr_finished_at = None,
        xr_exit_code = None, xr_signal = None\<rparr>"
  let ?d = "set_status k Executing (st_db s)"
  let ?e = "?d\<lparr>d_executions := d_executions ?d @ [?x]\<rparr>"
  have mv: "transition k Executing (Some Approved) s = (Inr (), s\<lparr>st_db := ?d\<rparr>)"
    using transition_quiet [OF q ok r(1,2), of "Some Approved" Executing] r by simp
  have "k \<in> request_ids ?d"
    using lookup_by_SomeD [OF r(1)] by (auto simp: image_update_where)
  then have "insert_execution ?x ?d = (Inr (), ?e)"
    using x by (simp add: insert_execution_Inr)
  then have ins: "stmt (insert_execution ?x) (s\<lparr>st_db := ?d\<rparr>) = (Inr (), s\<lparr>st_db := ?e\<rparr>)"
    using q by (simp add: stmt_quiet)
  have "distinct (map ar_request_id (d_approvals ?e))" using ok by (simp add: db_ok_def)
  then have "\<exists>f. update_consumed (now_text t2) k ?e = (Inr 1, f)"
    using rows_matching_distinct [of ar_request_id "d_approvals ?e" k] a by (simp add: update_consumed_def)
  then obtain f where "stmt (update_consumed (now_text t2) k) (s\<lparr>st_db := ?e\<rparr>) = (Inr 1, s\<lparr>st_db := f\<rparr>)"
    using q by (auto simp: stmt_quiet)
  with mv ins q show ?thesis
    by (simp add: BeginExecution_def transaction_def transaction_quiet and_then_def ret_def)
qed



text \<open>The end of an execution.\<close>

lemma FinishExecution_Inr:
  assumes "FinishExecution k exitCode signal t s = (Inr u, s')" and ok: "db_ok (st_db s)"
  obtains r where "request_at k (st_db s) = Some r" "rr_status r = Executing"
    "request_at k (st_db s') = Some (r\<lparr>rr_status := (if exitCode = Some 0 then Succeeded else Failed)\<rparr>)"
    "execution_at k (st_db s') = map_option (\<lambda>x. x\<lparr>xr_finished_at := Some (now_text t),
       xr_exit_code := exitCode, xr_signal := nullable signal\<rparr>) (execution_at k (st_db s))"
proof -
  let ?nx = "if exitCode = Some 0 then Succeeded else Failed"
  let ?f = "\<lambda>x. x\<lparr>xr_finished_at := Some (now_text t), xr_exit_code := exitCode, xr_signal := nullable signal\<rparr>"
  obtain s1 s2 s3 n where s: "st_db s1 = st_db s" "transition k ?nx (Some Executing) s1 = (Inr (), s2)"
    "stmt (update_executions (\<lambda>x. xr_request_id x = k) ?f) s2 = (Inr n, s3)" "st_db s' = st_db s3"
    using assms(1) unfolding FinishExecution_def transaction_def
    by (auto simp: outcome_simps dest!: transactionContext_InrD)
  obtain r where r: "request_at k (st_db s) = Some r" "rr_status r = Executing"
    "st_db s2 = set_status k ?nx (st_db s)"
    using transition_Inr [OF s(2)] ok s(1) by (metis option.discI option.inject)
  have s3: "st_db s3 = (st_db s2)\<lparr>d_executions := update_where (\<lambda>x. xr_request_id x = k) ?f (d_executions (st_db s2))\<rparr>"
    using stmt_Inr [OF s(3)] by (simp add: update_executions_def)
  have "request_at k (st_db s') = Some (r\<lparr>rr_status := ?nx\<rparr>)"
    using request_at_set_status [of k k ?nx "st_db s"] s s3 r by simp
  moreover have "execution_at k (st_db s') = map_option ?f (execution_at k (st_db s))"
    using s s3 r lookup_by_SomeD [of xr_request_id k "d_executions (st_db s)"]
    by (cases "execution_at k (st_db s)") (auto simp: lookup_by_update_where)
  ultimately show thesis using that r by blast
qed

text \<open>Recording the end of an execution succeeds only for an executing request; it ends as
  succeeded exactly for exit code zero and as failed otherwise, with the exit code, the signal and the
  time in the execution row, and a failing call changes nothing.\<close>

theorem FinishExecution_outcome:
  assumes "db_ok (st_db s)"
  shows "case FinishExecution k exitCode signal t s of
      (Inl e, s') \<Rightarrow> st_db s' = st_db s
    | (Inr _, s') \<Rightarrow> map_option rr_status (request_at k (st_db s)) = Some Executing
        \<and> map_option rr_status (request_at k (st_db s')) = Some (if exitCode = Some 0 then Succeeded else Failed)
        \<and> execution_at k (st_db s') = map_option (\<lambda>x. x\<lparr>xr_finished_at := Some (now_text t),
             xr_exit_code := exitCode, xr_signal := nullable signal\<rparr>) (execution_at k (st_db s))"
proof (cases "FinishExecution k exitCode signal t s")
  case (Pair r s')
  show ?thesis
  proof (cases r)
    case (Inl e)
    then show ?thesis
      using Pair transactionContext_InlD by (auto simp: FinishExecution_def transaction_def)
  next
    case (Inr u)
    with Pair have f: "FinishExecution k exitCode signal t s = (Inr u, s')" by simp
    show ?thesis by (rule FinishExecution_Inr [OF f assms]) (simp add: f)
  qed
qed

theorem FinishExecution_outcome_witness:
  "fst (FinishExecution ''r1'' (Some 1) [] 5 (example_store Executing [])) = Inr ()
   \<and> map_option rr_status (request_at ''r1'' (st_db (snd (FinishExecution ''r1'' (Some 1) [] 5 (example_store Executing [])))))
      = Some Failed"
proof -
  have "fst (FinishExecution ''r1'' (Some 1) [] 5 (example_store Executing [])) = Inr ()"
    using transition_quiet [of "example_store Executing []" "''r1''" "example_row Executing" _ "Some Executing" Failed]
    by (simp add: FinishExecution_def transaction_def transaction_quiet and_then_def stmt_quiet ret_def
        update_executions_def example_stored)
  then show ?thesis
    using FinishExecution_outcome [of "example_store Executing []" "''r1''" "Some 1" "[]" 5]
    by (cases "FinishExecution ''r1'' (Some 1) [] 5 (example_store Executing [])") simp
qed

end
