(* ===== verification/Store_Calls.thy ===== *)
theory Store_Calls
  imports Store_Props
begin

section \<open>Histories of store calls\<close>

text \<open>
  Any sequence of calls of the store's exported methods, with any arguments and any database
  failures. \<open>CallOpen\<close> is a restart of the daemon on the same database.
\<close>

datatype store_call =
    CallOpen nat nat
  | CallSetMaxBytes int
  | CallCreate "int option list" execution_request string
  | CallGet string
  | CallTransition string req_status "req_status option"
  | CallPending nat
  | CallRecentPending nat int u32 bool
  | CallRecent int u32 bool
  | CallByStatuses "req_status list"
  | CallOutstandingCounts u32
  | CallExpireOutstanding nat
  | CallApprovalFor string
  | CallAcceptApproval approval nat
  | CallBeginExecution string req_status nat nat
  | CallFinishExecution string "int option" string nat
  | CallExecution string
  | CallAppendOutput "int option list" string u64 string bytes int
  | CallOutputAfter string u64 int
  | CallPruneUnapproved int int
  | CallRecordSecurityEvent string string string string nat

fun run_call :: "sql_functions \<Rightarrow> store_call \<Rightarrow> store \<Rightarrow> store" where
  "run_call sf (CallOpen t1 t2) s = snd (Open t1 t2 s)"
| "run_call sf (CallSetMaxBytes n) s = snd (SetMaxBytes n s)"
| "run_call sf (CallCreate sizes request hash) s = snd (Create sizes request hash s)"
| "run_call sf (CallGet k) s = snd (Get k s)"
| "run_call sf (CallTransition k nx ex) s = snd (Transition k nx ex s)"
| "run_call sf (CallPending t) s = snd (Pending sf t s)"
| "run_call sf (CallRecentPending t limit uid allUsers) s = snd (RecentPending sf t limit uid allUsers s)"
| "run_call sf (CallRecent limit uid allUsers) s = snd (Recent sf limit uid allUsers s)"
| "run_call sf (CallByStatuses statuses) s = snd (byStatuses statuses s)"
| "run_call sf (CallOutstandingCounts uid) s = snd (OutstandingCounts sf uid s)"
| "run_call sf (CallExpireOutstanding t) s = snd (ExpireOutstanding sf t s)"
| "run_call sf (CallApprovalFor k) s = snd (ApprovalFor k s)"
| "run_call sf (CallAcceptApproval a t) s = snd (AcceptApprovalContext a t s)"
| "run_call sf (CallBeginExecution k ex t1 t2) s = snd (BeginExecution k ex t1 t2 s)"
| "run_call sf (CallFinishExecution k exitCode signal t) s = snd (FinishExecution k exitCode signal t s)"
| "run_call sf (CallExecution k) s = snd (Execution k s)"
| "run_call sf (CallAppendOutput sizes k sequence stream data limit) s =
    snd (AppendOutput sizes k sequence stream data limit s)"
| "run_call sf (CallOutputAfter k after n) s = snd (OutputAfter k after n s)"
| "run_call sf (CallPruneUnapproved olderThan retain) s = snd (PruneUnapproved olderThan retain s)"
| "run_call sf (CallRecordSecurityEvent ty k hash detail t) s = snd (RecordSecurityEvent ty k hash detail t s)"

definition run_calls :: "sql_functions \<Rightarrow> store_call list \<Rightarrow> store \<Rightarrow> store" where
  "run_calls sf calls s = fold (run_call sf) calls s"

lemma run_calls_simps [simp]:
  "run_calls sf [] s = s" "run_calls sf (c # cs) s = run_calls sf cs (run_call sf c s)"
  by (simp_all add: run_calls_def)

fun is_prune :: "store_call \<Rightarrow> bool" where
  "is_prune (CallPruneUnapproved _ _) = True"
| "is_prune _ = False"

fun is_create :: "store_call \<Rightarrow> bool" where
  "is_create (CallCreate _ _ _) = True"
| "is_create _ = False"

fun is_append :: "store_call \<Rightarrow> bool" where
  "is_append (CallAppendOutput _ _ _ _ _ _) = True"
| "is_append _ = False"

text \<open>The calls as the daemon makes them: it leaves deciding to \<open>AcceptApprovalContext\<close> and starting to
  \<open>BeginExecution\<close>, which it calls only for approved requests.\<close>

fun daemon_call :: "store_call \<Rightarrow> bool" where
  "daemon_call (CallTransition k nx ex) \<longleftrightarrow> nx \<notin> {Approved, Denied, Executing}"
| "daemon_call (CallBeginExecution k ex t1 t2) \<longleftrightarrow> ex = Approved"
| "daemon_call _ \<longleftrightarrow> True"

context table_effect
begin

lemma on_db_effect: "within (on_db Q) m \<Longrightarrow> Q (st_db s) (st_db (snd (m s)))"
  by (simp add: within_def on_db_def)

lemma Open_effect:
  assumes "within (on_db Q) (recoverInterrupted t1)" "within (on_db Q) (migrateLocalOnly t2)"
  shows "Q (st_db s) (st_db (snd (Open t1 t2 s)))"
proof -
  have "within (on_db Q) (and_then (stmt (ret ())) (\<lambda>_.
     and_then (recoverInterrupted t1) (\<lambda>_. migrateLocalOnly t2)))"
    by (intro op_effects assms) (simp add: within_def ret_def tab_refl)
  then have "on_db Q (s\<lparr>st_maxBytes := 0\<rparr>) (snd (Open t1 t2 s))"
    using withinD by (fastforce simp: Open_def SetMaxBytes_def state_upd_def and_then_def [of "\<lambda>s. (Inr (), _ s)"])
  then show ?thesis by (simp add: on_db_def)
qed

end

context table_writes
begin

lemma Open_keeps: "Q (st_db s) (st_db (snd (Open t1 t2 s)))"
  by (rule Open_effect [OF recoverInterrupted_within migrateLocalOnly_within])

lemma write_call_effect: "\<not> is_prune c \<Longrightarrow> \<not> is_create c \<Longrightarrow> \<not> is_append c \<Longrightarrow>
    Q (st_db s) (st_db (run_call sf c s))"
  by (cases c)
    (auto intro!: on_db_effect Open_keeps write_ops_within Pending_within byStatuses_within
      simp: SetMaxBytes_def state_upd_def tab_refl)

end

context table_updates
begin

lemma update_call_effect: "\<not> is_prune c \<Longrightarrow> \<not> is_create c \<Longrightarrow> Q (st_db s) (st_db (run_call sf c s))"
  using write_call_effect [of c s sf] on_db_effect [OF AppendOutput_within] by (cases c) auto

end

context silent_statements
begin

lemma silent_call_effect: "\<not> is_append c \<Longrightarrow> Q (st_db s) (st_db (run_call sf c s))"
  using write_call_effect [of c s sf] on_db_effect [OF Create_within] on_db_effect [OF PruneUnapproved_within]
  by (cases c) auto

end

context table_statements
begin

lemma run_call_effect: "\<not> is_prune c \<Longrightarrow> Q (st_db s) (st_db (run_call sf c s))"
  using update_call_effect [of c s sf] on_db_effect [OF Create_within] by (cases c) auto

lemma run_calls_effect: "list_all (\<lambda>c. \<not> is_prune c) cs \<Longrightarrow> Q (st_db s) (st_db (run_calls sf cs s))"
  by (induction cs arbitrary: s) (auto simp: tab_refl intro: tab_trans run_call_effect)

end

context row_deletions
begin

lemma kept_call_effect: "\<not> is_create c \<Longrightarrow> Q (st_db s) (st_db (run_call sf c s))"
  using update_call_effect [of c s sf] on_db_effect [OF PruneUnapproved_within] by (cases c) auto

lemma kept_calls_effect: "list_all (\<lambda>c. \<not> is_create c) cs \<Longrightarrow> Q (st_db s) (st_db (run_calls sf cs s))"
  by (induction cs arbitrary: s) (auto simp: tab_refl intro: tab_trans kept_call_effect)

end

context table_deletions
begin

lemma any_call_effect: "Q (st_db s) (st_db (run_call sf c s))"
  using run_call_effect [of c s sf] kept_call_effect [of c s sf] by (cases c) auto

lemma any_calls_effect: "Q (st_db s) (st_db (run_calls sf cs s))"
  by (induction cs arbitrary: s) (auto simp: tab_refl intro: tab_trans any_call_effect)

end

text \<open>(C16) Keys stay unique, references stay valid and counters stay in range under every sequence of
  store calls, restarts and failures included.\<close>

theorem calls_keep_tables:
  assumes "db_ok (st_db s)"
  shows "db_ok (st_db (run_calls sf calls s))"
  using assms ok.any_calls_effect [of s sf calls] by (simp add: db_inv_def)

text \<open>(C15) The audit trail only grows. Under every sequence of calls, every approval row stays with
  the same decision, its consumption mark is never cleared or changed, its request is never deleted
  and keeps its hash, content and times, moving only along the transition table, and the security
  events are extended at the end.\<close>

theorem calls_keep_audit_trail: "audit (st_db s) (st_db (run_calls sf calls s))"
  by (rule trail.any_calls_effect)

theorem calls_keep_tables_witness:
  "db_ok (st_db (run_calls example_sf [CallOpen 0 1, CallExpireOutstanding 2, CallPruneUnapproved 3 4]
     (example_store Waiting [])))"
  by (rule calls_keep_tables) simp

subsection \<open>One decision, one execution\<close>

lemma consumed_stays:
  assumes "approval_at k (st_db s) = Some a" and "ar_consumed_at a \<noteq> None"
  shows "\<exists>b. approval_at k (st_db (run_calls sf calls s)) = Some b \<and> ar_consumed_at b = ar_consumed_at a"
  using trail.any_calls_effect [of s sf calls] assms
  by (auto simp: audit_def approvals_kept_def same_approval_def)

text \<open>(C11) An approval is consumed once. After a successful start of an approved request, no start of
  that request succeeds again, whatever calls, restarts and failures lie between.\<close>

theorem approval_consumed_once:
  assumes "db_ok (st_db s)" and "BeginExecution k Approved t1 t2 s = (Inr (), s1)"
  shows "fst (BeginExecution k Approved t3 t4 (run_calls sf calls s1)) \<noteq> Inr ()"
proof
  let ?s2 = "run_calls sf calls s1"
  assume "fst (BeginExecution k Approved t3 t4 ?s2) = Inr ()"
  then have again: "BeginExecution k Approved t3 t4 ?s2 = (Inr (), snd (BeginExecution k Approved t3 t4 ?s2))"
    by (metis prod.collapse)
  have "db_ok (st_db s1)"
    using withinD [OF ok.BeginExecution_within, of s k Approved t1 t2] assms
    by (simp add: on_db_def db_inv_def)
  then have ok2: "db_ok (st_db ?s2)"
    using ok.any_calls_effect [of s1 sf calls] by (simp add: db_inv_def)
  obtain a where "approval_at k (st_db s1) = Some a" "ar_consumed_at a \<noteq> None"
    by (rule BeginExecution_Approved [OF assms(2,1)]) auto
  then obtain b where "approval_at k (st_db ?s2) = Some b" "ar_consumed_at b \<noteq> None"
    using consumed_stays by metis
  then show False
    by (auto intro: BeginExecution_Approved [OF again ok2])
qed

lemma example_begins:
  "\<exists>s1. BeginExecution ''r1'' Approved 1 2 (example_store Approved [example_approval_row]) = (Inr (), s1)"
  using BeginExecution_starts [of "example_store Approved [example_approval_row]" "''r1''" "example_row Approved"]
  by (metis example_db_ok(2) example_store_simps example_stored lookup_by_Cons lookup_by_Nil prod.collapse)

theorem approval_consumed_once_witness:
  "fst (BeginExecution ''r1'' Approved 5 6 (run_calls example_sf [CallOpen 3 4]
     (snd (BeginExecution ''r1'' Approved 1 2 (example_store Approved [example_approval_row]))))) \<noteq> Inr ()"
proof -
  obtain s1 where "BeginExecution ''r1'' Approved 1 2 (example_store Approved [example_approval_row]) = (Inr (), s1)"
    using example_begins by blast
  then show ?thesis
    using approval_consumed_once [of "example_store Approved [example_approval_row]" "''r1''" 1 2 s1 5 6 example_sf "[CallOpen 3 4]"]
    by simp
qed

text \<open>(C14) A request is decided once. After a decision was accepted, no decision on the same request is
  accepted again, whatever happens in between.\<close>

theorem one_decision_per_request:
  assumes "db_ok (st_db s)" and "AcceptApprovalContext a t s = (Inr (), s1)"
    and "ap_RequestID b = ap_RequestID a"
  shows "fst (AcceptApprovalContext b u (run_calls sf calls s1)) \<noteq> Inr ()"
proof
  let ?s2 = "run_calls sf calls s1" and ?k = "ap_RequestID a"
  assume "fst (AcceptApprovalContext b u ?s2) = Inr ()"
  then have again: "AcceptApprovalContext b u ?s2 = (Inr (), snd (AcceptApprovalContext b u ?s2))"
    by (metis prod.collapse)
  have "db_ok (st_db s1)"
    using withinD [OF ok.AcceptApprovalContext_within, of s a t] assms by (simp add: on_db_def db_inv_def)
  then have ok2: "db_ok (st_db ?s2)"
    using ok.any_calls_effect [of s1 sf calls] by (simp add: db_inv_def)
  have "approval_at ?k (st_db s1) \<noteq> None"
    by (rule AcceptApproval_Inr [OF assms(2,1)]) (simp add: lookup_by_append)
  then have "approval_at ?k (st_db ?s2) \<noteq> None"
    using trail.any_calls_effect [of s1 sf calls] by (auto simp: audit_def approvals_kept_def)
  moreover have "approval_at (ap_RequestID b) (st_db ?s2) = None"
    by (rule AcceptApproval_Inr [OF again ok2])
  ultimately show False using assms(3) by simp
qed

theorem one_decision_per_request_witness:
  "fst (AcceptApprovalContext (example_approval\<lparr>ap_ApprovalID := ''a2'', ap_Decision := ''deny''\<rparr>) 9
     (run_calls example_sf [CallOpen 3 4] (snd (AcceptApprovalContext example_approval 0 (example_store Waiting []))))) \<noteq> Inr ()"
  using example_accepts one_decision_per_request [of "example_store Waiting []" example_approval 0 _
      "example_approval\<lparr>ap_ApprovalID := ''a2'', ap_Decision := ''deny''\<rparr>" 9 example_sf "[CallOpen 3 4]"]
  by (force simp: example_approval_def)

subsection \<open>Final states\<close>

lemma terminal_no_successor: "Terminal a \<Longrightarrow> transitions a = []"
  by (cases a) simp_all

lemma terminal_path: "allowed\<^sup>*\<^sup>* a b \<Longrightarrow> Terminal a \<Longrightarrow> b = a"
  by (induction rule: converse_rtranclp_induct) (auto simp: terminal_no_successor)

text \<open>(C17) A finished request stays finished: once a request is in a terminal state, no sequence of calls
  other than retention changes its state, its hash or its content.\<close>

theorem terminal_states_final:
  assumes "request_at k (st_db s) = Some r" and "Terminal (rr_status r)"
    and "list_all (\<lambda>c. \<not> is_prune c) calls"
  shows "\<exists>r'. request_at k (st_db (run_calls sf calls s)) = Some r' \<and> rr_status r' = rr_status r
    \<and> same_request r r'"
  using moves.run_calls_effect [OF assms(3), of s sf] assms
  by (auto simp: requests_follow_def follows_def dest!: terminal_path)

theorem terminal_states_final_witness:
  "\<exists>r'. request_at ''r1'' (st_db (run_calls example_sf [CallOpen 0 1, CallTransition ''r1'' Approved None]
      (example_store Denied []))) = Some r' \<and> rr_status r' = Denied"
  using terminal_states_final [of "''r1''" "example_store Denied []" "example_row Denied"
      "[CallOpen 0 1, CallTransition ''r1'' Approved None]" example_sf]
  by auto

end
