(* ===== verification/Store_Output.thy ===== *)
theory Store_Output
  imports Store_Calls "HOL-Library.Sublist"
begin

section \<open>Captured output\<close>

text \<open>\<open>AppendOutput\<close> keeps a prefix of what a process writes, up to the configured cap, and counts it;
  \<open>OutputAfter\<close> serves the stored chunks page by page, and the pages join up to the whole.\<close>

subsection \<open>Storing\<close>

lemma kept_output_prefix: "prefix (kept_output sizes m used limit data) data"
  by (auto simp: kept_output_def Let_def take_is_prefix)

lemma kept_output_bound:
  assumes "0 \<le> used" "used \<le> limit" "int64_range limit"
  shows "used + int (length (kept_output sizes m used limit data)) \<le> limit"
proof -
  have "wrap64 (limit - used) = limit - used"
    using assms by (intro wrap64_id) (simp add: int64_range_def)
  then show ?thesis using assms by (auto simp: kept_output_def Let_def)
qed

lemma kept_output_whole:
  assumes "0 \<le> used" "used + int (length data) \<le> limit" "int64_range limit" "m \<le> 0"
  shows "kept_output sizes m used limit data = data"
proof -
  have "wrap64 (limit - used) = limit - used"
    using assms by (intro wrap64_id) (simp add: int64_range_def)
  then show ?thesis using assms by (auto simp: kept_output_def Let_def hasCapacity_def)
qed

definition stored_bytes :: "string \<Rightarrow> db \<Rightarrow> int" where
  "stored_bytes k d = (\<Sum>c \<leftarrow> filter (\<lambda>c. cr_request_id c = k) (d_output_chunks d). int (length (cr_data c)))"

lemma AppendOutput_Inr:
  assumes "AppendOutput sizes k sequence stream data limit s = (Inr (tr, stored), s')"
  obtains (truncated) r where "request_at k (st_db s) = Some r" "rr_output_truncated r \<noteq> 0" "tr" "stored = []"
      "st_db s' = st_db s"
  | (appended) r where "request_at k (st_db s) = Some r" "rr_output_truncated r = 0"
      "stored = kept_output sizes (st_maxBytes s) (rr_output_bytes r) limit data"
      "tr = (length stored < length data)"
      "d_output_chunks (st_db s') = d_output_chunks (st_db s) @ (if stored = [] then [] else
         [\<lparr>cr_request_id = k, cr_sequence = uint sequence, cr_stream = stream, cr_data = stored\<rparr>])"
      "request_at k (st_db s') = Some (r\<lparr>rr_output_bytes := rr_output_bytes r + int (length stored),
         rr_output_truncated := boolInt tr\<rparr>)"
proof -
  obtain co s1 where g: "getFrom k s = (Inr co, s1)"
    and rest: "(case co of None \<Rightarrow> fail (Plain ''unknown request'')
       | Some c \<Rightarrow>
         if sr_OutputTruncated c then ret (True, [])
         else and_then (state_get st_maxBytes) (\<lambda>maxBytes.
           let stored = kept_output sizes maxBytes (sr_OutputBytes c) limit data;
               truncated = (length stored < length data)
           in and_then
             (if stored = [] then ret ()
              else and_then (bind_u64 sequence) (\<lambda>seq. stmt (insert_chunk
                \<lparr>cr_request_id = k, cr_sequence = seq, cr_stream = stream, cr_data = stored\<rparr>)))
             (\<lambda>_. and_then (stmt (update_output (int (length stored)) (boolInt truncated) k))
               (\<lambda>_. ret (truncated, stored))))) s1 = (Inr (tr, stored), s')"
    using assms unfolding AppendOutput_def Get_def and_then_Inr by blast
  obtain c where c: "co = Some c" using rest by (cases co) (auto simp: outcome_simps)
  obtain r where r: "request_at k (st_db s) = Some r" "stored_of r = Inr c"
    and s1: "st_db s1 = st_db s" "st_maxBytes s1 = st_maxBytes s"
    using getFrom_Inr [OF g] c by (auto split: option.splits)
  show thesis
  proof (cases "sr_OutputTruncated c")
    case True
    then show thesis using truncated r s1 rest c stored_of_fields [OF r(2)] by (auto simp: outcome_simps)
  next
    case False
    let ?kept = "kept_output sizes (st_maxBytes s) (rr_output_bytes r) limit data"
    let ?row = "\<lparr>cr_request_id = k, cr_sequence = uint sequence, cr_stream = stream, cr_data = ?kept\<rparr>"
    have kept: "stored = ?kept" "tr = (length stored < length data)"
      using rest c False s1 stored_of_fields [OF r(2)] by (auto simp: outcome_simps Let_def)
    obtain s2 n where ins: "(if ?kept = [] then ret () else and_then (bind_u64 sequence) (\<lambda>seq. stmt (insert_chunk
        \<lparr>cr_request_id = k, cr_sequence = seq, cr_stream = stream, cr_data = ?kept\<rparr>))) s1 = (Inr (), s2)"
      and upd: "stmt (update_output (int (length ?kept)) (boolInt tr) k) s2 = (Inr n, s')"
      using rest c False s1 stored_of_fields [OF r(2)] kept by (auto simp: outcome_simps Let_def)
    have s2: "d_requests (st_db s2) = d_requests (st_db s)"
      "d_output_chunks (st_db s2) = d_output_chunks (st_db s) @ (if stored = [] then [] else [?row])"
    proof -
      have "insert_chunk ?row (st_db s) = (Inr (), st_db s2)" if "?kept \<noteq> []"
        using ins that s1 by (auto simp: outcome_simps bind_u64_def split: if_splits dest!: stmt_Inr)
      then have "d_requests (st_db s2) = d_requests (st_db s)
          \<and> d_output_chunks (st_db s2) = d_output_chunks (st_db s) @ [?row]" if "?kept \<noteq> []"
        using that by (auto simp: insert_chunk_def split: if_splits dest: sym)
      then show "d_requests (st_db s2) = d_requests (st_db s)"
        "d_output_chunks (st_db s2) = d_output_chunks (st_db s) @ (if stored = [] then [] else [?row])"
        using ins s1 kept by (auto simp: outcome_simps split: if_splits)
    qed
    have "update_output (int (length ?kept)) (boolInt tr) k (st_db s2) = (Inr n, st_db s')"
      using stmt_Inr [OF upd] by simp
    then have s': "st_db s' = (st_db s2)\<lparr>d_requests := update_where (\<lambda>r. rr_request_id r = k)
        (\<lambda>r. r\<lparr>rr_output_bytes := rr_output_bytes r + int (length stored), rr_output_truncated := boolInt tr\<rparr>)
        (d_requests (st_db s2))\<rparr>"
      using kept by (auto simp: update_output_def split: if_splits)
    show thesis
      using appended [OF r(1)] kept s2 s' r lookup_by_SomeD [OF r(1)] False stored_of_fields [OF r(2)]
      by (simp add: lookup_by_update_where)
  qed
qed

lemma stored_bytes_append:
  "d_output_chunks e = d_output_chunks d @ (if stored = [] then [] else
     [\<lparr>cr_request_id = k, cr_sequence = q, cr_stream = st, cr_data = stored\<rparr>]) \<Longrightarrow>
   stored_bytes k e = stored_bytes k d + int (length stored)"
  by (simp add: stored_bytes_def)

text \<open>A successful append stores a prefix of the data, reports truncation exactly when it kept less
  than it was given, keeps the byte counter of the request equal to the bytes stored for it, and
  never takes that counter above the cap. Once output was truncated, nothing more is stored.\<close>

theorem AppendOutput_capped:
  assumes "db_ok (st_db s)" and "int64_range limit"
    and "request_at k (st_db s) = Some r" and "rr_output_bytes r = stored_bytes k (st_db s)"
    and "rr_output_bytes r \<le> limit"
    and "AppendOutput sizes k sequence stream data limit s = (Inr (tr, stored), s')"
  shows "prefix stored data
    \<and> tr = (rr_output_truncated r \<noteq> 0 \<or> length stored < length data)
    \<and> (rr_output_truncated r \<noteq> 0 \<longrightarrow> stored = [])
    \<and> (\<exists>r'. request_at k (st_db s') = Some r' \<and> rr_output_bytes r' = stored_bytes k (st_db s')
          \<and> stored_bytes k (st_db s') = stored_bytes k (st_db s) + int (length stored)
          \<and> rr_output_bytes r' \<le> limit)"
  using assms(6)
proof (cases rule: AppendOutput_Inr)
  case truncated
  then show ?thesis using assms by simp
next
  case (appended r2)
  then have r2: "r2 = r" using assms by simp
  have "0 \<le> rr_output_bytes r"
    using assms(1) lookup_by_SomeD [OF assms(3)] by (auto simp: db_ok_def)
  then have "rr_output_bytes r + int (length stored) \<le> limit"
    using kept_output_bound assms appended r2 by metis
  moreover have "prefix stored data"
    using kept_output_prefix appended by metis
  ultimately show ?thesis
    using appended r2 assms stored_bytes_append [OF appended(5)] by auto
qed

lemma example_row_output [simp]:
  "rr_output_bytes (example_row st) = 0" "rr_output_truncated (example_row st) = 0"
  by (simp_all add: example_row_def)

lemma example_append:
  "\<exists>s'. AppendOutput [] ''r1'' 0 ''stdout'' ''hello'' 3 (example_store Executing []) = (Inr (True, ''hel''), s')"
  by (simp add: AppendOutput_def Get_def getFrom_quiet and_then_def state_get_def ret_def example_stored
      kept_output_def hasCapacity_def bind_u64_def stmt_quiet insert_chunk_def update_output_def
      int64_range_def wrap64_def Let_def)

theorem AppendOutput_capped_witness:
  "stored_bytes ''r1'' (st_db (snd (AppendOutput [] ''r1'' 0 ''stdout'' ''hello'' 3 (example_store Executing [])))) = 3"
proof -
  obtain s' where s': "AppendOutput [] ''r1'' 0 ''stdout'' ''hello'' 3 (example_store Executing []) = (Inr (True, ''hel''), s')"
    using example_append by blast
  show ?thesis
    using AppendOutput_capped [OF _ _ _ _ _ s', of "example_row Executing"] s'
    by (auto simp: int64_range_def stored_bytes_def)
qed


subsection \<open>Serving\<close>

lemma page_take:
  assumes "page maxBytes tot result rows = Inr (res, again)" and "\<forall>c \<in> set rows. 0 \<le> cr_sequence c"
  shows "\<exists>n. res = result @ map chunk_of (take n rows) \<and> n \<le> length rows \<and> (again \<longleftrightarrow> n < length rows)
    \<and> (again \<longrightarrow> res \<noteq> [])"
  using assms
proof (induction maxBytes tot result rows rule: page.induct)
  case (2 maxBytes tot result c rows)
  show ?case
  proof (cases "maxBytes > 0 \<and> result \<noteq> [] \<and> wrap64 (tot + int (length (cr_data c))) > maxBytes")
    case True
    then show ?thesis using 2 by (intro exI [of _ 0]) auto
  next
    case False
    then have "\<exists>n. res = (result @ [chunk_of c]) @ map chunk_of (take n rows) \<and> n \<le> length rows
        \<and> (again \<longleftrightarrow> n < length rows) \<and> (again \<longrightarrow> res \<noteq> [])"
      using 2 by (intro "2.IH") auto
    then obtain n where "res = (result @ [chunk_of c]) @ map chunk_of (take n rows)" "n \<le> length rows"
      "again \<longleftrightarrow> n < length rows" "again \<longrightarrow> res \<noteq> []"
      by blast
    then show ?thesis by (intro exI [of _ "Suc n"]) simp
  qed
qed simp

lemma chunks_from_sorted:
  assumes "db_ok d"
  shows "sorted_wrt (\<lambda>a b. cr_sequence a < cr_sequence b) (chunks_from k a d)"
proof -
  let ?rows = "filter (\<lambda>c. cr_request_id c = k \<and> a \<le> cr_sequence c) (d_output_chunks d)"
  have "distinct (map chunk_key ?rows)"
    using assms by (auto simp: db_ok_def)
  then have "distinct (map cr_sequence ?rows)"
    by (auto simp: distinct_map inj_on_def chunk_key_def)
  then have "distinct (map cr_sequence (chunks_from k a d))"
    by (simp add: chunks_from_def distinct_map)
  moreover have "sorted (map cr_sequence (chunks_from k a d))"
    by (simp add: chunks_from_def)
  ultimately have "sorted_wrt (<) (map cr_sequence (chunks_from k a d))"
    by (simp add: strict_sorted_iff)
  then show ?thesis by (simp add: sorted_wrt_map)
qed

lemma filter_sorted_split:
  assumes "sorted_wrt (\<lambda>a b. f a < f b) (xs @ x # ys)"
  shows "filter (\<lambda>c. f x + 1 \<le> (f c :: int)) (xs @ x # ys) = ys"
proof -
  have "filter (\<lambda>c. f x + 1 \<le> f c) xs = []" "filter (\<lambda>c. f x + 1 \<le> f c) ys = ys"
    using assms by (fastforce simp: sorted_wrt_append filter_empty_conv filter_id_conv)+
  then show ?thesis by simp
qed

lemma chunks_from_later:
  "a \<le> b \<Longrightarrow> chunks_from k b d = filter (\<lambda>c. b \<le> cr_sequence c) (chunks_from k a d)"
proof -
  assume "a \<le> b"
  then have "filter (\<lambda>c. cr_request_id c = k \<and> b \<le> cr_sequence c) rows =
      filter (\<lambda>c. b \<le> cr_sequence c) (filter (\<lambda>c. cr_request_id c = k \<and> a \<le> cr_sequence c) rows)" for rows
    by (induction rows) auto
  then show ?thesis unfolding chunks_from_def filter_sort by (rule arg_cong)
qed

lemma chunks_from_range:
  assumes "db_ok d" and "c \<in> set (chunks_from k a d)"
  shows "0 \<le> cr_sequence c" "cr_sequence c < 2 ^ 63" "a \<le> cr_sequence c"
    "uint (oc_Sequence (chunk_of c)) = cr_sequence c"
  using assms by (auto simp: chunks_from_def db_ok_def chunk_of_def uint_word_of_int)

lemma OutputAfter_take:
  assumes "db_ok (st_db s)" and "OutputAfter k after maxBytes s = (Inr (chunks, again), s')"
  obtains n where "chunks = map chunk_of (take n (chunks_from k (uint after) (st_db s)))"
    "n \<le> length (chunks_from k (uint after) (st_db s))"
    "again \<longleftrightarrow> n < length (chunks_from k (uint after) (st_db s))" "again \<longrightarrow> chunks \<noteq> []"
proof -
  let ?rows = "chunks_from k (uint after) (st_db s)"
  have "page maxBytes 0 [] ?rows = Inr (chunks, again)"
    using assms(2) by (auto simp: OutputAfter_def outcome_simps bind_u64_def dest!: select_Inr split: if_splits)
  from page_take [OF this] obtain n where "chunks = [] @ map chunk_of (take n ?rows)" "n \<le> length ?rows"
    "again \<longleftrightarrow> n < length ?rows" "again \<longrightarrow> chunks \<noteq> []"
    using chunks_from_range(1) [OF assms(1)] by blast
  then show thesis by (intro that [of n]) simp_all
qed

text \<open>Paging loses and repeats nothing: a page is the beginning of the stored chunks from the
  requested sequence number on, in order; when it reports more, it is not empty, and asking again
  from one past its last chunk gives exactly the rest.\<close>

theorem OutputAfter_resumes:
  assumes "db_ok (st_db s)" and "OutputAfter k after maxBytes s = (Inr (chunks, again), s')"
  shows "(again \<longrightarrow> chunks \<noteq> [])
    \<and> map chunk_of (chunks_from k (uint after) (st_db s)) =
        chunks @ (if again then map chunk_of (chunks_from k (uint (oc_Sequence (last chunks)) + 1) (st_db s)) else [])"
proof -
  let ?rows = "chunks_from k (uint after) (st_db s)"
  obtain n where n: "chunks = map chunk_of (take n ?rows)" "n \<le> length ?rows" "again \<longleftrightarrow> n < length ?rows"
    "again \<longrightarrow> chunks \<noteq> []"
    using OutputAfter_take [OF assms] by blast
  show ?thesis
  proof (cases again)
    case False
    with n show ?thesis by simp
  next
    case True
    then obtain m where m: "n = Suc m" using n by (cases n) auto
    let ?last = "?rows ! m"
    have l: "?last \<in> set ?rows" using m n by simp
    have "last chunks = chunk_of ?last"
      using n m by (simp add: take_Suc_conv_app_nth)
    then have seq: "uint (oc_Sequence (last chunks)) = cr_sequence ?last"
      using chunks_from_range(4) [OF assms(1) l] by simp
    have "?rows = take m ?rows @ ?last # drop n ?rows"
      using m n by (metis Suc_le_lessD id_take_nth_drop)
    then have "filter (\<lambda>c. cr_sequence ?last + 1 \<le> cr_sequence c) ?rows = drop n ?rows"
      using filter_sorted_split chunks_from_sorted [OF assms(1)] by metis
    moreover have "uint after \<le> cr_sequence ?last + 1" using chunks_from_range(3) [OF assms(1) l] by simp
    ultimately have "chunks_from k (cr_sequence ?last + 1) (st_db s) = drop n ?rows"
      using chunks_from_later by metis
    with n True seq show ?thesis by (simp flip: map_append)
  qed
qed

definition two_chunks :: store where
  "two_chunks = (example_store Executing [])\<lparr>st_db := (example_db Executing [])\<lparr>d_output_chunks :=
     [\<lparr>cr_request_id = ''r1'', cr_sequence = 1, cr_stream = ''stderr'', cr_data = ''xyz''\<rparr>,
      \<lparr>cr_request_id = ''r1'', cr_sequence = 0, cr_stream = ''stdout'', cr_data = ''ab''\<rparr>]\<rparr>\<rparr>"

theorem OutputAfter_resumes_witness:
  "map oc_Data (fst (projr (fst (OutputAfter ''r1'' 0 4 two_chunks)))) = [''ab'']
   \<and> map cr_data (chunks_from ''r1'' 0 (st_db two_chunks)) = [''ab'', ''xyz'']
   \<and> map cr_data (chunks_from ''r1'' 1 (st_db two_chunks)) = [''xyz'']"
proof -
  have ok: "db_ok (st_db two_chunks)" "st_faults two_chunks = []"
    by (simp_all add: two_chunks_def db_ok_def example_row_def example_db_def chunk_key_def int64_range_def)
  have page: "OutputAfter ''r1'' 0 4 two_chunks =
      (Inr ([\<lparr>oc_Sequence = 0, oc_Stream = ''stdout'', oc_Data = ''ab''\<rparr>], True), two_chunks)"
    using ok by (simp add: OutputAfter_def bind_u64_def and_then_def ret_def select_quiet lift_res_def
        chunks_from_def) (simp add: two_chunks_def wrap64_def chunk_of_def)
  have "map cr_data (chunks_from ''r1'' 1 (st_db two_chunks)) = [''xyz'']"
    by (simp add: chunks_from_def two_chunks_def)
  moreover have "oc_Data \<circ> chunk_of = cr_data"
    by (simp add: fun_eq_iff chunk_of_def)
  ultimately show ?thesis
    using arg_cong [OF conjunct2 [OF OutputAfter_resumes [OF ok(1) page]], of "map oc_Data"] page
    by simp
qed

subsection \<open>Where stored output comes from\<close>

text \<open>The only chunks a call can add are a prefix of what it appends, under the number and stream it names.\<close>

fun appended :: "store_call \<Rightarrow> chunk_row set" where
  "appended (CallAppendOutput sizes k sequence stream data limit) =
     {c. cr_request_id c = k \<and> cr_sequence c = uint sequence \<and> cr_stream c = stream \<and> prefix (cr_data c) data}"
| "appended _ = {}"

definition adds_chunks :: "chunk_row set \<Rightarrow> db \<Rightarrow> db \<Rightarrow> bool" where
  "adds_chunks A d e \<longleftrightarrow> set (d_output_chunks e) \<subseteq> set (d_output_chunks d) \<union> A"

interpretation sources: silent_statements "adds_chunks A" for A
proof
  show "adds_chunks A d f" if "adds_chunks A d e" "adds_chunks A e f" for d e f
    using that by (auto simp: adds_chunks_def)
qed (auto intro!: withinI simp: adds_chunks_def insert_request_def insert_approval_def insert_execution_def
    insert_event_def update_status_def update_output_def update_consumed_def update_executions_def
    insert_server_state_def delete_server_state_def drop_table_def drop_host_id_def delete_chunks_def
    delete_executions_def delete_request_def state_upd_def)

lemma insert_chunk_adds: "c \<in> A \<Longrightarrow> within (adds_chunks A) (insert_chunk c)"
  by (rule withinI) (auto simp: adds_chunks_def insert_chunk_def)

lemma AppendOutput_adds:
  "within (on_db (adds_chunks (appended (CallAppendOutput sizes k sequence stream data limit))))
     (AppendOutput sizes k sequence stream data limit)"
proof -
  let ?R = "on_db (adds_chunks (appended (CallAppendOutput sizes k sequence stream data limit)))"
  have insert: "within ?R (and_then (bind_u64 sequence) (\<lambda>seq. stmt (insert_chunk
      \<lparr>cr_request_id = k, cr_sequence = seq, cr_stream = stream, cr_data = kept_output sizes m used limit data\<rparr>)))" for m used
    by (cases "uint sequence < 2 ^ 63")
      (simp_all add: bind_u64_def and_then_def fail_def ret_def within_def kept_output_prefix
        withinD [OF sources.within_stmt [OF insert_chunk_adds]] sources.store_effect.eff_refl)
  then show ?thesis
    unfolding AppendOutput_def Let_def
    by (intro sources.op_effects sources.Get_within insert sources.update_output_eff) simp
qed

lemma adds_chunks_mono: "adds_chunks A d e \<Longrightarrow> A \<subseteq> B \<Longrightarrow> adds_chunks B d e"
  by (auto simp: adds_chunks_def)

lemma run_call_adds: "adds_chunks (appended c) (st_db s) (st_db (run_call sf c s))"
  using sources.silent_call_effect [of c "appended c" s sf] sources.on_db_effect [OF AppendOutput_adds]
  by (cases c) auto

lemma run_calls_adds: "adds_chunks (\<Union>c\<in>set cs. appended c) (st_db s) (st_db (run_calls sf cs s))"
proof (induction cs arbitrary: s)
  case (Cons c cs)
  from Cons [of "run_call sf c s"] run_call_adds [of c s sf] show ?case
    by (auto simp: adds_chunks_def)
qed (simp add: adds_chunks_def)

end
