(* ===== verification/Store_Retention.thy ===== *)
theory Store_Retention
  imports Store_Calls
begin

section \<open>Storing, expiring, pruning and recovering requests\<close>

subsection \<open>Create and Get\<close>

text \<open>What is created is what is read back: after a successful \<open>Create\<close> of a request with valid text,
  \<open>Get\<close> returns that very request with its hash, in the state created and with no output.\<close>

theorem Create_then_Get:
  assumes "valid_request q" and "st_faults s = []" and "Create sizes q hash s = (Inr (), s')"
  shows "Get (er_RequestID q) s' = (Inr (Some \<lparr>sr_Request = q, sr_RequestHash = hash, sr_Status = Created,
     sr_OutputBytes = 0, sr_OutputTruncated = False\<rparr>), s')"
proof -
  let ?row = "\<lparr>rr_request_id = er_RequestID q, rr_request_hash = hash,
          rr_request_json = execution_request_json q, rr_status = Created,
          rr_created_at = er_CreatedAt q, rr_expires_at = er_ExpiresAt q,
          rr_output_bytes = 0, rr_output_truncated = 0\<rparr>"
  have "stmt (insert_request ?row) s = (Inr (), s')"
    using assms(3) by (auto simp: Create_def outcome_simps split: if_splits)
  then have s': "er_RequestID q \<notin> request_ids (st_db s)"
    "s' = s\<lparr>st_db := (st_db s)\<lparr>d_requests := d_requests (st_db s) @ [?row]\<rparr>\<rparr>"
    using assms(2) by (auto simp: stmt_quiet insert_request_def split: if_splits)
  then have "request_at (er_RequestID q) (st_db s) = None" by (simp add: lookup_by_None_iff)
  then have "request_at (er_RequestID q) (st_db s') = Some ?row"
    using s' by (simp add: lookup_by_append)
  moreover have "st_faults s' = []" using assms(2) s' by simp
  ultimately show ?thesis
    using assms(1) by (simp add: Get_def getFrom_quiet stored_of_def dec_execution_request_json)
qed

theorem Create_then_Get_witness:
  "fst (Get ''r2'' (snd (Create [] (example_request\<lparr>er_RequestID := ''r2''\<rparr>) ''h2'' (example_store Waiting [])))) =
     Inr (Some \<lparr>sr_Request = example_request\<lparr>er_RequestID := ''r2''\<rparr>, sr_RequestHash = ''h2'', sr_Status = Created,
       sr_OutputBytes = 0, sr_OutputTruncated = False\<rparr>)"
proof -
  let ?q = "example_request\<lparr>er_RequestID := ''r2''\<rparr>"
  have "valid_request ?q"
    using example_request_valid by (simp add: valid_request_def valid_utf8_ascii ascii_def byte_def)
  moreover have "\<exists>s'. Create [] ?q ''h2'' (example_store Waiting []) = (Inr (), s')"
    by (simp add: Create_def and_then_def state_get_def hasCapacity_def stmt_quiet insert_request_def)
  ultimately show ?thesis
    using Create_then_Get [of ?q "example_store Waiting []" "[]" "''h2''"] by fastforce
qed

subsection \<open>Listing\<close>

lemma map_sum_Some_Inr: "map_sum id Some q = Inr x \<longleftrightarrow> (\<exists>c. q = Inr c \<and> x = Some c)"
  by (cases q) auto

lemma get_each_quiet:
  "st_faults s = [] \<Longrightarrow> get_each ids s = (Inr items, s') \<Longrightarrow>
    s' = s \<and> list_all2 (\<lambda>r c. stored_of r = Inr c)
      (List.map_filter (\<lambda>i. request_at i (st_db s)) ids) items"
proof (induction ids arbitrary: items)
  case (Cons i ids)
  then show ?case
    by (auto simp: outcome_simps Get_def getFrom_quiet map_filter_simps map_sum_Some_Inr split: option.splits)
qed (auto simp: outcome_simps map_filter_simps)

lemma map_filter_lookup:
  assumes "distinct (map rr_request_id (d_requests d))" and "set rows \<subseteq> set (d_requests d)"
  shows "List.map_filter (\<lambda>i. request_at i d) (map rr_request_id rows) = rows"
  using assms(2) by (induction rows) (simp_all add: map_filter_simps lookup_by_distinct [OF assms(1)])

lemma set_order_desc [simp]: "set (order_desc key rows) = set rows"
  by (simp add: order_desc_def)

lemma sorted_order_desc: "sorted_wrt (\<ge>) (map key (order_desc key rows))"
  unfolding order_desc_def rev_map [symmetric] sorted_wrt_rev using sorted_sort_key by blast

abbreviation listed :: "sql_functions \<Rightarrow> u32 \<Rightarrow> bool \<Rightarrow> req_status list \<Rightarrow> db \<Rightarrow> request_row list" where
  "listed sf uid allUsers statuses d \<equiv>
     filter (\<lambda>r. rr_status r \<in> set statuses \<and> (allUsers \<or> uid_matches sf uid r)) (d_requests d)"

text \<open>A listing returns at most as many requests as asked for, only requests in the given states
  and, unless all users are asked for, of the given user, each as it is stored, in descending order
  of the creation text; and it leaves out a matching request only when the limit is reached.\<close>

lemma recent_lists:
  assumes "db_ok (st_db s)" and "st_faults s = []"
    and "recent sf limit uid allUsers statuses s = (Inr items, s')"
  shows "st_db s' = st_db s \<and> 1 \<le> limit \<and> limit \<le> 1000
    \<and> (\<exists>rows. list_all2 (\<lambda>r c. stored_of r = Inr c) rows items
        \<and> length rows = min (nat limit) (length (listed sf uid allUsers statuses (st_db s)))
        \<and> set rows \<subseteq> set (listed sf uid allUsers statuses (st_db s))
        \<and> sorted_wrt (\<ge>) (map rr_created_at rows))"
proof -
  let ?d = "st_db s"
  let ?rows = "take (nat limit) (order_desc rr_created_at (listed sf uid allUsers statuses ?d))"
  have lim: "1 \<le> limit" "limit \<le> 1000" and get: "get_each (map rr_request_id ?rows) s = (Inr items, s')"
    using assms by (auto simp: recent_def recent_ids_def and_then_def select_quiet fail_def split: if_splits)
  have sub: "set ?rows \<subseteq> set (listed sf uid allUsers statuses ?d)"
    using set_take_subset [of "nat limit" "order_desc rr_created_at (listed sf uid allUsers statuses ?d)"]
    by simp
  then have "List.map_filter (\<lambda>i. request_at i ?d) (map rr_request_id ?rows) = ?rows"
    using assms(1) by (intro map_filter_lookup) (auto simp: db_ok_def)
  then have "s' = s" "list_all2 (\<lambda>r c. stored_of r = Inr c) ?rows items"
    using get_each_quiet [OF assms(2) get] by simp_all
  moreover have "sorted_wrt (\<ge>) (map rr_created_at ?rows)"
    using sorted_order_desc [of rr_created_at "listed sf uid allUsers statuses ?d"]
    by (simp add: sorted_wrt_take flip: take_map)
  moreover have "length ?rows = min (nat limit) (length (listed sf uid allUsers statuses ?d))"
    by (simp add: order_desc_def)
  ultimately show ?thesis using lim sub by blast
qed

subsection \<open>Times as text\<close>

text \<open>A time the store writes is read back exactly: parsing the text of an instant up to the year
  10000 gives that instant to the nanosecond, so no stored creation or expiry time is unreadable or
  shifted.\<close>

lemma now_text_readable:
  assumes "t < 253402300800 * 10 ^ 9"
  shows "parse_time (now_text t) = Some (int t)"
  using assms parse_fmt_time by (simp add: now_text_def)

text \<open>The creation text does not sort in time order: an instant can have a smaller text than an
  earlier one, because trailing zeros of the fraction are dropped. So newest first by that text,
  which listing and retention use, is not newest first within a second.\<close>

lemma created_order_not_chronological: "\<exists>s t. s < t \<and> now_text t < now_text s"
  using fmt_time_order_not_chronological by (simp add: now_text_def)

subsection \<open>Expiry\<close>

text \<open>What is known of \<open>julianday\<close> on the texts the store writes: a time stamp in milliseconds, at most one
  millisecond off.\<close>

definition julianday_millis :: "sql_functions \<Rightarrow> bool" where
  "julianday_millis sf \<longleftrightarrow> (\<forall>t. t < 253402300800 * 10 ^ 9 \<longrightarrow>
     (\<exists>j. sf_julianday sf (fmt_time t) = Some j \<and> \<bar>j * 1000000 - int t\<bar> \<le> 1000000))"

lemma example_julianday: "julianday_millis example_sf"
proof -
  have "\<bar>n div 1000000 * 1000000 - n\<bar> \<le> (1000000 :: int)" for n
  proof -
    have "n div 1000000 * 1000000 + n mod 1000000 = n" "0 \<le> n mod 1000000" "n mod 1000000 < 1000000"
      by simp_all
    then show ?thesis by linarith
  qed
  then show ?thesis
    by (auto simp: julianday_millis_def example_sf_def parse_fmt_time)
qed

text \<open>(C37) Expiry acts on time: of a request that waits or is approved, one expired for at least two
  milliseconds becomes expired, and one with at least two milliseconds left keeps its state; created,
  executing and finished requests never change.\<close>

theorem ExpireOutstanding_on_time:
  assumes "julianday_millis sf" and "st_faults s = []" and "request_at k (st_db s) = Some r"
    and "rr_expires_at r = now_text e" and "e < 253402300800 * 10 ^ 9" and "t < 253402300800 * 10 ^ 9"
  shows "\<exists>r'. request_at k (st_db (snd (ExpireOutstanding sf t s))) = Some r' \<and>
    (rr_status r \<in> {Queued, Synced, Waiting, Approved} \<and> e + 2000000 \<le> t \<longrightarrow> rr_status r' = Expired) \<and>
    (rr_status r \<notin> {Queued, Synced, Waiting, Approved} \<or> t + 2000000 < e \<longrightarrow> r' = r)"
proof -
  obtain je jt where j: "sf_julianday sf (fmt_time e) = Some je" "\<bar>je * 1000000 - int e\<bar> \<le> 1000000"
    "sf_julianday sf (fmt_time t) = Some jt" "\<bar>jt * 1000000 - int t\<bar> \<le> 1000000"
    using assms(1,5,6) unfolding julianday_millis_def by blast
  have ex: "expirable sf (now_text t) r \<longleftrightarrow> rr_status r \<in> {Queued, Synced, Waiting, Approved} \<and> je \<le> jt"
    using assms(4) j by (simp add: expirable_def now_text_def)
  have "je \<le> jt" if "e + 2000000 \<le> t" using that j by linarith
  moreover have "\<not> je \<le> jt" if "t + 2000000 < e" using that j by linarith
  moreover have "request_at k (st_db (snd (ExpireOutstanding sf t s))) =
      Some (if expirable sf (now_text t) r then r\<lparr>rr_status := Expired\<rparr> else r)"
    using assms(2,3) by (simp add: ExpireOutstanding_def and_then_def stmt_quiet update_status_def ret_def
        lookup_by_update_where)
  ultimately show ?thesis using ex by auto
qed

definition expiring_store :: store where
  "expiring_store = \<lparr>st_db = (example_db Approved [])\<lparr>d_requests := [(example_row Approved)\<lparr>rr_expires_at := now_text 0\<rparr>]\<rparr>,
     st_maxBytes = 0, st_faults = []\<rparr>"

theorem ExpireOutstanding_on_time_witness:
  "map_option rr_status (request_at ''r1'' (st_db (snd (ExpireOutstanding example_sf 5000000 expiring_store)))) = Some Expired"
  using ExpireOutstanding_on_time [OF example_julianday, of expiring_store "''r1''"
      "(example_row Approved)\<lparr>rr_expires_at := now_text 0\<rparr>" 0 5000000]
  by (auto simp: expiring_store_def example_db_def)

subsection \<open>Retention\<close>

abbreviation purge :: "string set \<Rightarrow> db \<Rightarrow> db" where
  "purge I d \<equiv> d\<lparr>d_requests := filter (\<lambda>r. rr_request_id r \<notin> I) (d_requests d),
     d_executions := filter (\<lambda>x. xr_request_id x \<notin> I) (d_executions d),
     d_output_chunks := filter (\<lambda>c. cr_request_id c \<notin> I) (d_output_chunks d)\<rparr>"

lemma delete_one_quiet:
  assumes "st_faults s = []" and "i \<notin> ar_request_id ` set (d_approvals (st_db s))"
  shows "delete_each (i # ids) s = delete_each ids (s\<lparr>st_db := purge {i} (st_db s)\<rparr>)"
proof -
  have "delete_request i ((st_db s)\<lparr>d_output_chunks := filter (\<lambda>c. cr_request_id c \<noteq> i) (d_output_chunks (st_db s)),
      d_executions := filter (\<lambda>x. xr_request_id x \<noteq> i) (d_executions (st_db s))\<rparr>) =
    (Inr (), purge {i} (st_db s))"
    using assms(2) by (auto simp: delete_request_def)
  then show ?thesis
    using assms(1) by (simp add: and_then_def stmt_quiet delete_chunks_def delete_executions_def state_upd_def)
qed

lemma delete_each_quiet:
  assumes "st_faults s = []" and "set ids \<inter> ar_request_id ` set (d_approvals (st_db s)) = {}"
  shows "delete_each ids s = (Inr (), s\<lparr>st_db := purge (set ids) (st_db s)\<rparr>)"
  using assms
proof (induction ids arbitrary: s)
  case (Cons i ids)
  have "i \<notin> ar_request_id ` set (d_approvals (st_db s))" using Cons.prems by auto
  then have "delete_each (i # ids) s = delete_each ids (s\<lparr>st_db := purge {i} (st_db s)\<rparr>)"
    by (rule delete_one_quiet [OF Cons.prems(1)])
  also have "\<dots> = (Inr (), s\<lparr>st_db := purge (set ids) (purge {i} (st_db s))\<rparr>)"
    using Cons.IH [of "s\<lparr>st_db := purge {i} (st_db s)\<rparr>"] Cons.prems by simp
  finally show ?case by (simp add: conj_commute)
qed (simp add: ret_def)

lemma prune_ids_subset: "set (prune_ids old n i rows) \<subseteq> fst ` set rows"
  by (induction old n i rows rule: prune_ids.induct) (auto simp: Let_def)

lemma prune_ids_all: "n \<le> m \<Longrightarrow> fst ` set rows \<subseteq> set (prune_ids old n m rows)"
proof (induction rows arbitrary: m)
  case (Cons p rows)
  obtain j d where p: "p = (j, d)" by fastforce
  show ?case using Cons.IH [of "m + 1"] Cons.prems by (simp add: p Let_def subset_insertI2)
qed simp

lemma prune_ids_complete:
  assumes "i \<le> n" and "(k, c) \<in> set rows" and "k \<notin> set (prune_ids old n i rows)"
  shows "(k, c) \<in> set (take (nat (n - i)) rows) \<and> (\<exists>t. parse_time c = Some t \<and> old \<le> t)"
  using assms
proof (induction old n i rows rule: prune_ids.induct)
  case (2 old n i j d rows)
  show ?case
  proof (cases "i < n")
    case True
    then have "nat (n - i) = Suc (nat (n - (i + 1)))" by simp
    with 2 True show ?thesis
      by (auto simp: Let_def split: option.splits if_splits)
  next
    case False
    then have "fst ` set rows \<subseteq> set (prune_ids old n (i + 1) rows)"
      by (intro prune_ids_all) simp
    with 2 False show ?thesis by (force simp: Let_def)
  qed
qed simp

lemma prune_candidates_rows:
  "(k, c) \<in> set (prune_candidates d) \<longleftrightarrow>
     (\<exists>r \<in> set (d_requests d). prunable d r \<and> rr_request_id r = k \<and> rr_created_at r = c)"
  by (auto simp: prune_candidates_def)

lemma candidates_undecided: "fst ` set (prune_candidates d) \<inter> ar_request_id ` set (d_approvals d) = {}"
  by (auto simp: prune_candidates_def prunable_def)

lemma prunable_purge [simp]: "prunable (purge I d) = prunable d"
  by (simp add: prunable_def fun_eq_iff)

lemma PruneUnapproved_quiet:
  assumes "st_faults s = []" and "0 \<le> retain"
  shows "PruneUnapproved old retain s =
    (Inr (), s\<lparr>st_db := purge (set (prune_ids old retain 0 (prune_candidates (st_db s)))) (st_db s)\<rparr>)"
proof -
  let ?ids = "prune_ids old retain 0 (prune_candidates (st_db s))"
  have "set ?ids \<inter> ar_request_id ` set (d_approvals (st_db s)) = {}"
    using prune_ids_subset [of old retain 0 "prune_candidates (st_db s)"] candidates_undecided by blast
  then have "delete_each ?ids s = (Inr (), s\<lparr>st_db := purge (set ?ids) (st_db s)\<rparr>)"
    by (rule delete_each_quiet [OF assms(1)])
  then show ?thesis
    using assms by (simp add: PruneUnapproved_def and_then_def select_quiet Let_def transaction_def
        transaction_quiet ret_def)
qed

lemma retained_bound:
  assumes "distinct (map key rows)" and "\<And>r. r \<in> set rows \<Longrightarrow> key r \<in> fst ` set (take n cs)"
  shows "length rows \<le> n"
proof -
  have "length rows = card (set (map key rows))"
    using distinct_card [OF assms(1)] by simp
  also have "\<dots> \<le> card (fst ` set (take n cs))"
    using assms(2) by (intro card_mono) auto
  also have "\<dots> \<le> n"
    by (metis card_image_le card_length length_take List.finite_set min.bounded_iff order.trans)
  finally show ?thesis .
qed



subsection \<open>Restart\<close>

lemma recoverInterrupted_Inr:
  assumes "recoverInterrupted t s = (Inr u, s')"
  shows "d_requests (st_db s') = update_where (\<lambda>r. rr_status r = Executing) (\<lambda>r. r\<lparr>rr_status := Failed\<rparr>) (d_requests (st_db s))
    \<and> d_executions (st_db s') = update_where (\<lambda>x. xr_finished_at x = None)
        (\<lambda>x. x\<lparr>xr_finished_at := Some (now_text t), xr_signal := Some ''DAEMON_RESTART''\<rparr>) (d_executions (st_db s))
    \<and> d_server_state (st_db s') = d_server_state (st_db s)"
proof -
  obtain s1 n m where "stmt (update_status Failed (\<lambda>r. rr_status r = Executing)) s = (Inr n, s1)"
    "stmt (update_executions (\<lambda>x. xr_finished_at x = None)
       (\<lambda>x. x\<lparr>xr_finished_at := Some (now_text t), xr_signal := Some ''DAEMON_RESTART''\<rparr>)) s1 = (Inr m, s')"
    using assms unfolding recoverInterrupted_def by (auto simp: outcome_simps)
  then have "st_db s1 = snd (update_status Failed (\<lambda>r. rr_status r = Executing) (st_db s))"
    "st_db s' = snd (update_executions (\<lambda>x. xr_finished_at x = None)
       (\<lambda>x. x\<lparr>xr_finished_at := Some (now_text t), xr_signal := Some ''DAEMON_RESTART''\<rparr>) (st_db s1))"
    by (auto dest!: stmt_Inr)
  then show ?thesis by (simp add: update_status_def update_executions_def)
qed

lemma map_of_snoc: "k \<notin> fst ` set xs \<Longrightarrow> map_of (xs @ [(k, v)]) k = Some v"
  by (induction xs) auto

lemma migrateLocalOnly_Inr:
  assumes "migrateLocalOnly t s = (Inr u, s')"
  shows "(case map_of (d_server_state (st_db s)) ''local_only_v2'' of
      Some _ \<Rightarrow> st_db s' = st_db s
    | None \<Rightarrow> d_requests (st_db s') = update_where (\<lambda>r. rr_status r \<in> {Queued, Synced, Waiting, Approved})
          (\<lambda>r. r\<lparr>rr_status := PolicyRejected\<rparr>) (d_requests (st_db s))
        \<and> d_executions (st_db s') = d_executions (st_db s)
        \<and> map_of (d_server_state (st_db s')) ''local_only_v2'' = Some ''enabled'')"
proof (cases "map_of (d_server_state (st_db s)) ''local_only_v2''")
  case (Some v)
  with assms show ?thesis
    by (auto simp: migrateLocalOnly_def outcome_simps dest!: select_Inr)
next
  case None
  let ?p = "\<lambda>r. rr_status r \<in> {Queued, Synced, Waiting, Approved}"
  obtain s1 s2 s3 s4 s5 s6 s7 s8 s9 n where
    "st_db s1 = st_db s" "stmt (update_status PolicyRejected ?p) s1 = (Inr n, s2)"
    "stmt (drop_table ''outbound_events'') s2 = (Inr (), s3)" "stmt (drop_table ''used_nonces'') s3 = (Inr (), s4)"
    "st_db s5 = st_db s4" "(if d_host_id_column (st_db s4) then stmt drop_host_id else ret ()) s5 = (Inr (), s6)"
    "stmt (delete_server_state ''approval_channel_quarantine'') s6 = (Inr (), s7)"
    "stmt (insert_server_state ''local_only_v2'' ''enabled'') s7 = (Inr (), s8)"
    "stmt (insert_event ''migration.local-only'' None None
             ''Remote approval state disabled; old pending requests rejected'' (now_text t)) s8 = (Inr (), s9)"
    "st_db s' = st_db s9"
    using assms None unfolding migrateLocalOnly_def transaction_def
    by (auto simp: and_then_Inr dest!: select_Inr transactionContext_InrD)
  then have d: "st_db s1 = st_db s" "st_db s2 = snd (update_status PolicyRejected ?p (st_db s1))"
    "st_db s3 = snd (drop_table ''outbound_events'' (st_db s2))" "st_db s4 = snd (drop_table ''used_nonces'' (st_db s3))"
    "st_db s5 = st_db s4" "st_db s6 = (if d_host_id_column (st_db s4) then snd (drop_host_id (st_db s5)) else st_db s5)"
    "st_db s7 = snd (delete_server_state ''approval_channel_quarantine'' (st_db s6))"
    "insert_server_state ''local_only_v2'' ''enabled'' (st_db s7) = (Inr (), st_db s8)"
    "st_db s' = snd (insert_event ''migration.local-only'' None None
             ''Remote approval state disabled; old pending requests rejected'' (now_text t) (st_db s8))"
    by (auto simp: outcome_simps split: if_splits dest!: stmt_Inr select_Inr)
  have "st_db s8 = (st_db s7)\<lparr>d_server_state := d_server_state (st_db s7) @ [(''local_only_v2'', ''enabled'')]\<rparr>"
    "''local_only_v2'' \<notin> fst ` set (d_server_state (st_db s7))"
    using d(8) by (auto simp: insert_server_state_def split: if_splits)
  then show ?thesis
    using None d(1-7,9) map_of_snoc [of "''local_only_v2''" "d_server_state (st_db s7)" "''enabled''"]
    by (cases "d_host_id_column (st_db s4)") (simp_all add: update_status_def drop_table_def drop_host_id_def
        delete_server_state_def insert_event_def state_upd_def)
qed

text \<open>(C39) A restart leaves nothing half done: after a successful \<open>Open\<close> no request is executing, every
  execution has an end, and a database that was never migrated has no pending or approved request
  left from the remote protocol.\<close>

theorem Open_recovers:
  assumes "Open t1 t2 s = (Inr u, s')"
  shows "(\<forall>r \<in> set (d_requests (st_db s')). rr_status r \<noteq> Executing)
    \<and> (\<forall>x \<in> set (d_executions (st_db s')). xr_finished_at x \<noteq> None)
    \<and> map_of (d_server_state (st_db s')) ''local_only_v2'' \<noteq> None
    \<and> (map_of (d_server_state (st_db s)) ''local_only_v2'' = None \<longrightarrow>
        (\<forall>r \<in> set (d_requests (st_db s')). rr_status r \<notin> {Queued, Synced, Waiting, Approved}))"
proof -
  obtain s1 s2 s3 where s: "st_db s1 = st_db s" "recoverInterrupted t1 s1 = (Inr (), s2)"
    "migrateLocalOnly t2 s2 = (Inr (), s')"
    using assms unfolding Open_def SetMaxBytes_def
    by (auto simp: outcome_simps dest!: stmt_Inr)
  note rec = recoverInterrupted_Inr [OF s(2)] and mig = migrateLocalOnly_Inr [OF s(3)]
  show ?thesis
    using rec mig s(1)
    by (cases "map_of (d_server_state (st_db s)) ''local_only_v2''") (auto simp: ball_update_where)
qed

theorem Open_recovers_witness:
  "rr_status (hd (d_requests (st_db (snd (Open 1 2 (example_store Executing [])))))) = Failed
   \<and> list_all (\<lambda>r. rr_status r \<noteq> Executing) (d_requests (st_db (snd (Open 1 2 (example_store Executing [])))))"
proof -
  have "Open 1 2 (example_store Executing []) = (Inr (), snd (Open 1 2 (example_store Executing [])))"
    "rr_status (hd (d_requests (st_db (snd (Open 1 2 (example_store Executing [])))))) = Failed"
    by (simp_all add: Open_def SetMaxBytes_def recoverInterrupted_def migrateLocalOnly_def and_then_def stmt_quiet
        ret_def select_quiet state_upd_def update_status_def update_executions_def example_db_def update_where_def)
  then show ?thesis using Open_recovers [of 1 2 "example_store Executing []"] by (auto simp: list_all_iff)
qed

end
