(* ===== verification/Daemon_Service.thy ===== *)
theory Daemon_Service
  imports Daemon_Input Daemon_Limits Policy Integrity Store_Output Store_Retention
begin

section \<open>The daemon's handlers: internal/daemon/service.go\<close>

text \<open>
  Every handler of the service as an operation on the service's state. The store is shared with all
  other handlers and goroutines that run at the same time: before each of its own accesses to the
  store a handler sees whatever calls the others made in the meantime, the argument \<open>w_env\<close> (an
  arbitrary list of store calls for each access). The clock, the random source, the file system, the
  policy file and the sizes of the database files are what the world answers, indexed by use where a
  handler asks more than once.

  \<open>go s.execute(id)\<close> is recorded in \<open>sv_spawned\<close>; the process that \<open>execute\<close> starts is recorded in
  \<open>sv_launched\<close> with everything the daemon passes to it.
\<close>

subsection \<open>State\<close>

record launch =
  la_RequestID :: string
  la_Args :: "string list"
  la_Env :: "string list"
  la_Executable :: open_file
  la_Directory :: open_file
  la_Interpreter :: "open_file option"

record service =
  sv_Store :: store
  sv_limits :: limits
  sv_executing :: "string set"
  sv_spawned :: "string list"
  sv_launched :: "launch list"

record world =
  w_sf :: sql_functions
  w_jcs :: jcs_transform
  w_now :: "nat \<Rightarrow> nat"
  w_sizes :: "nat \<Rightarrow> int option list"
  w_env :: "nat \<Rightarrow> store_call list"
  w_fs :: filesystem
  w_policy :: "policy_config res"
  w_uuid :: "u8 list res"
  w_nonce :: "u8 list res"
  w_hostname :: "string res"

type_synonym 'a service_op = "(service, 'a) op"

text \<open>The \<open>i\<close>-th access of a handler to the store, after the others' calls.\<close>

definition on_store :: "world \<Rightarrow> nat \<Rightarrow> 'a store_op \<Rightarrow> 'a service_op" where
  "on_store w i m = (\<lambda>sv.
     case m (run_calls (w_sf w) (w_env w i) (sv_Store sv)) of (r, s) \<Rightarrow> (r, sv\<lparr>sv_Store := s\<rparr>))"

definition on_limits :: "(limits, 'a) op \<Rightarrow> 'a service_op" where
  "on_limits m = (\<lambda>sv. case m (sv_limits sv) of (r, l) \<Rightarrow> (r, sv\<lparr>sv_limits := l\<rparr>))"

text \<open>\<open>defer\<close>\<close>

definition finally_do :: "(service \<Rightarrow> service) \<Rightarrow> 'a service_op \<Rightarrow> 'a service_op" where
  "finally_do f m = (\<lambda>sv. case m sv of (r, t) \<Rightarrow> (r, f t))"

definition spawn_execute :: "string \<Rightarrow> unit service_op" where
  "spawn_execute requestID = state_upd (\<lambda>sv. sv\<lparr>sv_spawned := sv_spawned sv @ [requestID]\<rparr>)"

text \<open>\<open>_ = operation()\<close>\<close>

definition ignoring :: "'a service_op \<Rightarrow> unit service_op" where
  "ignoring m = and_then (attempt m) (\<lambda>_. ret ())"

fun code_text :: "code \<Rightarrow> string" where
  "code_text Canceled = ''Canceled''"
| "code_text UnknownCode = ''Unknown''"
| "code_text InvalidArgument = ''InvalidArgument''"
| "code_text DeadlineExceeded = ''DeadlineExceeded''"
| "code_text NotFound = ''NotFound''"
| "code_text PermissionDenied = ''PermissionDenied''"
| "code_text ResourceExhausted = ''ResourceExhausted''"
| "code_text FailedPrecondition = ''FailedPrecondition''"
| "code_text Aborted = ''Aborted''"
| "code_text Internal = ''Internal''"
| "code_text Unavailable = ''Unavailable''"
| "code_text DataLoss = ''DataLoss''"
| "code_text Unauthenticated = ''Unauthenticated''"

fun err_text :: "err \<Rightarrow> string" where
  "err_text (Plain s) = s"
| "err_text (Status c s) = ''rpc error: code = '' @ code_text c @ '' desc = '' @ s"
| "err_text (External s) = s"
| "err_text ErrStorageLimit = ''state storage limit reached''"

definition as_status :: "code \<Rightarrow> 'a res \<Rightarrow> 'a res" where
  "as_status c r = (case r of Inl e \<Rightarrow> Inl (Status c (err_text e)) | Inr x \<Rightarrow> Inr x)"

definition with_default :: "int \<Rightarrow> int \<Rightarrow> int" where
  "with_default d n = (if n = 0 then d else n)"

definition effective_config :: "daemon_config \<Rightarrow> daemon_config" where
  "effective_config cfg = cfg\<lparr>
     cf_MaxConcurrentPerUID := with_default 2 (cf_MaxConcurrentPerUID cfg),
     cf_MaxConcurrentTotal := with_default 32 (cf_MaxConcurrentTotal cfg),
     cf_MaxSubmissionsPerMinute := with_default 60 (cf_MaxSubmissionsPerMinute cfg),
     cf_MaxWatchersPerUID := with_default 8 (cf_MaxWatchersPerUID cfg),
     cf_MaxWatchersPerRequest := with_default 4 (cf_MaxWatchersPerRequest cfg),
     cf_MaxExecutableBytes := with_default (256 * 1024 * 1024) (cf_MaxExecutableBytes cfg),
     cf_RetentionDays := with_default 30 (cf_RetentionDays cfg),
     cf_MaxRetainedUnapproved := with_default 10000 (cf_MaxRetainedUnapproved cfg)\<rparr>"

definition New :: "daemon_config \<Rightarrow> store \<Rightarrow> daemon_config \<times> service" where
  "New cfg store =
     (effective_config cfg,
      \<lparr>sv_Store = snd (SetMaxBytes (cf_MaxDatabaseBytes cfg) store), sv_limits = no_limits,
       sv_executing = {}, sv_spawned = [], sv_launched = []\<rparr>)"

subsection \<open>Submit\<close>

record submit_response =
  sb_RequestId :: string
  sb_RequestHash :: string
  sb_Status :: req_status
  sb_Hostname :: string
  sb_Command :: string

definition too_many :: err where
  "too_many = Status ResourceExhausted ''too many outstanding requests''"

definition nil_dereference :: err where
  "nil_dereference = External ''panic: invalid memory address or nil pointer dereference''"

definition build_request :: "requester \<Rightarrow> submit_request \<Rightarrow> string \<Rightarrow> file_metadata \<Rightarrow> file_metadata option \<Rightarrow>
    string option \<Rightarrow> working_directory_metadata \<Rightarrow> string \<Rightarrow> string \<Rightarrow> string \<Rightarrow> nat \<Rightarrow> execution_request" where
  "build_request actor i executable metadata interpreter argument directory action requestID nonce now =
     \<lparr>er_Version = 1, er_RequestID = requestID, er_Requester = actor,
      er_Execution = \<lparr>ex_Executable = executable, ex_Argv = si_Argv i, ex_Cwd = wd_Path directory,
        ex_Env = cloneMap (si_Env i)\<rparr>,
      er_ExecutableMetadata = metadata, er_InterpreterMetadata = interpreter,
      er_InterpreterArgument = argument, er_WorkingDirectoryMetadata = directory,
      er_Risk = Risk executable (si_Argv i) (interpreter \<noteq> None) (si_Env i),
      er_PolicyResult = action, er_Reason = TrimSpace (si_Reason i), er_CreatedAt = fmt_time now,
      er_ExpiresAt = fmt_time (now + nat (si_TimeoutMs i) * 1000000), er_Nonce = nonce\<rparr>"

definition outstanding_room :: "daemon_config \<Rightarrow> int \<times> int \<Rightarrow> bool" where
  "outstanding_room cfg c \<longleftrightarrow> \<not> (fst c \<ge> cf_MaxPendingPerUID cfg \<or> snd c \<ge> cf_MaxPendingTotal cfg)"

text \<open>The inspection of the files and the policy, and the request made from it.\<close>

definition prepare_request :: "world \<Rightarrow> daemon_config \<Rightarrow> requester \<Rightarrow> submit_request \<Rightarrow>
    (execution_request \<times> string) res" where
  "prepare_request w cfg actor i =
     res_bind (as_status InvalidArgument (ResolveExecutable (w_fs w) (si_Executable i) (si_Cwd i))) (\<lambda>executable.
     res_bind (as_status InvalidArgument
       (InspectExecutableAndInterpreter (w_fs w) executable (cf_MaxExecutableBytes cfg)))
       (\<lambda>(metadata, interpreter, argument).
     res_bind (as_status InvalidArgument (InspectDirectory (w_fs w) (si_Cwd i))) (\<lambda>directory.
     case Load (w_policy w) of Inl _ \<Rightarrow> Inl (Status FailedPrecondition ''local policy is invalid'')
     | Inr currentPolicy \<Rightarrow>
       let action = Evaluate (sys_EvalSymlinks (w_fs w)) currentPolicy
             \<lparr>pi_Executable = executable, pi_Argv = si_Argv i, pi_Cwd = wd_Path directory, pi_UID = rq_UID actor\<rparr>
       in res_bind (UUID (w_uuid w)) (\<lambda>requestID.
          res_bind (Nonce (w_nonce w)) (\<lambda>nonce.
            let request = build_request actor i executable metadata interpreter argument directory action
                  requestID nonce (w_now w 2)
            in res_bind (Hash (w_jcs w) (execution_request_json request)) (\<lambda>hash. Inr (request, hash)))))))"

text \<open>The critical section under \<open>submitMu\<close>.\<close>

definition admit_request :: "world \<Rightarrow> daemon_config \<Rightarrow> requester \<Rightarrow> execution_request \<Rightarrow> string \<Rightarrow> unit service_op" where
  "admit_request w cfg actor request hash =
     and_then (on_store w 2 (OutstandingCounts (w_sf w) (rq_UID actor))) (\<lambda>counts.
       if \<not> outstanding_room cfg counts then fail too_many
       else and_then (attempt (on_store w 3 (Create (w_sizes w 0) request hash))) (\<lambda>created.
         case created of
           Inl e \<Rightarrow> if e = ErrStorageLimit then fail (Status ResourceExhausted ''state storage limit reached'')
                    else fail e
         | Inr _ \<Rightarrow> on_store w 4 (Transition (er_RequestID request)
             (if er_PolicyResult request = Deny then PolicyRejected else Waiting) (Some Created))))"

definition Submit :: "world \<Rightarrow> daemon_config \<Rightarrow> call_context \<Rightarrow> submit_request option \<Rightarrow> submit_response service_op" where
  "Submit w cfg ctx input =
     and_then (lift_res (requester_of ctx)) (\<lambda>actor.
     and_then (lift_res (as_status InvalidArgument (validateSubmit input))) (\<lambda>_.
     case input of None \<Rightarrow> fail nil_dereference
     | Some i \<Rightarrow>
     and_then (on_limits (acquireSubmission cfg (w_now w 0) (rq_UID actor))) (\<lambda>_.
     finally_do (\<lambda>sv. sv\<lparr>sv_limits := releaseSubmission (rq_UID actor) (sv_limits sv)\<rparr>) (
       and_then (on_store w 0 (ExpireOutstanding (w_sf w) (w_now w 1))) (\<lambda>_.
       and_then (on_store w 1 (OutstandingCounts (w_sf w) (rq_UID actor))) (\<lambda>counts.
       if \<not> outstanding_room cfg counts then fail too_many
       else and_then (lift_res (prepare_request w cfg actor i)) (\<lambda>(request, hash).
         and_then (admit_request w cfg actor request hash) (\<lambda>_.
         and_then (attempt (on_store w 5 (Get (er_RequestID request)))) (\<lambda>stored.
           case stored of
             Inr (Some st) \<Rightarrow> ret \<lparr>sb_RequestId = er_RequestID request, sb_RequestHash = hash,
               sb_Status = sr_Status st, sb_Hostname = hostname (w_hostname w),
               sb_Command = command (ex_Executable (er_Execution request)) (si_Argv i)\<rparr>
           | _ \<Rightarrow> fail nil_dereference)))))))))"

subsection \<open>Decisions\<close>

record decision_request =
  di_RequestId :: string
  di_Reason :: string
  di_RequestHash :: string

record decision_response =
  de_RequestId :: string
  de_ApprovalId :: string
  de_Status :: req_status
  de_DecidedBy :: string

definition decided :: "string \<Rightarrow> req_status" where
  "decided decision = (if decision = ''approve'' then Approved else Denied)"

text \<open>Nothing, the response to repeat, or an error.\<close>

definition existingDecision :: "stored_request \<Rightarrow> string \<Rightarrow> decision_response option store_op" where
  "existingDecision item decision =
     and_then (ApprovalFor (er_RequestID (sr_Request item))) (\<lambda>approval.
       case approval of None \<Rightarrow> ret None
       | Some a \<Rightarrow>
         if \<not> Equal (ap_RequestID a) (er_RequestID (sr_Request item))
            \<or> \<not> Equal (ap_RequestHash a) (sr_RequestHash item)
         then fail (Status DataLoss ''stored decision integrity check failed'')
         else if ap_Decision a \<noteq> decision
         then fail (Status FailedPrecondition (''request already has a conflicting '' @ ap_Decision a @ '' decision''))
         else ret (Some \<lparr>de_RequestId = er_RequestID (sr_Request item), de_ApprovalId = ap_ApprovalID a,
                de_Status = decided decision, de_DecidedBy = approvalActor a\<rparr>))"

definition hash_mismatch :: "jcs_transform \<Rightarrow> stored_request \<Rightarrow> bool" where
  "hash_mismatch jcs item =
     (case Hash jcs (execution_request_json (sr_Request item)) of
        Inl _ \<Rightarrow> True | Inr recomputed \<Rightarrow> \<not> Equal recomputed (sr_RequestHash item))"

definition make_approval :: "requester \<Rightarrow> stored_request \<Rightarrow> string \<Rightarrow> string \<Rightarrow> string \<Rightarrow> nat \<Rightarrow> approval" where
  "make_approval actor item decision reason approvalID now =
     \<lparr>ap_Version = 1, ap_ApprovalID = approvalID, ap_RequestID = er_RequestID (sr_Request item),
      ap_RequestHash = sr_RequestHash item, ap_Decision = decision,
      ap_ApprovedBy = \<lparr>ab_Subject = ''uid:0'', ab_DisplayName = rq_Username actor\<rparr>,
      ap_ApprovedAt = fmt_time now, ap_Reason = reason\<rparr>"

text \<open>A request that is no longer waiting: repeat its decision, or report it.\<close>

definition decide_again :: "world \<Rightarrow> stored_request \<Rightarrow> string \<Rightarrow> decision_response service_op" where
  "decide_again w item decision =
     and_then (on_store w 2 (existingDecision item decision)) (\<lambda>found.
       case found of
         Some response \<Rightarrow>
           and_then (if decision = ''approve'' \<and> sr_Status item = Approved
                     then spawn_execute (er_RequestID (sr_Request item)) else ret ()) (\<lambda>_. ret response)
       | None \<Rightarrow> fail (Status FailedPrecondition
             (''request is '' @ status_text (sr_Status item) @ '', not awaiting approval'')))"

definition record_decision :: "world \<Rightarrow> call_context \<Rightarrow> requester \<Rightarrow> stored_request \<Rightarrow> string \<Rightarrow> string \<Rightarrow> string
    \<Rightarrow> decision_response service_op" where
  "record_decision w ctx actor item decision reason approvalID =
     (let approval = make_approval actor item decision reason approvalID (w_now w 1)
      in and_then (attempt (on_store w 3 (AcceptApprovalContext approval (w_now w 2)))) (\<lambda>accepted.
           case accepted of
             Inl _ \<Rightarrow>
               and_then (on_store w 4 (existingDecision item decision)) (\<lambda>found.
                 case found of Some response \<Rightarrow> ret response
                 | None \<Rightarrow> (case cx_Err ctx of Some e \<Rightarrow> fail e
                     | None \<Rightarrow> fail (Status Aborted ''request was decided concurrently'')))
           | Inr _ \<Rightarrow>
               and_then (ignoring (on_store w 5 (RecordSecurityEvent
                 (if decision = ''approve'' then ''request.approved'' else ''request.denied'')
                 (er_RequestID (sr_Request item)) (sr_RequestHash item)
                 (if reason = '''' then decision @ ''d by local uid 0'' else reason) (w_now w 3)))) (\<lambda>_.
               and_then (if decision = ''approve'' then spawn_execute (er_RequestID (sr_Request item)) else ret ()) (\<lambda>_.
               ret \<lparr>de_RequestId = er_RequestID (sr_Request item), de_ApprovalId = approvalID,
                    de_Status = decided decision, de_DecidedBy = approvalActor approval\<rparr>))))"

definition decide :: "world \<Rightarrow> call_context \<Rightarrow> decision_request \<Rightarrow> string \<Rightarrow> decision_response service_op" where
  "decide w ctx input decision =
     and_then (lift_res (rootRequester ctx)) (\<lambda>actor.
     let reason = TrimSpace (di_Reason input) in
     if length reason > 4096 \<or> contains_byte reason NUL
     then fail (Status InvalidArgument ''invalid decision reason'')
     else
     and_then (on_store w 0 (ExpireOutstanding (w_sf w) (w_now w 0))) (\<lambda>_.
     and_then (on_store w 1 (Get (di_RequestId input))) (\<lambda>found.
       case found of None \<Rightarrow> fail (Status NotFound ''request not found'')
       | Some item \<Rightarrow>
         if decision = ''approve'' \<and> \<not> Equal (di_RequestHash input) (sr_RequestHash item)
         then fail (Status FailedPrecondition ''approval must confirm the inspected request hash'')
         else if sr_Status item \<noteq> Waiting then decide_again w item decision
         else if hash_mismatch (w_jcs w) item
         then and_then (ignoring (on_store w 2 (Transition (er_RequestID (sr_Request item)) PolicyRejected (Some Waiting)))) (\<lambda>_.
              and_then (ignoring (on_store w 3 (RecordSecurityEvent ''request.integrity-failed''
                (er_RequestID (sr_Request item)) (sr_RequestHash item)
                ''Persisted request hash mismatch during local decision'' (w_now w 1)))) (\<lambda>_.
              fail (Status DataLoss ''persisted request integrity check failed'')))
         else and_then (lift_res (UUID (w_uuid w))) (\<lambda>approvalID.
              record_decision w ctx actor item decision reason approvalID))))"

definition Approve :: "world \<Rightarrow> call_context \<Rightarrow> decision_request \<Rightarrow> decision_response service_op" where
  "Approve w ctx input = decide w ctx input ''approve''"

definition Deny_request :: "world \<Rightarrow> call_context \<Rightarrow> decision_request \<Rightarrow> decision_response service_op" where
  "Deny_request w ctx input = decide w ctx input ''deny''"

subsection \<open>Cancel\<close>

definition Cancel :: "world \<Rightarrow> call_context \<Rightarrow> string \<Rightarrow> req_status service_op" where
  "Cancel w ctx requestID =
     and_then (lift_res (requester_of ctx)) (\<lambda>actor.
     and_then (on_store w 0 (Get requestID)) (\<lambda>found.
       case found of None \<Rightarrow> fail (Status NotFound ''request not found'')
       | Some item \<Rightarrow>
         if rq_UID actor \<noteq> 0 \<and> rq_UID actor \<noteq> rq_UID (er_Requester (sr_Request item))
         then fail (Status PermissionDenied ''request belongs to another local user'')
         else if sr_Status item \<noteq> Created \<and> sr_Status item \<noteq> Waiting
         then fail (Status FailedPrecondition ''request can no longer be cancelled'')
         else and_then (on_store w 1 (Transition requestID Cancelled (Some (sr_Status item)))) (\<lambda>_.
              ret Cancelled)))"

end
