(* ===== verification/Daemon_Execute.thy ===== *)
theory Daemon_Execute
  imports Daemon_Service
begin

section \<open>Execution, listing and maintenance: internal/daemon/service.go\<close>

subsection \<open>The child process\<close>

text \<open>
  What the operating system does with the command the daemon builds: a pipe or the start may fail, or
  the process runs. Then it writes chunks to its two streams, in the order in which the daemon's
  drains take the capture lock, and ends; \<open>cr_exited\<close> and \<open>cr_signaled\<close> are the wait status,
  \<open>cr_waitErr\<close> whether \<open>cmd.Wait\<close> returned an error, and \<open>cr_timedOut\<close> whether the timer fired.
\<close>

record child_run =
  ch_output :: "(string \<times> bytes) list"
  ch_exited :: "int option"
  ch_signaled :: "string option"
  ch_waitErr :: bool
  ch_timedOut :: bool

datatype child =
    StdoutPipeFails
  | StderrPipeFails
  | StartFails
  | Runs child_run

text \<open>The time the process is given, in nanoseconds, and the exit code and signal that are recorded.\<close>

definition execution_limit :: "daemon_config \<Rightarrow> int \<Rightarrow> int \<Rightarrow> int" where
  "execution_limit cfg requestExpiry now =
     (let executionLimit = cf_MaxExecutionSeconds cfg * 1000000000;
          untilRequestExpiry = requestExpiry - now
      in if untilRequestExpiry < executionLimit then untilRequestExpiry else executionLimit)"

definition recorded_signal :: "child_run \<Rightarrow> string" where
  "recorded_signal c =
     (if ch_timedOut c then ''EXECUTION_TIMEOUT''
      else case ch_signaled c of None \<Rightarrow> '''' | Some s \<Rightarrow> s)"

definition recorded_exit :: "child_run \<Rightarrow> int option" where
  "recorded_exit c =
     (case ch_exited c of Some code \<Rightarrow> Some code | None \<Rightarrow> if \<not> ch_waitErr c then Some 0 else None)"

text \<open>The arguments of the helper process.\<close>

definition helper_arguments :: "execution_request \<Rightarrow> string list" where
  "helper_arguments request =
     [''__exec-fds'', ex_Executable (er_Execution request),
      (case er_InterpreterMetadata request of None \<Rightarrow> '''' | Some m \<Rightarrow> fm_Path m),
      (case er_InterpreterArgument request of None \<Rightarrow> ''0'' | Some _ \<Rightarrow> ''1''),
      (case er_InterpreterArgument request of None \<Rightarrow> '''' | Some a \<Rightarrow> a)]
     @ ex_Argv (er_Execution request)"

subsection \<open>execute\<close>

text \<open>What the checks before the start give: the state to move an approved request to when one fails, with
  a security event where the code records one, or the files and the environment to run with.\<close>

datatype verdict =
    Reject req_status "(string \<times> string) option"
  | Proceed open_file open_file "open_file option" "string list"

definition check_policy_and_files :: "world \<Rightarrow> daemon_config \<Rightarrow> execution_request \<Rightarrow> verdict" where
  "check_policy_and_files w cfg request =
     (case Load (w_policy w) of Inl _ \<Rightarrow> Reject PolicyRejected None
      | Inr currentPolicy \<Rightarrow>
        if Evaluate (sys_EvalSymlinks (w_fs w)) currentPolicy
             \<lparr>pi_Executable = ex_Executable (er_Execution request), pi_Argv = ex_Argv (er_Execution request),
              pi_Cwd = ex_Cwd (er_Execution request), pi_UID = rq_UID (er_Requester request)\<rparr> = Deny
           \<or> ex_Env (er_Execution request) \<noteq> []
        then Reject PolicyRejected None
        else case OpenVerifiedDirectory (w_fs w) (er_WorkingDirectoryMetadata request) of
            Inl _ \<Rightarrow> Reject PolicyRejected None
          | Inr directory \<Rightarrow>
            (case OpenVerifiedExecutable (w_fs w) (er_ExecutableMetadata request) of
               Inl _ \<Rightarrow> Reject PolicyRejected None
             | Inr executable \<Rightarrow>
               (case (case er_InterpreterMetadata request of None \<Rightarrow> Inr None
                      | Some m \<Rightarrow> res_bind (OpenVerifiedExecutable (w_fs w) m) (\<lambda>f. Inr (Some f))) of
                  Inl _ \<Rightarrow> Reject PolicyRejected None
                | Inr interpreter \<Rightarrow>
                  (case SanitizeEnvironment (ex_Env (er_Execution request)) (cf_AllowedEnvironment cfg) of
                     Inl _ \<Rightarrow> Reject PolicyRejected None
                   | Inr environment \<Rightarrow> Proceed executable directory interpreter environment))))"

definition approval_binds :: "stored_request \<Rightarrow> approval option res \<Rightarrow> bool" where
  "approval_binds item found =
     (case found of Inr (Some a) \<Rightarrow>
        \<not> (ap_Decision a \<noteq> ''approve'' \<or> \<not> Equal (ap_RequestID a) (er_RequestID (sr_Request item))
           \<or> \<not> Equal (ap_RequestHash a) (sr_RequestHash item))
      | _ \<Rightarrow> False)"

definition not_expired :: "stored_request \<Rightarrow> nat \<Rightarrow> bool" where
  "not_expired item now =
     (case parse_time (er_ExpiresAt (sr_Request item)) of None \<Rightarrow> False | Some expiry \<Rightarrow> expiry > int now)"

definition reject :: "world \<Rightarrow> string \<Rightarrow> string \<Rightarrow> req_status \<Rightarrow> (string \<times> string) option \<Rightarrow> unit service_op" where
  "reject w requestID hash next event =
     and_then (ignoring (on_store w 2 (Transition requestID next (Some Approved)))) (\<lambda>_.
       case event of None \<Rightarrow> ret ()
       | Some (kind, detail) \<Rightarrow> ignoring (on_store w 3 (RecordSecurityEvent kind requestID hash detail (w_now w 1))))"

text \<open>Draining the streams: each chunk takes the next sequence number.\<close>

fun drain :: "world \<Rightarrow> daemon_config \<Rightarrow> string \<Rightarrow> nat \<Rightarrow> (string \<times> bytes) list \<Rightarrow> unit service_op" where
  "drain w cfg requestID sequence [] = ret ()"
| "drain w cfg requestID sequence ((stream, data) # rest) =
     and_then (ignoring (on_store w (6 + sequence) (AppendOutput (w_sizes w sequence) requestID (word_of_nat sequence)
        stream data (out_PersistedBytes (cf_Output cfg))))) (\<lambda>_.
     drain w cfg requestID (Suc sequence) rest)"

definition finish :: "world \<Rightarrow> string \<Rightarrow> int option \<Rightarrow> string \<Rightarrow> unit service_op" where
  "finish w requestID exitCode signal =
     ignoring (on_store w 5 (FinishExecution requestID exitCode signal (w_now w 4)))"

definition run_child :: "world \<Rightarrow> daemon_config \<Rightarrow> child \<Rightarrow> launch \<Rightarrow> unit service_op" where
  "run_child w cfg child la =
     (case child of
        Runs c \<Rightarrow>
          and_then (state_upd (\<lambda>sv. sv\<lparr>sv_launched := sv_launched sv @ [la]\<rparr>)) (\<lambda>_.
          and_then (drain w cfg (la_RequestID la) 0 (ch_output c)) (\<lambda>_.
          finish w (la_RequestID la) (recorded_exit c) (recorded_signal c)))
      | _ \<Rightarrow> finish w (la_RequestID la) (Some 127) '''')"

definition start_approved :: "world \<Rightarrow> daemon_config \<Rightarrow> child \<Rightarrow> string \<Rightarrow> stored_request \<Rightarrow> unit service_op" where
  "start_approved w cfg child requestID item =
     (case check_policy_and_files w cfg (sr_Request item) of
        Reject next event \<Rightarrow> reject w requestID (sr_RequestHash item) next event
      | Proceed executable directory interpreter environment \<Rightarrow>
          and_then (attempt (on_store w 4 (BeginExecution requestID Approved (w_now w 2) (w_now w 3)))) (\<lambda>begun.
            case begun of Inl _ \<Rightarrow> ret ()
            | Inr _ \<Rightarrow> run_child w cfg child
                \<lparr>la_RequestID = requestID, la_Args = helper_arguments (sr_Request item), la_Env = environment,
                 la_Executable = executable, la_Directory = directory, la_Interpreter = interpreter\<rparr>))"

definition execute_body :: "world \<Rightarrow> daemon_config \<Rightarrow> child \<Rightarrow> string \<Rightarrow> unit service_op" where
  "execute_body w cfg child requestID =
     and_then (attempt (on_store w 0 (Get requestID))) (\<lambda>found.
       case found of
         Inr (Some item) \<Rightarrow>
           if \<not> not_expired item (w_now w 0) then reject w requestID (sr_RequestHash item) Expired None
           else if hash_mismatch (w_jcs w) item
           then reject w requestID (sr_RequestHash item) PolicyRejected
             (Some (''request.integrity-failed'', ''Persisted request hash mismatch before execution''))
           else and_then (attempt (on_store w 1 (ApprovalFor requestID))) (\<lambda>approval.
             if \<not> approval_binds item approval
             then reject w requestID (sr_RequestHash item) PolicyRejected
               (Some (''approval.integrity-failed'', ''Local approval binding mismatch''))
             else start_approved w cfg child requestID item)
       | _ \<Rightarrow> ret ())"

definition execute :: "world \<Rightarrow> daemon_config \<Rightarrow> child \<Rightarrow> string \<Rightarrow> unit service_op" where
  "execute w cfg child requestID = (\<lambda>sv.
     if requestID \<in> sv_executing sv then (Inr (), sv)
     else finally_do (\<lambda>t. t\<lparr>sv_executing := sv_executing t - {requestID}\<rparr>)
       (execute_body w cfg child requestID) (sv\<lparr>sv_executing := insert requestID (sv_executing sv)\<rparr>))"

subsection \<open>RecoverApproved and maintenance\<close>

definition RecoverApproved :: "world \<Rightarrow> unit service_op" where
  "RecoverApproved w =
     and_then (attempt (on_store w 0 (ExpireOutstanding (w_sf w) (w_now w 0)))) (\<lambda>expired.
       case expired of Inl _ \<Rightarrow> ret ()
       | Inr _ \<Rightarrow>
         and_then (attempt (on_store w 1 Approved_requests)) (\<lambda>found.
           case found of Inl _ \<Rightarrow> ret ()
           | Inr items \<Rightarrow> state_upd (\<lambda>sv. sv\<lparr>sv_spawned := sv_spawned sv @ map (\<lambda>i. er_RequestID (sr_Request i)) items\<rparr>)))"

text \<open>The cutoff of \<open>AddDate(0, 0, -days)\<close>, in a time zone without daylight saving.\<close>

definition retention_cutoff :: "daemon_config \<Rightarrow> nat \<Rightarrow> int" where
  "retention_cutoff cfg now = int now - cf_RetentionDays cfg * 86400 * 1000000000"

definition runRetentionMaintenance :: "world \<Rightarrow> daemon_config \<Rightarrow> unit service_op" where
  "runRetentionMaintenance w cfg =
     ignoring (on_store w 0 (PruneUnapproved (retention_cutoff cfg (w_now w 0)) (cf_MaxRetainedUnapproved cfg)))"

datatype tick = ExpiryTick | RetentionTick

text \<open>\<open>RunMaintenance\<close> until its context ends: a retention run, then what the two tickers deliver, each tick
  with the world it sees.\<close>

fun maintenance_ticks :: "daemon_config \<Rightarrow> (tick \<times> world) list \<Rightarrow> unit service_op" where
  "maintenance_ticks cfg [] = ret ()"
| "maintenance_ticks cfg ((ExpiryTick, w) # ticks) =
     and_then (ignoring (on_store w 0 (ExpireOutstanding (w_sf w) (w_now w 0)))) (\<lambda>_. maintenance_ticks cfg ticks)"
| "maintenance_ticks cfg ((RetentionTick, w) # ticks) =
     and_then (runRetentionMaintenance w cfg) (\<lambda>_. maintenance_ticks cfg ticks)"

definition RunMaintenance :: "world \<Rightarrow> daemon_config \<Rightarrow> (tick \<times> world) list \<Rightarrow> unit service_op" where
  "RunMaintenance w cfg ticks = and_then (runRetentionMaintenance w cfg) (\<lambda>_. maintenance_ticks cfg ticks)"

subsection \<open>Listing and inspecting\<close>

record request_record =
  re_RequestId :: string
  re_RequestHash :: string
  re_Status :: req_status
  re_RequesterUid :: u32
  re_RequesterGid :: u32
  re_RequesterUsername :: string
  re_RequesterGroup :: string
  re_Executable :: string
  re_Argv :: "string list"
  re_Cwd :: string
  re_Env :: "(string \<times> string) list"
  re_Command :: string
  re_Reason :: string
  re_CreatedAt :: string
  re_ExpiresAt :: string
  re_PolicyResult :: string
  re_Shell :: bool
  re_Interpreter :: bool
  re_Script :: bool
  re_Warnings :: "string list"
  re_DecidedBy :: string
  re_DecisionReason :: string
  re_Decision :: string
  re_ApprovalId :: string

definition or_empty :: "string option \<Rightarrow> string" where
  "or_empty x = (case x of None \<Rightarrow> '''' | Some s \<Rightarrow> s)"

definition record_of :: "stored_request \<Rightarrow> approval option \<Rightarrow> request_record" where
  "record_of item approval =
     (let q = sr_Request item; e = er_Execution q; r = er_Requester q in
      \<lparr>re_RequestId = er_RequestID q, re_RequestHash = sr_RequestHash item, re_Status = sr_Status item,
       re_RequesterUid = rq_UID r, re_RequesterGid = rq_GID r,
       re_RequesterUsername = or_empty (rq_Username r), re_RequesterGroup = or_empty (rq_GroupName r),
       re_Executable = ex_Executable e, re_Argv = ex_Argv e, re_Cwd = ex_Cwd e, re_Env = cloneMap (ex_Env e),
       re_Command = command (ex_Executable e) (ex_Argv e), re_Reason = er_Reason q,
       re_CreatedAt = er_CreatedAt q, re_ExpiresAt = er_ExpiresAt q, re_PolicyResult = er_PolicyResult q,
       re_Shell = rk_Shell (er_Risk q), re_Interpreter = rk_Interpreter (er_Risk q),
       re_Script = rk_Script (er_Risk q), re_Warnings = rk_Warnings (er_Risk q),
       re_DecidedBy = (case approval of None \<Rightarrow> '''' | Some a \<Rightarrow> approvalActor a),
       re_DecisionReason = (case approval of None \<Rightarrow> '''' | Some a \<Rightarrow> ap_Reason a),
       re_Decision = (case approval of None \<Rightarrow> '''' | Some a \<Rightarrow> ap_Decision a),
       re_ApprovalId = (case approval of None \<Rightarrow> '''' | Some a \<Rightarrow> ap_ApprovalID a)\<rparr>)"

text \<open>An error of \<open>ApprovalFor\<close> is dropped. When the approval cannot be decoded, Go still returns the
  struct that was filled so far; which fields that are is not modelled, the record then has none.\<close>

definition requestRecord :: "world \<Rightarrow> nat \<Rightarrow> stored_request \<Rightarrow> request_record service_op" where
  "requestRecord w i item =
     and_then (attempt (on_store w i (ApprovalFor (er_RequestID (sr_Request item))))) (\<lambda>approval.
       ret (record_of item (case approval of Inl _ \<Rightarrow> None | Inr a \<Rightarrow> a)))"

fun request_records :: "world \<Rightarrow> nat \<Rightarrow> stored_request list \<Rightarrow> request_record list service_op" where
  "request_records w i [] = ret []"
| "request_records w i (item # items) =
     and_then (requestRecord w i item) (\<lambda>r. and_then (request_records w (Suc i) items) (\<lambda>rs. ret (r # rs)))"

text \<open>\<open>sort.Slice\<close> with the later creation text first; it is not stable, here equal texts keep their order.\<close>

definition newest_first :: "stored_request list \<Rightarrow> stored_request list" where
  "newest_first items = order_desc (\<lambda>i. er_CreatedAt (sr_Request i)) items"

definition ListRequests :: "world \<Rightarrow> call_context \<Rightarrow> bool \<Rightarrow> request_record list service_op" where
  "ListRequests w ctx includeHistory =
     and_then (lift_res (rootRequester ctx)) (\<lambda>_.
     and_then (on_store w 0 (ExpireOutstanding (w_sf w) (w_now w 0))) (\<lambda>_.
     and_then (if includeHistory then on_store w 1 (Recent (w_sf w) 50 0 True)
               else on_store w 1 (RecentPending (w_sf w) (w_now w 1) 256 0 True)) (\<lambda>items.
     request_records w 2 (newest_first items))))"

definition InspectRequest :: "world \<Rightarrow> call_context \<Rightarrow> string \<Rightarrow> request_record service_op" where
  "InspectRequest w ctx requestID =
     and_then (lift_res (rootRequester ctx)) (\<lambda>_.
     and_then (on_store w 0 (Get requestID)) (\<lambda>found.
       case found of None \<Rightarrow> fail (Status NotFound ''request not found'')
       | Some item \<Rightarrow> requestRecord w 1 item))"

end
