(* ===== verification/Daemon_Contract.thy ===== *)
theory Daemon_Contract
  imports Daemon_Execute
begin

section \<open>What the handlers do to the database\<close>

text \<open>
  Handlers, executions and maintenance run beside each other, and what one of them does to the tables depends
  on what the others do between its accesses to the store. The contract is one of relying and guaranteeing: an
  effect on the tables that the calls of the others stay within (\<open>rely\<close>), and that the daemon's own calls stay
  within, is one that every handler stays within. The contract holds for every effect that all store operations
  stay within, relying on nothing; for an effect of the daemon's own use of the store, as the life of a
  request, the others are relied on to be handlers too.
\<close>

subsection \<open>The calls of a daemon's history\<close>

text \<open>
  Any sequence of handler calls, executions and maintenance runs, each with the world it sees and so
  with any interference of the others at each of its accesses to the store; restarts of the store
  (\<open>CallOpen\<close>) are part of that interference.
\<close>

datatype handler_call =
    DoSubmit call_context "submit_request option"
  | DoDecide call_context decision_request string
  | DoCancel call_context string
  | DoExecute child string
  | DoRecoverApproved
  | DoMaintenance "(tick \<times> world) list"
  | DoList call_context bool
  | DoInspect call_context string

fun run_handler :: "daemon_config \<Rightarrow> world \<times> handler_call \<Rightarrow> service \<Rightarrow> service" where
  "run_handler cfg (w, DoSubmit ctx input) sv = snd (Submit w cfg ctx input sv)"
| "run_handler cfg (w, DoDecide ctx input decision) sv = snd (decide w ctx input decision sv)"
| "run_handler cfg (w, DoCancel ctx k) sv = snd (Cancel w ctx k sv)"
| "run_handler cfg (w, DoExecute child k) sv = snd (execute w cfg child k sv)"
| "run_handler cfg (w, DoRecoverApproved) sv = snd (RecoverApproved w sv)"
| "run_handler cfg (w, DoMaintenance ticks) sv = snd (RunMaintenance w cfg ticks sv)"
| "run_handler cfg (w, DoList ctx history) sv = snd (ListRequests w ctx history sv)"
| "run_handler cfg (w, DoInspect ctx k) sv = snd (InspectRequest w ctx k sv)"

definition run_handlers :: "daemon_config \<Rightarrow> (world \<times> handler_call) list \<Rightarrow> service \<Rightarrow> service" where
  "run_handlers cfg calls sv = fold (run_handler cfg) calls sv"

lemma run_handlers_simps [simp]:
  "run_handlers cfg [] sv = sv" "run_handlers cfg (c # cs) sv = run_handlers cfg cs (run_handler cfg c sv)"
  by (simp_all add: run_handlers_def)

text \<open>The worlds in which the others make only certain calls.\<close>

definition others :: "(store_call \<Rightarrow> bool) \<Rightarrow> world \<Rightarrow> bool" where
  "others P w \<longleftrightarrow> (\<forall>i. list_all P (w_env w i))"

fun others_in :: "(store_call \<Rightarrow> bool) \<Rightarrow> world \<times> handler_call \<Rightarrow> bool" where
  "others_in P (w, DoMaintenance ticks) \<longleftrightarrow> others P w \<and> list_all (\<lambda>t. others P (snd t)) ticks"
| "others_in P (w, c) \<longleftrightarrow> others P w"

lemma others_True [simp]: "others (\<lambda>c. True) w"
  by (simp add: others_def list_all_iff)

lemma others_in_True [simp]: "others_in (\<lambda>c. True) c"
  by (cases "(\<lambda>c :: store_call. True, c)" rule: others_in.cases) (simp_all add: list_all_iff)

subsection \<open>The contract\<close>

text \<open>A check that fails rejects.\<close>

lemma check_policy_and_files_Reject: "check_policy_and_files w cfg q = Reject nx event \<Longrightarrow> nx = PolicyRejected \<and> event = None"
  by (auto simp: check_policy_and_files_def split: sum.splits if_splits)

definition on_sv :: "(db \<Rightarrow> db \<Rightarrow> bool) \<Rightarrow> service \<Rightarrow> service \<Rightarrow> bool" where
  "on_sv Q sv t \<longleftrightarrow> Q (st_db (sv_Store sv)) (st_db (sv_Store t))"

sublocale table_effect \<subseteq> sv_effect: effect_order "on_sv Q"
  by unfold_locales (auto simp: on_sv_def tab_refl intro: tab_trans)

locale handler_contract = table_effect Q for Q :: "db \<Rightarrow> db \<Rightarrow> bool" +
  fixes rely :: "store_call \<Rightarrow> bool"
  assumes rely_effect: "rely c \<Longrightarrow> Q (st_db s) (st_db (run_call sf c s))"
    and call_effect: "daemon_call c \<Longrightarrow> Q (st_db s) (st_db (run_call sf c s))"
begin

lemma rely_calls: "list_all rely cs \<Longrightarrow> Q (st_db s) (st_db (run_calls sf cs s))"
  by (induction cs arbitrary: s) (auto simp: tab_refl intro: tab_trans rely_effect)

lemma store_access:
  assumes "others rely w" and "\<And>s. Q (st_db s) (st_db (snd (m s)))"
  shows "within (on_sv Q) (on_store w i m)"
proof (rule withinI)
  fix sv :: service
  have "Q (st_db (sv_Store sv)) (st_db (run_calls (w_sf w) (w_env w i) (sv_Store sv)))"
    using assms(1) by (intro rely_calls) (simp add: others_def)
  then have "Q (st_db (sv_Store sv)) (st_db (snd (m (run_calls (w_sf w) (w_env w i) (sv_Store sv)))))"
    by (rule tab_trans) (rule assms(2))
  then show "on_sv Q sv (snd (on_store w i m sv))"
    by (simp add: on_store_def on_sv_def case_prod_unfold)
qed

text \<open>The operations as the handlers call them.\<close>

lemma handler_ops:
  "Q (st_db s) (st_db (snd (Create sizes request hash s)))"
  "nx \<notin> {Approved, Denied, Executing} \<Longrightarrow> Q (st_db s) (st_db (snd (Transition k nx ex s)))"
  "Q (st_db s) (st_db (snd (AcceptApprovalContext a t1 s)))"
  "Q (st_db s) (st_db (snd (BeginExecution k Approved t1 t2 s)))"
  "Q (st_db s) (st_db (snd (FinishExecution k exitCode signal t1 s)))"
  "Q (st_db s) (st_db (snd (AppendOutput sizes k sequence stream data limit s)))"
  "Q (st_db s) (st_db (snd (ExpireOutstanding sf t1 s)))"
  "Q (st_db s) (st_db (snd (RecentPending sf t1 n uid allUsers s)))"
  "Q (st_db s) (st_db (snd (PruneUnapproved olderThan retain s)))"
  "Q (st_db s) (st_db (snd (RecordSecurityEvent ty k hash detail t1 s)))"
  using call_effect [of "CallCreate sizes request hash" s] call_effect [of "CallTransition k nx ex" s]
    call_effect [of "CallAcceptApproval a t1" s] call_effect [of "CallBeginExecution k Approved t1 t2" s]
    call_effect [of "CallFinishExecution k exitCode signal t1" s]
    call_effect [of "CallAppendOutput sizes k sequence stream data limit" s]
    call_effect [of "CallExpireOutstanding t1" s sf] call_effect [of "CallRecentPending t1 n uid allUsers" s sf]
    call_effect [of "CallPruneUnapproved olderThan retain" s]
    call_effect [of "CallRecordSecurityEvent ty k hash detail t1" s]
  by simp_all

lemma existingDecision_within: "within (on_db Q) (existingDecision item decision)"
  unfolding existingDecision_def by (intro op_effects ApprovalFor_within)

lemmas handler_reads = on_db_effect [OF Get_within] on_db_effect [OF Recent_within]
  on_db_effect [OF Approved_requests_within] on_db_effect [OF OutstandingCounts_within]
  on_db_effect [OF ApprovalFor_within] on_db_effect [OF existingDecision_within]

lemma on_limits_sv: "within (on_sv Q) (on_limits m)"
  by (rule withinI) (simp add: on_limits_def on_sv_def tab_refl split: prod.splits)

lemma finally_do_sv:
  "(\<And>sv. sv_Store (f sv) = sv_Store sv) \<Longrightarrow> within (on_sv Q) m \<Longrightarrow> within (on_sv Q) (finally_do f m)"
  by (simp add: within_def finally_do_def on_sv_def split: prod.splits) (metis snd_conv)

lemma state_upd_sv: "(\<And>sv. sv_Store (f sv) = sv_Store sv) \<Longrightarrow> within (on_sv Q) (state_upd f)"
  by (simp add: within_def state_upd_def on_sv_def tab_refl)

lemma spawn_execute_sv: "within (on_sv Q) (spawn_execute k)"
  unfolding spawn_execute_def by (rule state_upd_sv) simp

lemma ignoring_sv: "within (on_sv Q) m \<Longrightarrow> within (on_sv Q) (ignoring m)"
  unfolding ignoring_def by (intro sv_effect.within_intros)

lemmas sv_effects = sv_effect.within_intros within_branches on_limits_sv spawn_execute_sv ignoring_sv
  store_access handler_ops handler_reads

lemma Submit_sv: "others rely w \<Longrightarrow> within (on_sv Q) (Submit w cfg ctx input)"
  unfolding Submit_def admit_request_def by (intro sv_effects finally_do_sv) auto

lemma decide_sv: "others rely w \<Longrightarrow> within (on_sv Q) (decide w ctx input decision)"
  unfolding decide_def decide_again_def record_decision_def Let_def by (intro sv_effects) auto

lemma Cancel_sv: "others rely w \<Longrightarrow> within (on_sv Q) (Cancel w ctx k)"
  unfolding Cancel_def by (intro sv_effects) auto

lemma reject_sv: "others rely w \<Longrightarrow> nx \<notin> {Approved, Denied, Executing} \<Longrightarrow> within (on_sv Q) (reject w k hash nx event)"
  unfolding reject_def by (intro sv_effects) auto

lemma drain_sv: "others rely w \<Longrightarrow> within (on_sv Q) (drain w cfg k n chunks)"
  by (induction w cfg k n chunks rule: drain.induct) (auto intro!: sv_effects)

lemma run_child_sv: "others rely w \<Longrightarrow> within (on_sv Q) (run_child w cfg child la)"
  by (cases child) (auto simp: run_child_def finish_def intro!: sv_effects drain_sv state_upd_sv)

lemma start_approved_sv: "others rely w \<Longrightarrow> within (on_sv Q) (start_approved w cfg child k item)"
  unfolding start_approved_def
  by (cases "check_policy_and_files w cfg (sr_Request item)")
    (auto intro!: sv_effects reject_sv run_child_sv dest: check_policy_and_files_Reject)

lemma execute_body_sv: "others rely w \<Longrightarrow> within (on_sv Q) (execute_body w cfg child k)"
  unfolding execute_body_def by (intro sv_effects reject_sv start_approved_sv) auto

lemma execute_sv:
  assumes "others rely w"
  shows "within (on_sv Q) (execute w cfg child k)"
proof (rule withinI)
  fix sv :: service
  have "within (on_sv Q) (finally_do (\<lambda>t. t\<lparr>sv_executing := sv_executing t - {k}\<rparr>) (execute_body w cfg child k))"
    by (intro finally_do_sv execute_body_sv assms) simp
  then show "on_sv Q sv (snd (execute w cfg child k sv))"
    using withinD [of "on_sv Q" _ "sv\<lparr>sv_executing := insert k (sv_executing sv)\<rparr>"]
    by (fastforce simp: execute_def on_sv_def tab_refl)
qed

lemma RecoverApproved_sv: "others rely w \<Longrightarrow> within (on_sv Q) (RecoverApproved w)"
  unfolding RecoverApproved_def by (intro sv_effects state_upd_sv) auto

lemma runRetentionMaintenance_sv: "others rely w \<Longrightarrow> within (on_sv Q) (runRetentionMaintenance w cfg)"
  unfolding runRetentionMaintenance_def by (intro sv_effects)

lemma maintenance_ticks_sv: "list_all (\<lambda>t. others rely (snd t)) ticks \<Longrightarrow> within (on_sv Q) (maintenance_ticks cfg ticks)"
  by (induction cfg ticks rule: maintenance_ticks.induct)
    (auto intro!: sv_effects runRetentionMaintenance_sv)

lemma RunMaintenance_sv: "others rely w \<Longrightarrow> list_all (\<lambda>t. others rely (snd t)) ticks \<Longrightarrow>
    within (on_sv Q) (RunMaintenance w cfg ticks)"
  unfolding RunMaintenance_def by (intro sv_effects runRetentionMaintenance_sv maintenance_ticks_sv)

lemma request_records_sv: "others rely w \<Longrightarrow> within (on_sv Q) (request_records w i items)"
  by (induction items arbitrary: i) (auto simp: requestRecord_def intro!: sv_effects)

lemma ListRequests_sv: "others rely w \<Longrightarrow> within (on_sv Q) (ListRequests w ctx includeHistory)"
  unfolding ListRequests_def by (intro sv_effects request_records_sv)

lemma InspectRequest_sv: "others rely w \<Longrightarrow> within (on_sv Q) (InspectRequest w ctx k)"
  unfolding InspectRequest_def requestRecord_def by (intro sv_effects)

lemmas handlers_sv = Submit_sv decide_sv Cancel_sv execute_sv RecoverApproved_sv RunMaintenance_sv
  ListRequests_sv InspectRequest_sv

lemma handler_effect: "others_in rely c \<Longrightarrow> on_sv Q sv (run_handler cfg c sv)"
  by (cases "(cfg, c, sv)" rule: run_handler.cases) (auto intro: withinD handlers_sv)

lemma handlers_effect: "list_all (others_in rely) cs \<Longrightarrow> on_sv Q sv (run_handlers cfg cs sv)"
  by (induction cs arbitrary: sv)
    (auto intro: sv_effect.eff_refl sv_effect.eff_trans handler_effect)

end

text \<open>An effect that every store operation stays within, pruning included, needs to rely on nothing.\<close>

sublocale table_deletions \<subseteq> any: handler_contract Q "\<lambda>c. True"
  by unfold_locales (rule any_call_effect)+

context table_deletions
begin

lemma on_store_sv: "within (on_db Q) m \<Longrightarrow> within (on_sv Q) (on_store w i m)"
  by (rule any.store_access [OF others_True on_db_effect])

lemmas run_child_sv = any.run_child_sv [OF others_True]
lemmas execute_sv = any.execute_sv [OF others_True]
lemmas run_handler_effect = any.handler_effect [OF others_in_True]

end

end
