(* ===== verification/Daemon_Safety.thy ===== *)
theory Daemon_Safety
  imports Daemon_Contract
begin

section \<open>What the daemon starts\<close>

text \<open>
  Which processes the daemon starts, and what the database holds about each: the launches of \<open>execute\<close>, alone and
  through any history of the daemon, with any interference between the accesses to the store.
\<close>

subsection \<open>Reading outcomes\<close>

lemma outcome_on_store [outcome_simps]:
  "on_store w i m sv = (r, t) \<longleftrightarrow>
     (\<exists>s. m (run_calls (w_sf w) (w_env w i) (sv_Store sv)) = (r, s) \<and> t = sv\<lparr>sv_Store := s\<rparr>)"
  by (auto simp: on_store_def split: prod.splits)

lemma outcome_ignoring [outcome_simps]: "ignoring m sv = (r, t) \<longleftrightarrow> r = Inr () \<and> (\<exists>q. m sv = (q, t))"
  by (auto simp: ignoring_def outcome_simps and_then_def attempt_def ret_def split: prod.splits)

lemma outcome_finally_do [outcome_simps]: "finally_do f m sv = (r, t) \<longleftrightarrow> (\<exists>u. m sv = (r, u) \<and> t = f u)"
  by (auto simp: finally_do_def split: prod.splits)

lemma Get_Some:
  assumes "Get k s = (Inr (Some item), t)"
  shows "st_db t = st_db s \<and> (\<exists>r. request_at k (st_db s) = Some r \<and> stored_of r = Inr item)"
  using getFrom_Inr [of k s "Some item" t] assms by (auto simp: Get_def split: option.splits)

lemma ApprovalFor_Some:
  assumes "ApprovalFor k s = (Inr (Some a), t)"
  shows "st_db t = st_db s \<and> (\<exists>row. approval_at k (st_db s) = Some row \<and> dec_approval (ar_approval_json row) = Inr a)"
  using assms unfolding ApprovalFor_def
  by (cases "approval_at k (st_db s)") (auto simp: outcome_simps dest!: select_Inr)

subsection \<open>The launches of the service\<close>

text \<open>Only \<open>run_child\<close> starts a process.\<close>

definition same_launches :: "service \<Rightarrow> service \<Rightarrow> bool" where
  "same_launches sv t \<longleftrightarrow> sv_launched t = sv_launched sv"

interpretation idle: effect_order same_launches
  by unfold_locales (simp_all add: same_launches_def)

lemma idle_on_store: "within same_launches (on_store w i m)"
  by (rule withinI) (simp add: on_store_def same_launches_def split: prod.splits)

lemma idle_on_limits: "within same_launches (on_limits m)"
  by (rule withinI) (simp add: on_limits_def same_launches_def split: prod.splits)

lemma idle_spawn: "within same_launches (spawn_execute k)"
  by (rule withinI) (simp add: spawn_execute_def state_upd_def same_launches_def)

lemma idle_ignoring: "within same_launches m \<Longrightarrow> within same_launches (ignoring m)"
  unfolding ignoring_def by (intro idle.within_intros)

lemma idle_finally_do:
  "within same_launches m \<Longrightarrow> (\<And>sv. sv_launched (f sv) = sv_launched sv) \<Longrightarrow> within same_launches (finally_do f m)"
  by (simp add: within_def finally_do_def same_launches_def case_prod_unfold)

lemmas idle_intros = idle.within_intros within_branches idle_on_store idle_on_limits idle_spawn idle_ignoring

lemma idle_Submit: "within same_launches (Submit w cfg ctx input)"
  unfolding Submit_def admit_request_def by (intro idle_intros idle_finally_do) simp

lemma idle_decide: "within same_launches (decide w ctx input decision)"
  unfolding decide_def decide_again_def record_decision_def Let_def by (intro idle_intros)

lemma idle_Cancel: "within same_launches (Cancel w ctx k)"
  unfolding Cancel_def by (intro idle_intros)

lemma idle_RecoverApproved: "within same_launches (RecoverApproved w)"
  unfolding RecoverApproved_def
  by (intro idle_intros) (simp add: within_def state_upd_def same_launches_def)

lemma idle_maintenance_ticks: "within same_launches (maintenance_ticks cfg ticks)"
  by (induction cfg ticks rule: maintenance_ticks.induct)
    (auto simp: runRetentionMaintenance_def intro!: idle_intros)

lemma idle_RunMaintenance: "within same_launches (RunMaintenance w cfg ticks)"
  unfolding RunMaintenance_def runRetentionMaintenance_def by (intro idle_intros idle_maintenance_ticks)

lemma idle_request_records: "within same_launches (request_records w i items)"
  by (induction items arbitrary: i) (auto simp: requestRecord_def intro!: idle_intros)

lemma idle_ListRequests: "within same_launches (ListRequests w ctx includeHistory)"
  unfolding ListRequests_def by (intro idle_intros idle_request_records)

lemma idle_InspectRequest: "within same_launches (InspectRequest w ctx k)"
  unfolding InspectRequest_def requestRecord_def by (intro idle_intros)

lemma idle_reject: "within same_launches (reject w k hash nx event)"
  unfolding reject_def by (intro idle_intros)

lemma idle_drain: "within same_launches (drain w cfg k n chunks)"
  by (induction w cfg k n chunks rule: drain.induct) (auto intro!: idle_intros)

lemma run_child_launches:
  "sv_launched (snd (run_child w cfg child la sv)) =
     sv_launched sv @ (case child of Runs c \<Rightarrow> [la] | _ \<Rightarrow> [])"
proof (cases child)
  case (Runs c)
  have "within same_launches (and_then (drain w cfg (la_RequestID la) 0 (ch_output c)) (\<lambda>_.
      finish w (la_RequestID la) (recorded_exit c) (recorded_signal c)))"
    unfolding finish_def by (intro idle_intros idle_drain)
  from withinD [OF this, of "sv\<lparr>sv_launched := sv_launched sv @ [la]\<rparr>"] show ?thesis
    using Runs by (simp add: run_child_def and_then_state_upd same_launches_def)
qed (use withinD [OF idle_ignoring [OF idle_on_store]] in
    \<open>auto simp: run_child_def finish_def same_launches_def\<close>)

text \<open>An approval that an effect of the audit order found, still there afterwards.\<close>

lemma audit_approval:
  assumes "audit d e" and "approval_at k d = Some a"
  obtains b where "approval_at k e = Some b" "ar_approval_json b = ar_approval_json a"
    "ar_consumed_at a = None \<or> ar_consumed_at b = ar_consumed_at a"
  using assms unfolding audit_def approvals_kept_def same_approval_def by blast

lemma audit_on_store:
  assumes "on_store w i m sv = (r, t)" and "within (on_db audit) m"
  shows "audit (st_db (sv_Store sv)) (st_db (sv_Store t))"
  using withinD [where s = sv, OF trail.on_store_sv [OF assms(2)], of w i] assms(1) by (simp add: on_sv_def)

lemma ok_on_store:
  assumes "on_store w i m sv = (r, t)" and "within (on_db db_inv) m" and "db_ok (st_db (sv_Store sv))"
  shows "db_ok (st_db (sv_Store t))"
  using withinD [where s = sv, OF ok.on_store_sv [OF assms(2)], of w i] assms(1,3) by (simp add: on_sv_def db_inv_def)

lemma start_approved_launches:
  assumes run: "start_approved w cfg child k item sv = (r, sv')"
    and new: "sv_launched sv' \<noteq> sv_launched sv" and ok: "db_ok (st_db (sv_Store sv))"
    and found: "approval_at k (st_db (sv_Store sv)) = Some a"
  obtains la b where "sv_launched sv' = sv_launched sv @ [la]" "la_RequestID la = k"
    "la_Args la = helper_arguments (sr_Request item)"
    "check_policy_and_files w cfg (sr_Request item) =
       Proceed (la_Executable la) (la_Directory la) (la_Interpreter la) (la_Env la)"
    "ar_consumed_at a = None" "approval_at k (st_db (sv_Store sv')) = Some b"
    "ar_approval_json b = ar_approval_json a" "ar_consumed_at b \<noteq> None"
proof (cases "check_policy_and_files w cfg (sr_Request item)")
  case (Reject nx event)
  then have "same_launches sv sv'"
    using withinD [where s = "sv", OF idle_reject, of w k "sr_RequestHash item" nx event] run
    by (simp add: start_approved_def)
  with new show thesis by (simp add: same_launches_def)
next
  case (Proceed executable directory interpreter environment)
  let ?la = "\<lparr>la_RequestID = k, la_Args = helper_arguments (sr_Request item), la_Env = environment,
                 la_Executable = executable, la_Directory = directory, la_Interpreter = interpreter\<rparr>"
  let ?S = "run_calls (w_sf w) (w_env w 4) (sv_Store sv)"
  obtain q s where b: "BeginExecution k Approved (w_now w 2) (w_now w 3) ?S = (q, s)" by fastforce
  let ?t = "sv\<lparr>sv_Store := s\<rparr>"
  have step: "(case q of Inl _ \<Rightarrow> ret () | Inr _ \<Rightarrow> run_child w cfg child ?la) ?t = (r, sv')"
    using run Proceed b by (simp add: start_approved_def and_then_def attempt_def on_store_def)
  have "q = Inr ()"
    using step new by (cases q) (auto simp: outcome_simps)
  with step have child: "run_child w cfg child ?la ?t = (r, sv')" by simp
  have grown: "sv_launched sv' = sv_launched sv @ [?la]"
    using run_child_launches [of w cfg child ?la ?t] child new by (cases child) simp_all
  have "db_ok (st_db ?S)" "audit (st_db (sv_Store sv)) (st_db ?S)"
    using ok ok.any_calls_effect [of "sv_Store sv"] trail.any_calls_effect by (auto simp: db_inv_def)
  moreover obtain c where c: "approval_at k (st_db ?S) = Some c" "ar_approval_json c = ar_approval_json a"
    "ar_consumed_at a = None \<or> ar_consumed_at c = ar_consumed_at a"
    using audit_approval [OF calculation(2) found] by blast
  ultimately have consumed: "ar_consumed_at c = None"
    "approval_at k (st_db s) = Some (c\<lparr>ar_consumed_at := Some (now_text (w_now w 3))\<rparr>)"
    using BeginExecution_Approved [OF b [unfolded \<open>q = Inr ()\<close>]] by auto
  have "audit (st_db s) (st_db (sv_Store sv'))"
    using withinD [where s = "?t", OF trail.run_child_sv, of w cfg child ?la] child by (simp add: on_sv_def)
  from audit_approval [OF this consumed(2)] obtain e where
    "approval_at k (st_db (sv_Store sv')) = Some e" "ar_approval_json e = ar_approval_json c"
    "ar_consumed_at e \<noteq> None"
    by (metis approval_row.select_convs(5) approval_row.surjective approval_row.update_convs(5) approval_row.select_convs(3) option.discI)
  with c consumed grown Proceed that [of ?la e] show thesis by auto
qed

lemma execute_body_launches:
  assumes run: "execute_body w cfg child k sv = (r, sv')"
    and new: "sv_launched sv' \<noteq> sv_launched sv" and ok: "db_ok (st_db (sv_Store sv))"
  obtains item app la b where "not_expired item (w_now w 0)" "\<not> hash_mismatch (w_jcs w) item"
    "sv_launched sv' = sv_launched sv @ [la]" "la_RequestID la = k"
    "la_Args la = helper_arguments (sr_Request item)"
    "check_policy_and_files w cfg (sr_Request item) =
       Proceed (la_Executable la) (la_Directory la) (la_Interpreter la) (la_Env la)"
    "approval_at k (st_db (sv_Store sv')) = Some b" "ar_consumed_at b \<noteq> None"
    "dec_approval (ar_approval_json b) = Inr app" "approval_binds item (Inr (Some app))"
    "\<And>a. approval_at k (st_db (sv_Store sv)) = Some a \<Longrightarrow> ar_consumed_at a = None"
proof -
  obtain found sv1 where g: "on_store w 0 (Get k) sv = (found, sv1)" by fastforce
  have same1: "sv_launched sv1 = sv_launched sv" using g by (auto simp: outcome_simps)
  obtain item where item: "found = Inr (Some item)"
    using run new g same1 by (auto simp: execute_body_def and_then_def attempt_def ret_def
        split: sum.splits option.splits)
  obtain found2 sv2 where p: "on_store w 1 (ApprovalFor k) sv1 = (found2, sv2)" by fastforce
  have same2: "sv_launched sv2 = sv_launched sv" using p same1 by (auto simp: outcome_simps)
  have rej: "reject w k hash nx event u \<noteq> (r, sv')" if "sv_launched u = sv_launched sv" for hash nx event u
    using withinD [where s = "u", OF idle_reject, of w k hash nx event] new that by (auto simp: same_launches_def)
  note body = run [unfolded execute_body_def and_then_def attempt_def, simplified g item prod.case sum.case option.case]
  have chk: "not_expired item (w_now w 0)" "\<not> hash_mismatch (w_jcs w) item"
    using body rej [OF same1] by (auto split: if_splits)
  with body p have step: "(if \<not> approval_binds item found2
       then reject w k (sr_RequestHash item) PolicyRejected
               (Some (''approval.integrity-failed'', ''Local approval binding mismatch''))
       else start_approved w cfg child k item) sv2 = (r, sv')"
    by simp
  then have start: "start_approved w cfg child k item sv2 = (r, sv')" and binds: "approval_binds item found2"
    using rej [OF same2] by (auto split: if_splits)
  obtain app where app: "found2 = Inr (Some app)"
    using binds by (auto simp: approval_binds_def split: sum.splits option.splits)
  then obtain a where a: "approval_at k (st_db (sv_Store sv2)) = Some a" "dec_approval (ar_approval_json a) = Inr app"
    using p by (auto simp: outcome_simps dest!: ApprovalFor_Some)
  have au: "audit (st_db (sv_Store sv)) (st_db (sv_Store sv2))"
    using audit_on_store [OF g trail.Get_within] audit_on_store [OF p trail.ApprovalFor_within]
    by (rule audit_trans)
  have "db_ok (st_db (sv_Store sv2))"
    using ok_on_store [OF p ok.ApprovalFor_within ok_on_store [OF g ok.Get_within ok]] .
  from start_approved_launches [OF start _ this a(1)] obtain la b where
    "sv_launched sv' = sv_launched sv @ [la]" "la_RequestID la = k"
    "la_Args la = helper_arguments (sr_Request item)"
    "check_policy_and_files w cfg (sr_Request item) =
       Proceed (la_Executable la) (la_Directory la) (la_Interpreter la) (la_Env la)"
    "ar_consumed_at a = None" "approval_at k (st_db (sv_Store sv')) = Some b"
    "ar_approval_json b = ar_approval_json a" "ar_consumed_at b \<noteq> None"
    using new same2 by metis
  moreover have "ar_consumed_at a0 = None" if "approval_at k (st_db (sv_Store sv)) = Some a0" for a0
    using audit_approval [OF au that] a(1) \<open>ar_consumed_at a = None\<close> by (metis option.inject)
  ultimately show thesis using that chk a(2) binds app by metis
qed

subsection \<open>What a launch implies\<close>

lemma check_policy_and_files_Proceed:
  assumes "check_policy_and_files w cfg q = Proceed executable directory interpreter environment"
  shows "(\<exists>p. Load (w_policy w) = Inr p \<and> Evaluate (sys_EvalSymlinks (w_fs w)) p
             \<lparr>pi_Executable = ex_Executable (er_Execution q), pi_Argv = ex_Argv (er_Execution q),
              pi_Cwd = ex_Cwd (er_Execution q), pi_UID = rq_UID (er_Requester q)\<rparr> \<noteq> Deny)"
    and "ex_Env (er_Execution q) = []"
    and "OpenVerifiedExecutable (w_fs w) (er_ExecutableMetadata q) = Inr executable"
    and "OpenVerifiedDirectory (w_fs w) (er_WorkingDirectoryMetadata q) = Inr directory"
    and "map_option (OpenVerifiedExecutable (w_fs w)) (er_InterpreterMetadata q) = map_option Inr interpreter"
    and "SanitizeEnvironment [] (cf_AllowedEnvironment cfg) = Inr environment"
  using assms
  by (auto simp: check_policy_and_files_def res_bind_Inr split: sum.splits if_splits option.splits)

lemma hash_matches:
  "\<not> hash_mismatch jcs item \<longleftrightarrow> Hash jcs (execution_request_json (sr_Request item)) = Inr (sr_RequestHash item)"
  by (auto simp: hash_mismatch_def split: sum.splits)

lemma approval_binds_Some:
  "approval_binds item (Inr (Some app)) \<longleftrightarrow> ap_Decision app = ''approve''
     \<and> ap_RequestID app = er_RequestID (sr_Request item) \<and> ap_RequestHash app = sr_RequestHash item"
  by (auto simp: approval_binds_def)

lemma execute_launches:
  assumes "execute w cfg child k sv = (r, sv')"
    and "sv_launched sv' \<noteq> sv_launched sv" and "db_ok (st_db (sv_Store sv))"
  obtains item app la b where "not_expired item (w_now w 0)" "\<not> hash_mismatch (w_jcs w) item"
    "sv_launched sv' = sv_launched sv @ [la]" "la_RequestID la = k"
    "la_Args la = helper_arguments (sr_Request item)"
    "check_policy_and_files w cfg (sr_Request item) =
       Proceed (la_Executable la) (la_Directory la) (la_Interpreter la) (la_Env la)"
    "approval_at k (st_db (sv_Store sv')) = Some b" "ar_consumed_at b \<noteq> None"
    "dec_approval (ar_approval_json b) = Inr app" "approval_binds item (Inr (Some app))"
    "\<And>a. approval_at k (st_db (sv_Store sv)) = Some a \<Longrightarrow> ar_consumed_at a = None"
proof -
  let ?sv = "sv\<lparr>sv_executing := insert k (sv_executing sv)\<rparr>"
  obtain u where u: "execute_body w cfg child k ?sv = (r, u)" "sv_Store sv' = sv_Store u" "sv_launched sv' = sv_launched u"
    using assms(1,2) by (auto simp: execute_def outcome_simps split: if_splits)
  show thesis
    by (rule execute_body_launches [OF u(1)]) (use assms u that in auto)
qed


subsection \<open>Histories of the daemon\<close>

lemmas idle_handlers = withinD [OF idle_Submit] withinD [OF idle_decide] withinD [OF idle_Cancel]
  withinD [OF idle_RecoverApproved] withinD [OF idle_RunMaintenance] withinD [OF idle_ListRequests]
  withinD [OF idle_InspectRequest]

text \<open>What stays true of every process that was started.\<close>

definition launch_ok :: "jcs_transform \<Rightarrow> db \<Rightarrow> launch \<Rightarrow> bool" where
  "launch_ok jcs d la \<longleftrightarrow> (\<exists>q app b. la_Args la = helper_arguments q
     \<and> Hash jcs (execution_request_json q) = Inr (ap_RequestHash app)
     \<and> approval_at (la_RequestID la) d = Some b \<and> ar_consumed_at b \<noteq> None
     \<and> dec_approval (ar_approval_json b) = Inr app \<and> ap_Decision app = ''approve''
     \<and> ap_RequestID app = er_RequestID q)"

definition launches_ok :: "jcs_transform \<Rightarrow> service \<Rightarrow> bool" where
  "launches_ok jcs sv \<longleftrightarrow> db_ok (st_db (sv_Store sv)) \<and> distinct (map la_RequestID (sv_launched sv))
     \<and> (\<forall>la \<in> set (sv_launched sv). launch_ok jcs (st_db (sv_Store sv)) la)"

lemma launch_ok_audit: "audit d e \<Longrightarrow> launch_ok jcs d la \<Longrightarrow> launch_ok jcs e la"
  unfolding launch_ok_def by (metis audit_approval)

lemma launches_ok_same:
  assumes "launches_ok jcs sv" and "same_launches sv t" and "on_sv audit sv t" and "on_sv db_inv sv t"
  shows "launches_ok jcs t"
  using assms launch_ok_audit by (auto simp: launches_ok_def same_launches_def on_sv_def db_inv_def)

lemma launches_ok_execute:
  assumes inv: "launches_ok (w_jcs w) sv" and run: "execute w cfg child k sv = (r, t)"
  shows "launches_ok (w_jcs w) t"
proof (cases "sv_launched t = sv_launched sv")
  case True
  then show ?thesis
    using launches_ok_same [OF inv] withinD [where s = sv, OF trail.execute_sv, of w cfg child k]
      withinD [where s = sv, OF ok.execute_sv, of w cfg child k] run
    by (simp add: same_launches_def)
next
  case False
  have au: "audit (st_db (sv_Store sv)) (st_db (sv_Store t))" and ok: "db_ok (st_db (sv_Store t))"
    using withinD [where s = sv, OF trail.execute_sv, of w cfg child k]
      withinD [where s = sv, OF ok.execute_sv, of w cfg child k] run inv
    by (simp_all add: on_sv_def db_inv_def launches_ok_def)
  obtain item app la b where l: "sv_launched t = sv_launched sv @ [la]" "la_RequestID la = k"
    "la_Args la = helper_arguments (sr_Request item)" "\<not> hash_mismatch (w_jcs w) item"
    "approval_at k (st_db (sv_Store t)) = Some b" "ar_consumed_at b \<noteq> None"
    "dec_approval (ar_approval_json b) = Inr app" "approval_binds item (Inr (Some app))"
    and fresh: "\<And>a. approval_at k (st_db (sv_Store sv)) = Some a \<Longrightarrow> ar_consumed_at a = None"
    using execute_launches [OF run False] inv by (metis launches_ok_def)
  have "launch_ok (w_jcs w) (st_db (sv_Store t)) la"
    using l by (auto simp: launch_ok_def hash_matches approval_binds_Some)
  moreover have "k \<notin> la_RequestID ` set (sv_launched sv)"
    using inv fresh by (auto simp: launches_ok_def launch_ok_def)
  ultimately show ?thesis
    using inv l ok launch_ok_audit [OF au] by (auto simp: launches_ok_def)
qed

lemma launches_ok_handler:
  assumes "launches_ok jcs sv" and "w_jcs (fst c) = jcs"
  shows "launches_ok jcs (run_handler cfg c sv)"
proof (cases "\<exists>child k. snd c = DoExecute child k")
  case True
  then show ?thesis
    using assms launches_ok_execute by (metis prod.collapse run_handler.simps(4))
next
  case False
  then have "same_launches sv (run_handler cfg c sv)"
    by (cases "(cfg, c, sv)" rule: run_handler.cases)
      (simp_all add: idle_handlers)
  then show ?thesis
    by (rule launches_ok_same [OF assms(1) _ trail.run_handler_effect ok.run_handler_effect])
qed

lemma launches_ok_handlers:
  "launches_ok jcs sv \<Longrightarrow> list_all (\<lambda>c. w_jcs (fst c) = jcs) calls \<Longrightarrow> launches_ok jcs (run_handlers cfg calls sv)"
  by (induction calls arbitrary: sv) (auto intro: launches_ok_handler)

text \<open>Through any history of the daemon no request is started twice, and every process ever started
  belongs to a consumed \<open>approve\<close> decision whose hash is the hash of the started command.\<close>

theorem launched_once_and_approved:
  assumes "db_ok (st_db (sv_Store sv))" and "sv_launched sv = []"
    and "list_all (\<lambda>c. w_jcs (fst c) = jcs) calls"
  shows "distinct (map la_RequestID (sv_launched (run_handlers cfg calls sv)))
    \<and> list_all (launch_ok jcs (st_db (sv_Store (run_handlers cfg calls sv)))) (sv_launched (run_handlers cfg calls sv))"
proof -
  have "launches_ok jcs sv" using assms by (simp add: launches_ok_def)
  from launches_ok_handlers [OF this assms(3), of cfg] show ?thesis by (simp add: launches_ok_def list_all_iff)
qed

end
