(* ===== verification/Ascii_Text.thy ===== *)
theory Ascii_Text
  imports Go_Time Integrity
begin

section \<open>Generated text is plain ASCII\<close>

text \<open>Times, identifiers, nonces and hashes are made of ASCII characters, so encoding them as JSON and
  decoding them again loses nothing.\<close>

lemma ascii_simps [simp]: "ascii []" "ascii (c # s) \<longleftrightarrow> byte c < 0x80 \<and> ascii s" "ascii (s @ t) \<longleftrightarrow> ascii s \<and> ascii t"
  by (auto simp: ascii_def)

lemma ascii_digit: "d < 16 \<Longrightarrow> byte (digit d) < 0x80"
  by (auto simp: digit_def byte_def)

lemma ascii_dec2 [simp]: "ascii (dec2 n)"
  by (simp add: dec2_def ascii_digit)

lemma ascii_nat_dec [simp]: "ascii (nat_dec n)"
proof (induction n rule: nat_dec.induct)
  case (1 n)
  then show ?case by (subst nat_dec.simps) (auto simp: ascii_digit)
qed

lemma ascii_low_digits [simp]: "ascii (low_digits k n)"
  by (induction k arbitrary: n) (auto simp: ascii_digit)

lemma ascii_strip_zeros: "ascii s \<Longrightarrow> ascii (strip_zeros s)"
  by (auto simp: strip_zeros_def ascii_def dest: set_dropWhileD)

lemma ascii_fmt_time [simp]: "ascii (fmt_time t)"
proof -
  have "ascii (frac_text n)" for n
    by (simp add: frac_text_def ascii_strip_zeros byte_def)
  then show ?thesis
    by (auto simp: fmt_time_def Let_def date_text_def clock_text_def dec4_def byte_def split: prod.splits)
qed

lemma ascii_hex_bytes: "list_all (\<lambda>b. b < 256) bs \<Longrightarrow> ascii (hex_bytes bs)"
  by (induction bs) (auto simp: hex_bytes_def hex_byte_def ascii_digit)

lemma ascii_UUID:
  assumes "UUID drawn = Inr s"
  shows "ascii s"
proof -
  have "list_all (\<lambda>b. b < 256) (map unat bs)" for bs :: "u8 list"
  proof -
    have "unat b < 256" for b :: u8 using unsigned_less [of b, where 'a = nat] by simp
    then show ?thesis by (simp add: list_all_iff)
  qed
  then have "ascii (hex_bytes (map unat bs))" for bs :: "u8 list"
    by (rule ascii_hex_bytes)
  with assms show ?thesis
    by (auto simp: UUID_def Let_def byte_def split: sum.splits)
qed

lemma ascii_base64url: "ascii (base64url bs)"
proof -
  have "byte (base64url_char v) < 0x80" for v by (auto simp: base64url_char_def byte_def)
  then show ?thesis by (induction bs rule: base64url.induct) simp_all
qed

lemma ascii_Nonce: "Nonce drawn = Inr s \<Longrightarrow> ascii s"
  by (auto simp: Nonce_def ascii_base64url split: sum.splits)

lemma ascii_timestamp: "ascii (timestamp v)"
  by (simp add: timestamp_def int_dec_def byte_def)

lemma ascii_sha256_hex [simp]: "ascii (sha256_hex s)"
proof -
  have "list_all (\<lambda>b. b < 256) (sha256 m)" for m
    by (auto simp: sha256_def sha_bytes_def Let_def list_all_iff)
  then show ?thesis by (simp add: sha256_hex_def ascii_hex_bytes)
qed

lemma length_sha_round [simp]: "length (sha_round st kw) = length st"
  by (cases "(st, kw)" rule: sha_round.cases) (simp_all add: Let_def)

lemma length_sha256_hex: "length (sha256_hex s) = 64"
proof -
  have round: "length (foldl sha_round st kws) = length st" for st kws
    by (induction kws arbitrary: st) simp_all
  have "length (sha_blocks n st ws) = length st" for n st ws
    by (induction n st ws rule: sha_blocks.induct) (simp_all add: sha_block_def round)
  moreover have "length (concat (map sha_bytes ws)) = 4 * length ws" for ws
    by (induction ws) (simp_all add: sha_bytes_def)
  ultimately show ?thesis by (simp add: sha256_hex_def sha256_def Let_def sha_init_def)
qed

end
