(* ===== verification/Daemon_Example.thy ===== *)
theory Daemon_Example
  imports Daemon_Safety Ascii_Text
begin

section \<open>A daemon that starts an approved command\<close>

text \<open>A world with one verified executable, a policy that requires approval and a clock in 1970, and a
  database with an approved request for that executable, for the examples of the handlers.\<close>

lemma valid_utf8_hex: "valid_utf8 (sha256_hex s)"
  by (simp add: valid_utf8_ascii)

definition run_request :: execution_request where
  "run_request = example_request\<lparr>er_ExecutableMetadata :=
     (er_ExecutableMetadata example_request)\<lparr>fm_SHA256 := sha256_hex ''ELF''\<rparr>\<rparr>"

definition run_hash :: string where
  "run_hash = sha256_hex (json_text (execution_request_json run_request))"

definition run_row :: "req_status \<Rightarrow> request_row" where
  "run_row st = (example_row st)\<lparr>rr_request_hash := run_hash, rr_request_json := execution_request_json run_request\<rparr>"

definition run_approval :: approval where
  "run_approval = example_approval\<lparr>ap_RequestHash := run_hash\<rparr>"

definition run_approval_row :: approval_row where
  "run_approval_row = example_approval_row\<lparr>ar_approval_json := approval_json run_approval\<rparr>"

definition run_db :: "req_status \<Rightarrow> approval_row list \<Rightarrow> db" where
  "run_db st approvals = (example_db st approvals)\<lparr>d_requests := [run_row st]\<rparr>"

definition run_service :: "req_status \<Rightarrow> approval_row list \<Rightarrow> service" where
  "run_service st approvals = \<lparr>sv_Store = \<lparr>st_db = run_db st approvals, st_maxBytes = 0, st_faults = []\<rparr>,
     sv_limits = no_limits, sv_executing = {}, sv_spawned = [], sv_launched = []\<rparr>"

definition run_file :: open_file where
  "run_file = \<lparr>of_Fstat = Inr \<lparr>fs_Mode = 33261, fs_Dev = 1, fs_Ino = 2, fs_Size = 3, fs_Uid = 0,
     fs_Mtim = (0, 5), fs_Ctim = (0, 6)\<rparr>, of_Copy = Inr ''ELF'', of_Seek = Inr (), of_Head = ''ELF''\<rparr>"

definition run_directory :: open_file where
  "run_directory = \<lparr>of_Fstat = Inr \<lparr>fs_Mode = 17407, fs_Dev = 1, fs_Ino = 9, fs_Size = 0, fs_Uid = 0,
     fs_Mtim = (0, 5), fs_Ctim = (0, 6)\<rparr>, of_Copy = Inl (External ''EISDIR''), of_Seek = Inr (), of_Head = ''''\<rparr>"

definition run_fs :: filesystem where
  "run_fs = \<lparr>sys_open = (\<lambda>p. if p = ''/bin/ls'' then Inr run_file else Inl (External ''ENOENT'')),
     sys_open_follow = (\<lambda>p. Inl (External ''ENOENT'')),
     sys_open_dir = (\<lambda>p. if p = ''/tmp'' then Inr run_directory else Inl (External ''ENOENT'')),
     sys_Stat = (\<lambda>p. Inl (External ''ENOENT'')), sys_EvalSymlinks = (\<lambda>p. Inr p)\<rparr>"

definition run_world :: world where
  "run_world = \<lparr>w_sf = example_sf, w_jcs = (\<lambda>t. Inr t), w_now = (\<lambda>_. 0), w_sizes = (\<lambda>_. []), w_env = (\<lambda>_. []),
     w_fs = run_fs, w_policy = Inr \<lparr>pc_Version = 1, pc_DefaultsAction = RequireApproval, pc_Rules = []\<rparr>,
     w_uuid = Inr (replicate 16 0), w_nonce = Inr (replicate 24 0), w_hostname = Inr ''host''\<rparr>"

definition run_config :: daemon_config where
  "run_config = default_config\<lparr>cf_Version := 1\<rparr>"

definition run_process :: child where
  "run_process = Runs \<lparr>ch_output = [], ch_exited = Some 0, ch_signaled = None, ch_waitErr = False, ch_timedOut = False\<rparr>"

lemma run_request_valid: "valid_request run_request"
  using example_request_valid
  by (simp add: valid_request_def run_request_def valid_file_metadata_def valid_utf8_hex)

abbreviation run_item :: "req_status \<Rightarrow> stored_request" where
  "run_item st \<equiv> \<lparr>sr_Request = run_request, sr_RequestHash = run_hash, sr_Status = st,
     sr_OutputBytes = 0, sr_OutputTruncated = False\<rparr>"

lemma run_stored: "stored_of (run_row st) = Inr (run_item st)"
  by (simp add: stored_of_def run_row_def example_row_def dec_execution_request_json run_request_valid)

lemma run_service_simps [simp]:
  "st_db (sv_Store (run_service st as)) = run_db st as" "st_faults (sv_Store (run_service st as)) = []"
  "sv_launched (run_service st as) = []" "sv_executing (run_service st as) = {}"
  "d_requests (run_db st as) = [run_row st]" "d_approvals (run_db st as) = as" "d_executions (run_db st as) = []"
  "rr_request_id (run_row st) = ''r1''" "rr_status (run_row st) = st" "rr_request_hash (run_row st) = run_hash"
  "ar_request_id run_approval_row = ''r1''" "ar_consumed_at run_approval_row = None"
  "ar_approval_json run_approval_row = approval_json run_approval"
  by (simp_all add: run_service_def run_db_def run_row_def run_approval_row_def)

lemma run_db_ok: "db_ok (run_db st [])" "db_ok (run_db st [run_approval_row])"
  using example_db_ok [of st]
  by (simp_all add: db_ok_def run_db_def run_row_def example_row_def int64_range_def example_db_def)

lemma run_world_simps [simp]:
  "w_env run_world i = []" "w_now run_world i = 0" "w_jcs run_world = (\<lambda>t. Inr t)" "w_fs run_world = run_fs"
  by (simp_all add: run_world_def)

lemma run_hash_matches: "\<not> hash_mismatch (w_jcs run_world) (run_item st)"
  by (simp add: hash_matches Hash_def MarshalCanonical_def run_hash_def)

lemma run_approval_decodes: "dec_approval (approval_json run_approval) = Inr run_approval"
  by (rule dec_approval_json)
    (simp add: valid_approval_def run_approval_def example_approval_def run_hash_def valid_utf8_hex
      valid_utf8_ascii ascii_def byte_def int64_range_def valid_opt_def)

lemma run_approval_binds: "approval_binds (run_item st) (Inr (Some run_approval))"
  by (simp add: approval_binds_Some run_approval_def example_approval_def run_request_def example_request_def)

lemma example_expiry: "parse_time ''2024-01-01T01:00:00Z'' = Some 1704070800000000000"
  by code_simp

lemma run_not_expired: "not_expired (run_item st) 0"
  by (simp add: not_expired_def run_request_def example_request_def example_expiry)

lemma example_digits: "digit 5 = CHR ''5''" "digit 6 = CHR ''6''"
  by code_simp+

lemma run_executable_verifies: "OpenVerifiedExecutable run_fs (er_ExecutableMetadata run_request) = Inr run_file"
  unfolding OpenVerified_iff inspectExecutableFile_Inr
  by (simp add: run_request_def example_request_def run_fs_def run_file_def is_regular_def any_exec_bit_def
      maxSafeInteger_def timestamp_def int_dec_def nat_dec.simps example_digits wrap64_def)

lemma run_directory_verifies:
  "OpenVerifiedDirectory run_fs (er_WorkingDirectoryMetadata run_request) = Inr run_directory"
  by (simp add: OpenVerifiedDirectory_def run_request_def example_request_def run_fs_def run_directory_def
      timestamp_def int_dec_def nat_dec.simps example_digits wrap64_def)

lemma run_checks:
  "check_policy_and_files run_world run_config run_request =
     Proceed run_file run_directory None [''PATH='' @ safePath, ''HOME=/root'', ''LANG=C.UTF-8'']"
proof -
  have "er_InterpreterMetadata run_request = None" "ex_Env (er_Execution run_request) = []"
    "cf_AllowedEnvironment run_config = []"
    by (simp_all add: run_request_def example_request_def run_config_def default_config_def)
  moreover have "Load (w_policy run_world) = Inr \<lparr>pc_Version = 1, pc_DefaultsAction = RequireApproval, pc_Rules = []\<rparr>"
    by (simp add: run_world_def Load_def validAction_def)
  moreover have "Evaluate ev \<lparr>pc_Version = 1, pc_DefaultsAction = RequireApproval, pc_Rules = []\<rparr> inp \<noteq> Deny" for ev inp
    by (simp add: Evaluate_def RequireApproval_def Deny_def)
  ultimately show ?thesis
    using run_executable_verifies run_directory_verifies
    by (simp add: check_policy_and_files_def SanitizeEnvironment_def)
qed

lemma run_launches:
  "sv_launched (snd (execute run_world run_config run_process ''r1'' (run_service Approved [run_approval_row]))) \<noteq> []"
proof -
  let ?sv = "(run_service Approved [run_approval_row])\<lparr>sv_executing := {''r1''}\<rparr>"
  have "st_faults (sv_Store ?sv) = []" by simp
  then have get: "on_store run_world 0 (Get ''r1'') ?sv = (Inr (Some (run_item Approved)), ?sv)"
    and approval: "on_store run_world 1 (ApprovalFor ''r1'') ?sv = (Inr (Some run_approval), ?sv)"
    by (simp_all add: on_store_def Get_def getFrom_quiet run_stored ApprovalFor_def and_then_def select_quiet
        lift_res_def ret_def run_approval_decodes)
  have "fst (BeginExecution ''r1'' Approved 0 0 (sv_Store ?sv)) = Inr ()"
    by (rule BeginExecution_starts [where a = run_approval_row, OF _ _ _ run_stored]) (simp_all add: run_db_ok)
  then obtain s where b: "BeginExecution ''r1'' Approved 0 0 (sv_Store ?sv) = (Inr (), s)"
    by (metis prod.collapse)
  let ?la = "\<lparr>la_RequestID = ''r1'', la_Args = helper_arguments run_request,
      la_Env = [''PATH='' @ safePath, ''HOME=/root'', ''LANG=C.UTF-8''],
      la_Executable = run_file, la_Directory = run_directory, la_Interpreter = None\<rparr>"
  have "start_approved run_world run_config run_process ''r1'' (run_item Approved) ?sv =
      run_child run_world run_config run_process ?la (?sv\<lparr>sv_Store := s\<rparr>)"
    using b by (simp add: start_approved_def run_checks and_then_def attempt_def on_store_def)
  then have "execute_body run_world run_config run_process ''r1'' ?sv =
      run_child run_world run_config run_process ?la (?sv\<lparr>sv_Store := s\<rparr>)"
    using get approval run_not_expired run_hash_matches run_approval_binds
    by (simp add: execute_body_def and_then_def attempt_def)
  moreover have "sv_launched (snd (run_child run_world run_config run_process ?la (?sv\<lparr>sv_Store := s\<rparr>))) = [?la]"
    using run_child_launches [of run_world run_config run_process ?la "?sv\<lparr>sv_Store := s\<rparr>"]
    by (simp add: run_process_def)
  ultimately show ?thesis
    by (simp add: execute_def finally_do_def case_prod_unfold)
qed


theorem launched_once_and_approved_witness:
  "distinct (map la_RequestID (sv_launched (run_handlers run_config
     [(run_world, DoExecute run_process ''r1''), (run_world, DoRecoverApproved), (run_world, DoExecute run_process ''r1'')]
     (run_service Approved [run_approval_row]))))"
  using launched_once_and_approved [of "run_service Approved [run_approval_row]" "\<lambda>t. Inr t"
      "[(run_world, DoExecute run_process ''r1''), (run_world, DoRecoverApproved), (run_world, DoExecute run_process ''r1'')]" run_config]
  by (simp add: run_db_ok)

end
