(* ===== verification/Daemon_Decide.thy ===== *)
theory Daemon_Decide
  imports Daemon_Example
begin

section \<open>Decisions\<close>

text \<open>Who may decide, and what a reported decision means for the database.\<close>

text \<open>The approval row that a response reports: it holds the JSON of the approval, or decodes to it when it
  was stored earlier.\<close>

definition decision_recorded :: "db \<Rightarrow> decision_response \<Rightarrow> string \<Rightarrow> string \<Rightarrow> bool" where
  "decision_recorded d response hash decision \<longleftrightarrow>
     (\<exists>row a. approval_at (de_RequestId response) d = Some row
        \<and> (ar_approval_json row = approval_json a \<or> dec_approval (ar_approval_json row) = Inr a)
        \<and> ap_RequestID a = de_RequestId response \<and> ap_ApprovalID a = de_ApprovalId response
        \<and> ap_RequestHash a = hash \<and> ap_Decision a = decision)"

lemma decision_recorded_audit:
  assumes "audit d e" and "decision_recorded d response hash decision"
  shows "decision_recorded e response hash decision"
proof -
  obtain row a where row: "approval_at (de_RequestId response) d = Some row"
    and a: "ar_approval_json row = approval_json a \<or> dec_approval (ar_approval_json row) = Inr a"
    "ap_RequestID a = de_RequestId response" "ap_ApprovalID a = de_ApprovalId response"
    "ap_RequestHash a = hash" "ap_Decision a = decision"
    using assms(2) by (auto simp: decision_recorded_def)
  obtain b where "approval_at (de_RequestId response) e = Some b" "ar_approval_json b = ar_approval_json row"
    using audit_approval [OF assms(1) row] by blast
  with a show ?thesis unfolding decision_recorded_def by (intro exI [of _ b] exI [of _ a]) simp
qed

lemma existingDecision_Some:
  assumes "existingDecision item decision s = (Inr (Some response), t)"
  shows "decision_recorded (st_db t) response (sr_RequestHash item) decision \<and> de_Status response = decided decision"
proof -
  obtain approval s1 where f: "ApprovalFor (er_RequestID (sr_Request item)) s = (Inr approval, s1)"
    and rest: "(case approval of None \<Rightarrow> ret None
       | Some a \<Rightarrow>
         if \<not> Equal (ap_RequestID a) (er_RequestID (sr_Request item))
            \<or> \<not> Equal (ap_RequestHash a) (sr_RequestHash item)
         then fail (Status DataLoss ''stored decision integrity check failed'')
         else if ap_Decision a \<noteq> decision
         then fail (Status FailedPrecondition (''request already has a conflicting '' @ ap_Decision a @ '' decision''))
         else ret (Some \<lparr>de_RequestId = er_RequestID (sr_Request item), de_ApprovalId = ap_ApprovalID a,
                de_Status = decided decision, de_DecidedBy = approvalActor a\<rparr>)) s1 = (Inr (Some response), t)"
    using assms unfolding existingDecision_def and_then_Inr by blast
  obtain a where a: "approval = Some a" using rest by (cases approval) (auto simp: outcome_simps)
  with rest have b: "ap_RequestID a = er_RequestID (sr_Request item)" "ap_RequestHash a = sr_RequestHash item"
    "ap_Decision a = decision" "t = s1" "response = \<lparr>de_RequestId = er_RequestID (sr_Request item),
       de_ApprovalId = ap_ApprovalID a, de_Status = decided decision, de_DecidedBy = approvalActor a\<rparr>"
    by (auto simp: outcome_simps split: if_splits)
  obtain row where "approval_at (er_RequestID (sr_Request item)) (st_db s1) = Some row"
    "dec_approval (ar_approval_json row) = Inr a"
    using ApprovalFor_Some f a by metis
  with b show ?thesis by (auto simp: decision_recorded_def)
qed

lemma on_existingDecision:
  assumes "on_store w i (existingDecision item decision) sv = (Inr (Some response), sv')"
  shows "decision_recorded (st_db (sv_Store sv')) response (sr_RequestHash item) decision
    \<and> de_Status response = decided decision"
  using assms by (auto simp: outcome_simps dest!: existingDecision_Some)

lemma decide_again_Inr:
  assumes "decide_again w item decision sv = (Inr response, sv')"
  shows "decision_recorded (st_db (sv_Store sv')) response (sr_RequestHash item) decision
    \<and> de_Status response = decided decision"
proof -
  obtain found sv1 where f: "on_store w 2 (existingDecision item decision) sv = (Inr found, sv1)"
    and rest: "(case found of
         Some response \<Rightarrow>
           and_then (if decision = ''approve'' \<and> sr_Status item = Approved
                     then spawn_execute (er_RequestID (sr_Request item)) else ret ()) (\<lambda>_. ret response)
       | None \<Rightarrow> fail (Status FailedPrecondition
             (''request is '' @ status_text (sr_Status item) @ '', not awaiting approval''))) sv1 = (Inr response, sv')"
    using assms unfolding decide_again_def and_then_Inr by blast
  have "found = Some response" and "sv_Store sv' = sv_Store sv1"
    using rest by (auto simp: outcome_simps spawn_execute_def split: option.splits if_splits)
  with on_existingDecision [of w 2 item decision sv response sv1] f show ?thesis by simp
qed

lemma accepted_recorded:
  assumes "AcceptApprovalContext a t s = (Inr u, s')" and "db_ok (st_db s)"
    and "de_RequestId response = ap_RequestID a" "de_ApprovalId response = ap_ApprovalID a"
  shows "decision_recorded (st_db s') response (ap_RequestHash a) (ap_Decision a)"
proof -
  have "approval_at (ap_RequestID a) (st_db s') = Some (approval_row_of a t)"
    by (rule AcceptApproval_Inr [OF assms(1,2)]) (simp add: lookup_by_append)
  then show ?thesis
    using assms(3,4) unfolding decision_recorded_def by (intro exI [of _ "approval_row_of a t"] exI [of _ a]) simp
qed

lemma record_decision_Inr:
  assumes run: "record_decision w ctx actor item decision reason approvalID sv = (Inr response, sv')"
    and ok: "db_ok (st_db (sv_Store sv))"
  shows "decision_recorded (st_db (sv_Store sv')) response (sr_RequestHash item) decision
    \<and> de_Status response = decided decision"
proof -
  let ?a = "make_approval actor item decision reason approvalID (w_now w 1)"
  let ?S = "run_calls (w_sf w) (w_env w 3) (sv_Store sv)"
  obtain q s where acc: "AcceptApprovalContext ?a (w_now w 2) ?S = (q, s)" by fastforce
  let ?sv1 = "sv\<lparr>sv_Store := s\<rparr>"
  have "on_store w 3 (AcceptApprovalContext ?a (w_now w 2)) sv = (q, ?sv1)"
    by (simp only: on_store_def acc prod.case)
  note body = run [unfolded record_decision_def Let_def and_then_attempt [where m = "on_store w 3 _", OF this]]
  show ?thesis
  proof (cases q)
    case (Inl e)
    with body obtain found sv2 where "on_store w 4 (existingDecision item decision) ?sv1 = (Inr found, sv2)"
      and "(case found of Some response \<Rightarrow> ret response
                 | None \<Rightarrow> (case cx_Err ctx of Some e \<Rightarrow> fail e
                     | None \<Rightarrow> fail (Status Aborted ''request was decided concurrently''))) sv2 = (Inr response, sv')"
      by (auto simp: and_then_Inr)
    moreover from this have "found = Some response \<and> sv2 = sv'"
      by (auto simp: outcome_simps split: option.splits)
    ultimately show ?thesis using on_existingDecision by blast
  next
    case (Inr u)
    let ?ev = "on_store w 5 (RecordSecurityEvent
                 (if decision = ''approve'' then ''request.approved'' else ''request.denied'')
                 (er_RequestID (sr_Request item)) (sr_RequestHash item)
                 (if reason = '''' then decision @ ''d by local uid 0'' else reason) (w_now w 3))"
    from Inr body obtain v sv2 where ev: "?ev ?sv1 = (v, sv2)"
      and rest: "sv_Store sv' = sv_Store sv2" "response = \<lparr>de_RequestId = er_RequestID (sr_Request item),
           de_ApprovalId = approvalID, de_Status = decided decision, de_DecidedBy = approvalActor ?a\<rparr>"
      by (auto simp: and_then_Inr outcome_ignoring outcome_ret spawn_execute_def outcome_state_upd split: if_splits)
    have "db_ok (st_db ?S)" using ok ok.any_calls_effect by (auto simp: db_inv_def)
    then have "decision_recorded (st_db s) response (sr_RequestHash item) decision"
      using accepted_recorded [OF acc [unfolded Inr], of response] rest by (simp add: make_approval_def)
    then show ?thesis
      using decision_recorded_audit [OF audit_on_store [OF ev trail.RecordSecurityEvent_within]] rest by simp
  qed
qed

lemma decide_Inr:
  assumes run: "decide w ctx input decision sv = (Inr response, sv')" and ok: "db_ok (st_db (sv_Store sv))"
  obtains actor hash where "requester_of ctx = Inr actor" "rq_UID actor = 0"
    "decision = ''approve'' \<Longrightarrow> hash = di_RequestHash input"
    "decision_recorded (st_db (sv_Store sv')) response hash decision"
    "de_Status response = decided decision"
proof -
  obtain actor where actor: "requester_of ctx = Inr actor" "rq_UID actor = 0"
    using run by (cases "rootRequester ctx") (simp_all add: decide_def and_then_def lift_res_def rootRequester_Inr)
  then have root: "rootRequester ctx = Inr actor" by (simp add: rootRequester_Inr)
  let ?reason = "TrimSpace (di_Reason input)"
  note body = run [unfolded decide_def root and_then_lift_Inr Let_def]
  have "\<not> (length ?reason > 4096 \<or> contains_byte ?reason NUL)"
    using body by (auto simp: outcome_fail split: if_splits)
  note body = body [unfolded if_not_P [OF this] and_then_Inr]
  obtain u sv1 found sv2 where e: "on_store w 0 (ExpireOutstanding (w_sf w) (w_now w 0)) sv = (Inr u, sv1)"
    and g: "on_store w 1 (Get (di_RequestId input)) sv1 = (Inr found, sv2)"
    and rest: "(case found of None \<Rightarrow> fail (Status NotFound ''request not found'')
       | Some item \<Rightarrow>
         if decision = ''approve'' \<and> \<not> Equal (di_RequestHash input) (sr_RequestHash item)
         then fail (Status FailedPrecondition ''approval must confirm the inspected request hash'')
         else if sr_Status item \<noteq> Waiting then decide_again w item decision
         else if hash_mismatch (w_jcs w) item
         then and_then (ignoring (on_store w 2 (Transition (er_RequestID (sr_Request item)) PolicyRejected (Some Waiting)))) (\<lambda>_.
              and_then (ignoring (on_store w 3 (RecordSecurityEvent ''request.integrity-failed''
                (er_RequestID (sr_Request item)) (sr_RequestHash item)
                ''Persisted request hash mismatch during local decision'' (w_now w 1)))) (\<lambda>_.
              fail (Status DataLoss ''persisted request integrity check failed'')))
         else and_then (lift_res (UUID (w_uuid w))) (\<lambda>approvalID.
              record_decision w ctx actor item decision ?reason approvalID)) sv2 = (Inr response, sv')"
    using body by blast
  have ok2: "db_ok (st_db (sv_Store sv2))"
    using ok_on_store [OF g ok.Get_within ok_on_store [OF e ok.ExpireOutstanding_within ok]] .
  obtain item where item: "found = Some item" using rest by (cases found) (auto simp: outcome_simps)
  with rest have hash: "decision = ''approve'' \<Longrightarrow> di_RequestHash input = sr_RequestHash item"
    by (auto simp: outcome_simps split: if_splits)
  have "decision_recorded (st_db (sv_Store sv')) response (sr_RequestHash item) decision
    \<and> de_Status response = decided decision"
  proof (cases "sr_Status item = Waiting")
    case False
    with rest item show ?thesis
      by (auto simp: outcome_simps split: if_splits dest: decide_again_Inr)
  next
    case True
    with rest item obtain approvalID where
      "record_decision w ctx actor item decision ?reason approvalID sv2 = (Inr response, sv')"
      by (auto simp: outcome_simps split: if_splits)
    then show ?thesis using record_decision_Inr ok2 by blast
  qed
  then show thesis by (intro that [of actor "sr_RequestHash item"]) (use actor hash in simp_all)
qed


definition root_context :: call_context where
  "root_context = \<lparr>cx_peer = Some (Some \<lparr>au_UID = 0, au_GID = 0, au_PID = 1, au_Username = ''root'', au_GroupName = ''root''\<rparr>),
     cx_Err = None\<rparr>"

lemma run_expires_nothing:
  assumes "sv_Store sv = sv_Store (run_service st as)"
  shows "on_store run_world i (ExpireOutstanding (w_sf run_world) 0) sv = (Inr (), sv)"
proof -
  have "\<not> expirable example_sf (now_text 0) (run_row st)"
    using parse_fmt_time [of 0] example_expiry
    by (simp add: expirable_def example_sf_def now_text_def run_row_def example_row_def)
  then have "update_status Expired (expirable example_sf (now_text 0)) (run_db st as) = (Inr 0, run_db st as)"
    by (simp add: update_status_def update_where_def rows_matching_def run_db_def)
  then show ?thesis
    using assms
    by (simp add: on_store_def ExpireOutstanding_def and_then_def stmt_quiet ret_def run_world_def run_service_def)
qed


end
