(* ===== verification/Daemon_Submit.thy ===== *)
theory Daemon_Submit
  imports Daemon_Decide
begin

section \<open>Submitting within the limits\<close>

subsection \<open>Outstanding requests\<close>

text \<open>The number of outstanding requests of which something holds, and the effect that it does not grow: no
  operation of the store but \<open>Create\<close> has another.\<close>

definition outstanding_rows :: "(json \<Rightarrow> bool) \<Rightarrow> db \<Rightarrow> nat" where
  "outstanding_rows p d =
     length (filter (\<lambda>r. rr_status r \<in> set outstanding \<and> p (rr_request_json r)) (d_requests d))"

definition no_more_outstanding :: "db \<Rightarrow> db \<Rightarrow> bool" where
  "no_more_outstanding d e \<longleftrightarrow> (\<forall>p. outstanding_rows p e \<le> outstanding_rows p d)"

lemma length_filter_update:
  "(\<And>r. p r \<Longrightarrow> P (f r) \<Longrightarrow> P r) \<Longrightarrow> length (filter P (update_where p f rows)) \<le> length (filter P rows)"
  by (induction rows) (auto simp: update_where_def)

lemma length_filter_filter: "length (filter P (filter q rows)) \<le> length (filter P rows)"
  by (induction rows) auto

lemma outstanding_iff: "st \<in> set outstanding \<longleftrightarrow> \<not> Terminal st"
  by (cases st) (simp_all add: outstanding_def)

lemma no_more_status:
  "(\<And>r. p r \<Longrightarrow> allowed (rr_status r) nx) \<Longrightarrow> within no_more_outstanding (update_status nx p)"
  by (rule withinI)
    (fastforce simp: no_more_outstanding_def outstanding_rows_def update_status_def outstanding_iff
      intro!: length_filter_update dest: terminal_no_successor)

interpretation fewer: row_deletions no_more_outstanding
proof
  show "no_more_outstanding d f" if "no_more_outstanding d e" "no_more_outstanding e f" for d e f
    using that order_trans unfolding no_more_outstanding_def by blast
  show "within no_more_outstanding (update_status nx p)" if "\<And>r. p r \<Longrightarrow> allowed (rr_status r) nx" for p nx
    using that by (rule no_more_status)
  show "within no_more_outstanding (update_output n flag rid)" for n flag rid
    by (rule withinI) (auto simp: no_more_outstanding_def outstanding_rows_def update_output_def
        intro!: length_filter_update)
  show "within no_more_outstanding (delete_request k)" for k
    by (rule withinI) (auto simp: no_more_outstanding_def outstanding_rows_def delete_request_def
        intro!: length_filter_filter simp del: filter_filter)
qed (auto simp: within_def no_more_outstanding_def outstanding_rows_def insert_approval_def insert_execution_def
    insert_chunk_def insert_event_def update_consumed_def update_executions_def insert_server_state_def
    delete_server_state_def drop_table_def drop_host_id_def delete_chunks_def delete_executions_def state_upd_def)

lemma OutstandingCounts_Inr:
  assumes "OutstandingCounts sf uid s = (Inr c, t)"
  shows "st_db t = st_db s \<and> fst c = int (outstanding_rows (\<lambda>j. sf_requester_uid sf j = Some (uint uid)) (st_db s))
    \<and> snd c = int (outstanding_rows (\<lambda>_. True) (st_db s))"
  using assms unfolding OutstandingCounts_def
  by (auto simp: outstanding_rows_def rows_matching_def uid_matches_def Let_def conj_commute dest!: select_Inr)

lemma Create_adds_one:
  assumes "Create sizes request hash s = (Inr u, t)"
  shows "outstanding_rows p (st_db t) \<le> Suc (outstanding_rows p (st_db s))"
proof -
  have "\<exists>r. st_db t = (st_db s)\<lparr>d_requests := d_requests (st_db s) @ [r]\<rparr>"
    using assms unfolding Create_def
    by (auto simp: outcome_simps insert_request_def split: if_splits dest!: stmt_Inr) metis
  then show ?thesis by (auto simp: outstanding_rows_def)
qed

lemma fewer_on_store:
  assumes "on_store w i m sv = (r, t)" and "within (on_db no_more_outstanding) m"
    and "list_all (\<lambda>c. \<not> is_create c) (w_env w i)"
  shows "outstanding_rows p (st_db (sv_Store t)) \<le> outstanding_rows p (st_db (sv_Store sv))"
proof -
  let ?S = "run_calls (w_sf w) (w_env w i) (sv_Store sv)"
  have "no_more_outstanding (st_db (sv_Store sv)) (st_db ?S)"
    using fewer.kept_calls_effect assms(3) by blast
  moreover have "no_more_outstanding (st_db ?S) (st_db (snd (m ?S)))"
    using fewer.on_db_effect assms(2) by blast
  ultimately show ?thesis
    using assms(1) by (auto simp: outcome_on_store no_more_outstanding_def) (meson order_trans)
qed

subsection \<open>The critical section\<close>

text \<open>While \<open>submitMu\<close> is held no other submission creates a request.\<close>

definition submissions_excluded :: "world \<Rightarrow> bool" where
  "submissions_excluded w \<longleftrightarrow> list_all (\<lambda>i. list_all (\<lambda>c. \<not> is_create c) (w_env w i)) [3, 4, 5]"

lemma admit_request_limits:
  assumes run: "admit_request w cfg actor request hash sv = (Inr u, sv')" and excl: "submissions_excluded w"
  shows "int (outstanding_rows (\<lambda>j. sf_requester_uid (w_sf w) j = Some (uint (rq_UID actor))) (st_db (sv_Store sv')))
      \<le> cf_MaxPendingPerUID cfg
    \<and> int (outstanding_rows (\<lambda>_. True) (st_db (sv_Store sv'))) \<le> cf_MaxPendingTotal cfg"
proof -
  obtain counts sv1 where c: "on_store w 2 (OutstandingCounts (w_sf w) (rq_UID actor)) sv = (Inr counts, sv1)"
    and rest: "(if \<not> outstanding_room cfg counts then fail too_many
       else and_then (attempt (on_store w 3 (Create (w_sizes w 0) request hash))) (\<lambda>created.
         case created of
           Inl e \<Rightarrow> if e = ErrStorageLimit then fail (Status ResourceExhausted ''state storage limit reached'')
                    else fail e
         | Inr _ \<Rightarrow> on_store w 4 (Transition (er_RequestID request)
             (if er_PolicyResult request = Deny then PolicyRejected else Waiting) (Some Created)))) sv1 = (Inr u, sv')"
    using run unfolding admit_request_def and_then_Inr by blast
  then have room: "outstanding_room cfg counts" by (auto simp: outcome_simps split: if_splits)
  then have not_room: "\<not> \<not> outstanding_room cfg counts" by simp
  obtain q sv2 where cr: "on_store w 3 (Create (w_sizes w 0) request hash) sv1 = (q, sv2)" by fastforce
  obtain v where q: "q = Inr v" and tr: "on_store w 4 (Transition (er_RequestID request)
             (if er_PolicyResult request = Deny then PolicyRejected else Waiting) (Some Created)) sv2 = (Inr u, sv')"
    using rest [unfolded if_not_P [OF not_room] and_then_attempt [where m = "on_store w 3 _", OF cr]]
    by (cases q) (simp_all add: outcome_fail split: if_splits)
  have one: "outstanding_rows p (st_db (sv_Store sv')) \<le> Suc (outstanding_rows p (st_db (sv_Store sv1)))" for p
  proof -
    let ?S = "run_calls (w_sf w) (w_env w 3) (sv_Store sv1)"
    have "outstanding_rows p (st_db (sv_Store sv2)) \<le> Suc (outstanding_rows p (st_db ?S))"
      using cr q Create_adds_one by (auto simp: outcome_on_store)
    moreover have "outstanding_rows p (st_db ?S) \<le> outstanding_rows p (st_db (sv_Store sv1))"
      using excl fewer.kept_calls_effect [of "w_env w 3" "sv_Store sv1" "w_sf w"]
      by (simp add: submissions_excluded_def no_more_outstanding_def)
    ultimately show ?thesis
      using fewer_on_store [OF tr fewer.Transition_within, of p] excl by (simp add: submissions_excluded_def)
  qed
  have "fst counts = int (outstanding_rows (\<lambda>j. sf_requester_uid (w_sf w) j = Some (uint (rq_UID actor))) (st_db (sv_Store sv1)))"
    "snd counts = int (outstanding_rows (\<lambda>_. True) (st_db (sv_Store sv1)))"
    using c OutstandingCounts_Inr [of "w_sf w" "rq_UID actor" "run_calls (w_sf w) (w_env w 2) (sv_Store sv)" counts "sv_Store sv1"]
    by (auto simp: outcome_on_store)
  with room one [of "\<lambda>j. sf_requester_uid (w_sf w) j = Some (uint (rq_UID actor))"] one [of "\<lambda>_. True"] show ?thesis
    by (simp add: outstanding_room_def not_le)
qed

lemma Submit_Inr:
  assumes "Submit w cfg ctx (Some i) sv = (Inr response, sv')"
  obtains actor request hash item sv1 sv2 sv3 where "requester_of ctx = Inr actor" "validateSubmit (Some i) = Inr ()"
    "prepare_request w cfg actor i = Inr (request, hash)"
    "admit_request w cfg actor request hash sv1 = (Inr (), sv2)"
    "on_store w 5 (Get (er_RequestID request)) sv2 = (Inr (Some item), sv3)" "sv_Store sv' = sv_Store sv3"
    "response = \<lparr>sb_RequestId = er_RequestID request, sb_RequestHash = hash,
               sb_Status = sr_Status item, sb_Hostname = hostname (w_hostname w),
               sb_Command = command (ex_Executable (er_Execution request)) (si_Argv i)\<rparr>"
proof -
  obtain actor where actor: "requester_of ctx = Inr actor"
    using assms by (cases "requester_of ctx") (simp_all add: Submit_def and_then_def lift_res_def)
  have valid: "validateSubmit (Some i) = Inr ()"
    using assms actor by (cases "validateSubmit (Some i)")
      (simp_all add: Submit_def and_then_def lift_res_def as_status_def)
  note body = assms [unfolded Submit_def actor valid as_status_def and_then_lift_Inr sum.case option.case]
  from body [unfolded and_then_Inr outcome_finally_do] obtain a sva b svb c svc where
    "(if \<not> outstanding_room cfg c then fail too_many
       else and_then (lift_res (prepare_request w cfg actor i)) (\<lambda>(request, hash).
         and_then (admit_request w cfg actor request hash) (\<lambda>_.
         and_then (attempt (on_store w 5 (Get (er_RequestID request)))) (\<lambda>stored.
           case stored of
             Inr (Some st) \<Rightarrow> ret \<lparr>sb_RequestId = er_RequestID request, sb_RequestHash = hash,
               sb_Status = sr_Status st, sb_Hostname = hostname (w_hostname w),
               sb_Command = command (ex_Executable (er_Execution request)) (si_Argv i)\<rparr>
           | _ \<Rightarrow> fail nil_dereference)))) svc = (Inr response, svb)" and store: "sv_Store sv' = sv_Store svb"
    by auto
  then obtain request hash svd stored sve where p: "prepare_request w cfg actor i = Inr (request, hash)"
    and a: "admit_request w cfg actor request hash svc = (Inr (), svd)"
    and g: "on_store w 5 (Get (er_RequestID request)) svd = (stored, sve)"
    and r: "(case stored of
             Inr (Some st) \<Rightarrow> ret \<lparr>sb_RequestId = er_RequestID request, sb_RequestHash = hash,
               sb_Status = sr_Status st, sb_Hostname = hostname (w_hostname w),
               sb_Command = command (ex_Executable (er_Execution request)) (si_Argv i)\<rparr>
           | _ \<Rightarrow> fail nil_dereference) sve = (Inr response, svb)"
    by (auto simp: and_then_Inr outcome_lift_res outcome_attempt outcome_fail split: if_splits
        dest!: sym [of "Inr _" "prepare_request w cfg actor i"])
  obtain item where item: "stored = Inr (Some item)"
    using r by (auto simp: outcome_fail split: sum.splits option.splits)
  with r have "sve = svb" "response = \<lparr>sb_RequestId = er_RequestID request, sb_RequestHash = hash,
               sb_Status = sr_Status item, sb_Hostname = hostname (w_hostname w),
               sb_Command = command (ex_Executable (er_Execution request)) (si_Argv i)\<rparr>"
    by (simp_all add: outcome_ret)
  with g item that [OF actor valid p a _ store] show thesis by simp
qed

text \<open>(C29) The limits on outstanding requests hold after every accepted submission, as long as the
  submission lock keeps other submissions out of the critical section: the caller has at most as many
  outstanding requests as one user may have, and all users together at most the total, whatever else
  happens to the store meanwhile.\<close>

theorem Submit_within_limits:
  assumes "Submit w cfg ctx (Some i) sv = (Inr response, sv')" and "submissions_excluded w"
    and "requester_of ctx = Inr actor"
  shows "int (outstanding_rows (\<lambda>j. sf_requester_uid (w_sf w) j = Some (uint (rq_UID actor))) (st_db (sv_Store sv')))
      \<le> cf_MaxPendingPerUID cfg
    \<and> int (outstanding_rows (\<lambda>_. True) (st_db (sv_Store sv'))) \<le> cf_MaxPendingTotal cfg"
proof -
  obtain request hash item sv1 sv2 sv3 where a: "admit_request w cfg actor request hash sv1 = (Inr (), sv2)"
    and g: "on_store w 5 (Get (er_RequestID request)) sv2 = (Inr (Some item), sv3)" and s: "sv_Store sv' = sv_Store sv3"
    using Submit_Inr [OF assms(1)] assms(3) by (metis sum.inject(2))
  have "outstanding_rows p (st_db (sv_Store sv')) \<le> outstanding_rows p (st_db (sv_Store sv2))" for p
    using fewer_on_store [OF g fewer.Get_within, of p] assms(2) s by (simp add: submissions_excluded_def)
  from this [of "\<lambda>j. sf_requester_uid (w_sf w) j = Some (uint (rq_UID actor))"] this [of "\<lambda>_. True"] show ?thesis
    using admit_request_limits [OF a assms(2)] by linarith
qed

subsection \<open>A submission that is accepted\<close>

definition user_context :: call_context where
  "user_context = \<lparr>cx_peer = Some (Some \<lparr>au_UID = 1000, au_GID = 1000, au_PID = 7, au_Username = ''ann'', au_GroupName = ''''\<rparr>),
     cx_Err = None\<rparr>"

abbreviation user_requester :: requester where
  "user_requester \<equiv> \<lparr>rq_UID = 1000, rq_GID = 1000, rq_PID = Some 7, rq_Username = Some ''ann'', rq_GroupName = None\<rparr>"

definition submit_input :: submit_request where
  "submit_input = \<lparr>si_Executable = ''/bin/ls'', si_Argv = [''-l''], si_Cwd = ''/tmp'', si_Env = [], si_Reason = ''x'',
     si_TimeoutMs = 1000\<rparr>"

definition submit_world :: world where
  "submit_world = run_world\<lparr>w_fs := run_fs\<lparr>sys_Stat := (\<lambda>p. of_Fstat run_directory)\<rparr>\<rparr>"

definition submit_service :: service where
  "submit_service = (run_service Created [])\<lparr>sv_Store := \<lparr>st_db = (run_db Created [])\<lparr>d_requests := []\<rparr>,
     st_maxBytes = 0, st_faults = []\<rparr>\<rparr>"

definition submit_id :: string where
  "submit_id = projr (UUID (w_uuid run_world))"

definition submit_nonce :: string where
  "submit_nonce = projr (Nonce (w_nonce run_world))"

definition submit_made :: execution_request where
  "submit_made = build_request user_requester submit_input ''/bin/ls'' (er_ExecutableMetadata run_request) None None
     (er_WorkingDirectoryMetadata run_request) RequireApproval submit_id submit_nonce 0"

definition submit_hash :: string where
  "submit_hash = sha256_hex (json_text (execution_request_json submit_made))"

lemma submit_draws: "UUID (w_uuid run_world) = Inr submit_id" "Nonce (w_nonce run_world) = Inr submit_nonce"
  by (simp_all add: submit_id_def submit_nonce_def run_world_def UUID_def Nonce_def Let_def)

lemma example_trim: "TrimSpace ''x'' = ''x''"
  by (simp add: TrimSpace_def trim_left.simps [of "''x''"] trim_right.simps [of "''x''"] decode_rune_ascii
      decode_last_rune_def byte_at_def is_space_def byte_def Let_def)

lemma submit_made_valid: "valid_request submit_made"
proof -
  have ascii: "ascii submit_id" "ascii submit_nonce"
    using ascii_UUID submit_draws(1) ascii_Nonce submit_draws(2) by blast+
  have "TrimSpace ''x'' = ''x''" by (rule example_trim)
  moreover have "list_all ascii (rk_Warnings (Risk e a b v))" for e a b v
    by (simp add: Risk_def Let_def byte_def)
  then have "valid_strs (rk_Warnings (Risk e a b v))" for e a b v
    by (auto simp: valid_strs_def list_all_iff intro: valid_utf8_ascii)
  ultimately show ?thesis
    using run_request_valid ascii
    by (simp add: valid_request_def submit_made_def build_request_def submit_input_def valid_requester_def
        valid_execution_def valid_opt_def valid_strs_def cloneMap_def valid_utf8_ascii byte_def int64_range_def
        RequireApproval_def valid_working_directory_metadata_def)
qed

lemma submit_prepares:
  "prepare_request submit_world run_config user_requester submit_input = Inr (submit_made, submit_hash)"
proof -
  have "OpenVerifiedExecutable run_fs (er_ExecutableMetadata run_request) = Inr run_file"
    by (rule run_executable_verifies)
  then have "inspectExecutableFile run_file ''/bin/ls'' 0 = Inr (er_ExecutableMetadata run_request)"
    by (simp add: OpenVerified_iff run_request_def example_request_def)
  then have fl: "inspectExecutableFile run_file ''/bin/ls'' (cf_MaxExecutableBytes run_config) = Inr (er_ExecutableMetadata run_request)"
    by (auto simp: inspectExecutableFile_Inr run_file_def run_config_def default_config_def)
  have "inspectShebang run_file = Inr None"
    by (simp add: inspectShebang_def run_file_def has_prefix_def)
  with fl have "InspectExecutableAndInterpreter (w_fs submit_world) ''/bin/ls'' (cf_MaxExecutableBytes run_config)
      = Inr (er_ExecutableMetadata run_request, None, None)"
    by (simp add: InspectExecutableAndInterpreter_def submit_world_def run_fs_def)
  moreover have "ResolveExecutable (w_fs submit_world) ''/bin/ls'' ''/tmp'' = Inr ''/bin/ls''"
    by (simp add: ResolveExecutable_def contains_byte_def NUL_def SLASH_def submit_world_def run_fs_def)
  moreover have "InspectDirectory (w_fs submit_world) ''/tmp'' = Inr (er_WorkingDirectoryMetadata run_request)"
    using run_directory_verifies
    by (simp add: InspectDirectory_def submit_world_def run_fs_def run_directory_def is_directory_def maxSafeInteger_def
        OpenVerifiedDirectory_def run_request_def example_request_def Let_def split: if_splits)
  moreover have "Load (w_policy submit_world) = Inr \<lparr>pc_Version = 1, pc_DefaultsAction = RequireApproval, pc_Rules = []\<rparr>"
    by (simp add: submit_world_def run_world_def Load_def validAction_def)
  moreover have "Evaluate ev \<lparr>pc_Version = 1, pc_DefaultsAction = RequireApproval, pc_Rules = []\<rparr> inp = RequireApproval" for ev inp
    by (simp add: Evaluate_def RequireApproval_def Deny_def)
  moreover have "w_uuid submit_world = w_uuid run_world" "w_nonce submit_world = w_nonce run_world"
    "w_jcs submit_world = (\<lambda>t. Inr t)" "w_now submit_world 2 = 0"
    by (simp_all add: submit_world_def)
  ultimately show ?thesis
    using submit_draws
    by (simp add: prepare_request_def as_status_def submit_input_def [THEN arg_cong, of si_Executable]
        submit_input_def [THEN arg_cong, of si_Cwd] Let_def submit_made_def [symmetric] Hash_def MarshalCanonical_def
        submit_hash_def)
qed

lemma submit_row_stored:
  assumes "rr_request_json r = execution_request_json submit_made"
  shows "\<exists>c. stored_of r = Inr c"
  using assms by (simp add: stored_of_def dec_execution_request_json submit_made_valid)

lemma submit_world_simps [simp]:
  "w_env submit_world k = []" "w_now submit_world k = 0" "w_sizes submit_world k = []"
  "w_sf submit_world = example_sf"
  by (simp_all add: submit_world_def run_world_def)

abbreviation submit_row :: "req_status \<Rightarrow> request_row" where
  "submit_row st \<equiv> \<lparr>rr_request_id = submit_id, rr_request_hash = submit_hash,
     rr_request_json = execution_request_json submit_made, rr_status = st, rr_created_at = er_CreatedAt submit_made,
     rr_expires_at = er_ExpiresAt submit_made, rr_output_bytes = 0, rr_output_truncated = 0\<rparr>"

abbreviation submit_store :: "request_row list \<Rightarrow> store" where
  "submit_store rows \<equiv> \<lparr>st_db = (run_db Created [])\<lparr>d_requests := rows\<rparr>, st_maxBytes = 0, st_faults = []\<rparr>"

lemma submit_made_fields: "er_RequestID submit_made = submit_id" "er_PolicyResult submit_made = RequireApproval"
  by (simp_all add: submit_made_def build_request_def)

lemma submit_moves:
  "Transition submit_id Waiting (Some Created) (submit_store [submit_row Created]) = (Inr (), submit_store [submit_row Waiting])"
proof -
  obtain c where "stored_of (submit_row Created) = Inr c" using submit_row_stored by fastforce
  moreover have "db_ok ((run_db Created [])\<lparr>d_requests := [submit_row Created]\<rparr>)"
    by (simp add: db_ok_def run_db_def example_db_def int64_range_def)
  ultimately show ?thesis
    using transition_quiet [of "submit_store [submit_row Created]" submit_id "submit_row Created" c "Some Created" Waiting]
    by (simp add: Transition_def transaction_def transaction_quiet update_where_def)
qed

lemma submit_admits:
  assumes "sv_Store sv = submit_store []"
  shows "admit_request submit_world run_config user_requester submit_made submit_hash sv
    = (Inr (), sv\<lparr>sv_Store := submit_store [submit_row Waiting]\<rparr>)"
proof -
  have "OutstandingCounts example_sf 1000 (submit_store []) = (Inr (0, 0), submit_store [])"
    by (simp add: OutstandingCounts_def select_quiet rows_matching_def)
  moreover have "Create [] submit_made submit_hash (submit_store []) = (Inr (), submit_store [submit_row Created])"
    by (simp add: Create_def and_then_def state_get_def hasCapacity_def stmt_quiet insert_request_def submit_made_fields)
  moreover have "outstanding_room run_config (0, 0)"
    by (simp add: outstanding_room_def run_config_def default_config_def)
  moreover have "RequireApproval \<noteq> Deny" by (simp add: RequireApproval_def Deny_def)
  ultimately show ?thesis
    using assms submit_moves
    by (simp add: admit_request_def and_then_def attempt_def on_store_def submit_made_fields)
qed

lemma submit_accepted:
  "\<exists>response sv'. Submit submit_world run_config user_context (Some submit_input) submit_service = (Inr response, sv')
     \<and> sb_RequestId response = submit_id \<and> sv_Store sv' = submit_store [submit_row Waiting]
     \<and> li_watchersByUID (sv_limits sv') = Map.empty \<and> li_watchersByRequest (sv_limits sv') = Map.empty"
proof -
  have actor: "requester_of user_context = Inr user_requester"
    by (simp add: requester_of_def user_context_def)
  have valid: "validateSubmit (Some submit_input) = Inr ()"
    by (simp add: validateSubmit_def submit_input_def contains_byte_def NUL_def example_trim)
  obtain l where lim: "acquireSubmission run_config 0 1000 no_limits = (Inr (), l)"
    "li_watchersByUID l = Map.empty" "li_watchersByRequest l = Map.empty"
    by (simp add: acquireSubmission_def no_limits_def times_of_def count_of_def run_config_def default_config_def)
  let ?sv = "submit_service\<lparr>sv_limits := l\<rparr>"
  have expire: "on_store submit_world 0 (ExpireOutstanding example_sf 0) ?sv = (Inr (), ?sv)"
    by (simp add: on_store_def ExpireOutstanding_def and_then_def stmt_quiet update_status_def ret_def submit_service_def)
  have counts: "on_store submit_world 1 (OutstandingCounts example_sf 1000) ?sv = (Inr (0, 0), ?sv)"
    by (simp add: on_store_def OutstandingCounts_def select_quiet rows_matching_def submit_service_def)
  have room: "outstanding_room run_config (0, 0)"
    by (simp add: outstanding_room_def run_config_def default_config_def)
  obtain c where "stored_of (submit_row Waiting) = Inr c" using submit_row_stored by fastforce
  then have get: "on_store submit_world 5 (Get submit_id) (?sv\<lparr>sv_Store := submit_store [submit_row Waiting]\<rparr>) =
      (Inr (Some c), ?sv\<lparr>sv_Store := submit_store [submit_row Waiting]\<rparr>)"
    by (simp add: on_store_def Get_def getFrom_quiet)
  have "sv_limits submit_service = no_limits" "sv_Store ?sv = submit_store []"
    by (simp_all add: submit_service_def run_service_def)
  then show ?thesis
    using actor valid lim expire counts room submit_prepares submit_admits [of ?sv] get
    by (simp add: Submit_def and_then_def lift_res_def as_status_def on_limits_def finally_do_def attempt_def
        ret_def submit_made_fields releaseSubmission_def)
qed

theorem Submit_within_limits_witness:
  "\<exists>response sv'. Submit submit_world run_config user_context (Some submit_input) submit_service = (Inr response, sv')
     \<and> outstanding_rows (\<lambda>_. True) (st_db (sv_Store sv')) \<le> 256"
proof -
  obtain response sv' where run: "Submit submit_world run_config user_context (Some submit_input) submit_service = (Inr response, sv')"
    using submit_accepted by blast
  have "submissions_excluded submit_world" by (simp add: submissions_excluded_def)
  moreover have "requester_of user_context = Inr user_requester"
    by (simp add: requester_of_def user_context_def)
  ultimately show ?thesis
    using Submit_within_limits [OF run] run by (simp add: run_config_def default_config_def)
qed

text \<open>The last read of \<open>Submit\<close> drops its error: when it fails, the request is stored and waiting, but the
  handler dereferences a nil pointer.\<close>

lemma Submit_nil_dereference:
  assumes "requester_of ctx = Inr actor" and "validateSubmit (Some i) = Inr ()"
    and "acquireSubmission cfg (w_now w 0) (rq_UID actor) (sv_limits sv) = (Inr (), l)"
    and "on_store w 0 (ExpireOutstanding (w_sf w) (w_now w 1)) (sv\<lparr>sv_limits := l\<rparr>) = (Inr (), sv1)"
    and "on_store w 1 (OutstandingCounts (w_sf w) (rq_UID actor)) sv1 = (Inr c, sv2)" and "outstanding_room cfg c"
    and "prepare_request w cfg actor i = Inr (request, hash)"
    and "admit_request w cfg actor request hash sv2 = (Inr (), sv3)"
    and "on_store w 5 (Get (er_RequestID request)) sv3 = (Inl e, sv4)"
  shows "fst (Submit w cfg ctx (Some i) sv) = Inl nil_dereference
    \<and> sv_Store (snd (Submit w cfg ctx (Some i) sv)) = sv_Store sv4"
  using assms
  by (simp add: Submit_def and_then_def lift_res_def as_status_def on_limits_def finally_do_def attempt_def fail_def)

end
