(* ===== verification/Daemon_Watch.thy ===== *)
theory Daemon_Watch
  imports Daemon_Submit
begin

section \<open>Watching a request: internal/daemon/service.go\<close>

text \<open>
  \<open>Watch\<close> streams the output of a request and ends with its outcome. Its loop runs as long as the request is
  not finished, so it takes the rounds it makes as a list: for each round the world it sees (with the
  interference of the other handlers at every access to the store) and whether the context of the call
  is done when the round has to wait. The result \<open>False\<close> means that the rounds were used up while the
  handler is still watching. \<open>sendErr\<close> is what \<open>stream.Send\<close> answers to the n-th message.
\<close>

record local_event =
  le_Type :: string
  le_RequestId :: string
  le_Status :: "req_status option"
  le_Stream :: string
  le_Data :: bytes
  le_ApprovedBy :: string
  le_Decision :: string
  le_ExitCode :: int
  le_HasExitCode :: bool
  le_Signal :: string
  le_Truncated :: bool
  le_Sequence :: u64

definition empty_event :: "string \<Rightarrow> string \<Rightarrow> local_event" where
  "empty_event type requestID = \<lparr>le_Type = type, le_RequestId = requestID, le_Status = None, le_Stream = '''',
     le_Data = '''', le_ApprovedBy = '''', le_Decision = '''', le_ExitCode = 0, le_HasExitCode = False,
     le_Signal = '''', le_Truncated = False, le_Sequence = 0\<rparr>"

type_synonym 'a watch_op = "(service \<times> local_event list, 'a) op"

definition on_service :: "'a service_op \<Rightarrow> 'a watch_op" where
  "on_service m = (\<lambda>(sv, sent). case m sv of (r, t) \<Rightarrow> (r, (t, sent)))"

definition send_event :: "(nat \<Rightarrow> err option) \<Rightarrow> local_event \<Rightarrow> unit watch_op" where
  "send_event sendErr e = (\<lambda>(sv, sent).
     case sendErr (length sent) of
       Some er \<Rightarrow> (Inl er, (sv, sent))
     | None \<Rightarrow> (Inr (), (sv, sent @ [e])))"

definition output_event :: "string \<Rightarrow> output_chunk \<Rightarrow> local_event" where
  "output_event requestID chunk = (empty_event ''output'' requestID)\<lparr>le_Stream := oc_Stream chunk,
     le_Data := oc_Data chunk, le_Sequence := oc_Sequence chunk\<rparr>"

text \<open>Sending the chunks of a page; \<open>after\<close> is left one past the last that was sent.\<close>

fun send_chunks :: "(nat \<Rightarrow> err option) \<Rightarrow> string \<Rightarrow> u64 \<Rightarrow> output_chunk list \<Rightarrow> u64 watch_op" where
  "send_chunks sendErr requestID after [] = ret after"
| "send_chunks sendErr requestID after (chunk # chunks) =
     and_then (send_event sendErr (output_event requestID chunk)) (\<lambda>_.
     send_chunks sendErr requestID (oc_Sequence chunk + 1) chunks)"

definition state_event :: "string \<Rightarrow> stored_request \<Rightarrow> approval option \<Rightarrow> local_event" where
  "state_event requestID item approval =
     (empty_event ''state'' requestID)\<lparr>le_Status := Some (sr_Status item), le_Truncated := sr_OutputTruncated item,
       le_Decision := (case approval of None \<Rightarrow> '''' | Some a \<Rightarrow> ap_Decision a),
       le_ApprovedBy := (case approval of None \<Rightarrow> '''' | Some a \<Rightarrow> approvalActor a)\<rparr>"

definition finished_event :: "local_event \<Rightarrow> execution_result option \<Rightarrow> local_event" where
  "finished_event e execution =
     (case execution of None \<Rightarrow> e
      | Some x \<Rightarrow> e\<lparr>le_HasExitCode := (xe_ExitCode x \<noteq> None),
          le_ExitCode := (case xe_ExitCode x of None \<Rightarrow> 0 | Some code \<Rightarrow> code), le_Signal := xe_Signal x\<rparr>)
     \<lparr>le_Type := ''finished''\<rparr>"

datatype round_end = More | Idle | Finished

definition ok_or_none :: "'a option res \<Rightarrow> 'a option" where
  "ok_or_none r = (case r of Inl _ \<Rightarrow> None | Inr x \<Rightarrow> x)"

definition watch_round :: "(nat \<Rightarrow> err option) \<Rightarrow> daemon_config \<Rightarrow> string \<Rightarrow> world \<Rightarrow> u64 \<Rightarrow> (u64 \<times> round_end) watch_op" where
  "watch_round sendErr cfg requestID w after =
     and_then (on_service (on_store w 0 (ExpireOutstanding (w_sf w) (w_now w 0)))) (\<lambda>_.
     and_then (on_service (on_store w 1 (OutputAfter requestID after (out_LiveBytes (cf_Output cfg))))) (\<lambda>(chunks, again).
     and_then (send_chunks sendErr requestID after chunks) (\<lambda>after'.
     if again then ret (after', More)
     else and_then (on_service (on_store w 2 (Get requestID))) (\<lambda>found.
       case found of None \<Rightarrow> fail (Status NotFound ''request not found'')
       | Some item \<Rightarrow>
         and_then (on_service (attempt (on_store w 3 (ApprovalFor requestID)))) (\<lambda>approval.
         let event = state_event requestID item (ok_or_none approval) in
         if Terminal (sr_Status item)
         then and_then (on_service (attempt (on_store w 4 (Execution requestID)))) (\<lambda>execution.
              and_then (send_event sendErr (finished_event event (ok_or_none execution))) (\<lambda>_.
              ret (after', Finished)))
         else ret (after', Idle))))))"

fun watch_rounds :: "(nat \<Rightarrow> err option) \<Rightarrow> daemon_config \<Rightarrow> string \<Rightarrow> (world \<times> err option) list \<Rightarrow> u64 \<Rightarrow> bool watch_op" where
  "watch_rounds sendErr cfg requestID [] after = ret False"
| "watch_rounds sendErr cfg requestID ((w, done) # rounds) after =
     and_then (watch_round sendErr cfg requestID w after) (\<lambda>(after', ended).
       case ended of
         Finished \<Rightarrow> ret True
       | More \<Rightarrow> watch_rounds sendErr cfg requestID rounds after'
       | Idle \<Rightarrow> (case done of Some e \<Rightarrow> fail e
                  | None \<Rightarrow> watch_rounds sendErr cfg requestID rounds after'))"

definition watch_finally :: "(service \<Rightarrow> service) \<Rightarrow> 'a watch_op \<Rightarrow> 'a watch_op" where
  "watch_finally f m = (\<lambda>s. case m s of (r, (sv, sent)) \<Rightarrow> (r, (f sv, sent)))"

definition Watch :: "(nat \<Rightarrow> err option) \<Rightarrow> daemon_config \<Rightarrow> world \<Rightarrow> call_context \<Rightarrow> string \<Rightarrow> u64
    \<Rightarrow> (world \<times> err option) list \<Rightarrow> bool watch_op" where
  "Watch sendErr cfg w ctx requestID after rounds =
     and_then (lift_res (requester_of ctx)) (\<lambda>actor.
     and_then (on_service (on_store w 0 (Get requestID))) (\<lambda>found.
       case found of None \<Rightarrow> fail (Status NotFound ''request not found'')
       | Some item \<Rightarrow>
         if rq_UID actor \<noteq> 0 \<and> rq_UID actor \<noteq> rq_UID (er_Requester (sr_Request item))
         then fail (Status PermissionDenied ''request belongs to another local user'')
         else and_then (on_service (on_limits (acquireWatcher cfg (rq_UID actor) (er_RequestID (sr_Request item))))) (\<lambda>_.
           watch_finally (\<lambda>sv. sv\<lparr>sv_limits := releaseWatcher (rq_UID actor) (er_RequestID (sr_Request item)) (sv_limits sv)\<rparr>)
             (watch_rounds sendErr cfg requestID rounds after))))"

subsection \<open>Output is streamed in order\<close>

text \<open>What was sent before the end: chunks of the request with growing sequence numbers, from the requested
  one on and below the next one asked for.\<close>

definition in_order :: "u64 \<Rightarrow> output_chunk list \<Rightarrow> bool" where
  "in_order after outs \<longleftrightarrow> sorted_wrt (\<lambda>a b. oc_Sequence a < oc_Sequence b) outs
     \<and> list_all (\<lambda>c. after \<le> oc_Sequence c) outs"

definition sent_below :: "string \<Rightarrow> u64 \<Rightarrow> u64 \<Rightarrow> local_event list \<Rightarrow> bool" where
  "sent_below k start after sent \<longleftrightarrow> start \<le> after
     \<and> (\<exists>outs. sent = map (output_event k) outs \<and> in_order start outs \<and> list_all (\<lambda>c. oc_Sequence c < after) outs)"

lemma in_order_snoc:
  "in_order start outs \<Longrightarrow> list_all (\<lambda>d. oc_Sequence d < oc_Sequence c) outs \<Longrightarrow> start \<le> oc_Sequence c
    \<Longrightarrow> in_order start (outs @ [c])"
  by (simp add: in_order_def sorted_wrt_append list_all_iff)

lemma next_sequence:
  fixes x :: u64
  assumes "uint x < 2 ^ 63"
  shows "uint (x + 1) = uint x + 1" "x < x + 1" "y < x + 1 \<longleftrightarrow> y \<le> x"
proof -
  show e: "uint (x + 1) = uint x + 1"
    using assms by (simp add: uint_word_ariths)
  then show "x < x + 1" by (simp add: word_less_def)
  show "y < x + 1 \<longleftrightarrow> y \<le> x" using e by (simp add: word_less_def word_le_def)
qed

lemma sent_below_step:
  assumes "sent_below k start after sent" and "after \<le> oc_Sequence c" and "uint (oc_Sequence c) < 2 ^ 63"
  shows "sent_below k start (oc_Sequence c + 1) (sent @ [output_event k c])"
proof -
  obtain outs where o: "sent = map (output_event k) outs" "in_order start outs" "list_all (\<lambda>c. oc_Sequence c < after) outs"
    "start \<le> after"
    using assms(1) by (auto simp: sent_below_def)
  have "in_order start (outs @ [c])"
    using o assms(2) by (intro in_order_snoc) (auto simp: list_all_iff intro: less_le_trans)
  moreover have "list_all (\<lambda>d. oc_Sequence d < oc_Sequence c + 1) (outs @ [c])"
    using o(3) assms(2) next_sequence [OF assms(3)] by (auto simp: list_all_iff intro: less_imp_le less_le_trans)
  moreover have "start \<le> oc_Sequence c + 1"
    using o(4) assms(2) next_sequence(2) [OF assms(3)] by (meson less_imp_le order_trans)
  ultimately show ?thesis
    using o(1) unfolding sent_below_def by (intro conjI exI [of _ "outs @ [c]"]) simp_all
qed

lemma send_event_outcome:
  "send_event sendErr e (sv, sent) = (r, (sv', sent')) \<Longrightarrow>
     sv' = sv \<and> (case r of Inl _ \<Rightarrow> sent' = sent | Inr _ \<Rightarrow> sent' = sent @ [e])"
  by (auto simp: send_event_def split: option.splits)

lemma send_chunks_order:
  assumes "send_chunks sendErr k after chunks (sv, sent) = (r, (sv', sent'))"
    and "sent_below k start after sent" and "sorted_wrt (\<lambda>a b. oc_Sequence a < oc_Sequence b) chunks"
    and "list_all (\<lambda>c. after \<le> oc_Sequence c \<and> uint (oc_Sequence c) < 2 ^ 63) chunks"
  shows "sv' = sv \<and> (case r of Inl _ \<Rightarrow> \<exists>a. sent_below k start a sent' | Inr a \<Rightarrow> sent_below k start a sent')"
  using assms
proof (induction chunks arbitrary: after sent)
  case Nil
  then show ?case by (simp add: outcome_simps)
next
  case (Cons c chunks)
  obtain q sv1 sent1 where s: "send_event sendErr (output_event k c) (sv, sent) = (q, (sv1, sent1))" by (metis prod.exhaust)
  show ?case
  proof (cases q)
    case (Inl e)
    then have "r = Inl e" "sv' = sv" "sent' = sent"
      using Cons.prems(1) s send_event_outcome [OF s] by (auto simp: and_then_def)
    with Cons.prems(2) show ?thesis by auto
  next
    case (Inr u)
    then have t: "sv1 = sv" "sent1 = sent @ [output_event k c]" using send_event_outcome [OF s] by auto
    have "send_chunks sendErr k (oc_Sequence c + 1) chunks (sv, sent1) = (r, (sv', sent'))"
      using Cons.prems(1) s Inr t by (simp add: and_then_def)
    moreover have "sent_below k start (oc_Sequence c + 1) sent1"
      using sent_below_step [OF Cons.prems(2), of c] Cons.prems(4) t by simp
    moreover have "list_all (\<lambda>d. oc_Sequence c + 1 \<le> oc_Sequence d \<and> uint (oc_Sequence d) < 2 ^ 63) chunks"
      using Cons.prems(3,4) next_sequence(1) [of "oc_Sequence c"] by (auto simp: list_all_iff word_less_def word_le_def)
    ultimately show ?thesis using Cons.IH Cons.prems(3) by simp
  qed
qed

lemma OutputAfter_order:
  assumes "db_ok (st_db s)" and "OutputAfter k after n s = (Inr (chunks, again), s')"
  shows "sorted_wrt (\<lambda>a b. oc_Sequence a < oc_Sequence b) chunks
    \<and> list_all (\<lambda>c. after \<le> oc_Sequence c \<and> uint (oc_Sequence c) < 2 ^ 63) chunks"
proof -
  let ?rows = "chunks_from k (uint after) (st_db s)"
  obtain m where m: "chunks = map chunk_of (take m ?rows)"
    using OutputAfter_take [OF assms] by blast
  have range: "uint (oc_Sequence (chunk_of c)) = cr_sequence c" "cr_sequence c < 2 ^ 63" "uint after \<le> cr_sequence c"
    if "c \<in> set (take m ?rows)" for c
    using chunks_from_range [OF assms(1)] in_set_takeD [OF that] by blast+
  have "sorted_wrt (\<lambda>a b. cr_sequence a < cr_sequence b) (take m ?rows)"
    using chunks_from_sorted [OF assms(1)] by (rule sorted_wrt_take)
  then have "sorted_wrt (\<lambda>a b. oc_Sequence (chunk_of a) < oc_Sequence (chunk_of b)) (take m ?rows)"
    by (rule sorted_wrt_mono_rel [rotated]) (simp add: word_less_def range)
  then show ?thesis
    using m range by (simp add: sorted_wrt_map list_all_iff word_le_def)
qed

lemma and_thenE:
  assumes "and_then m f s = (r, t)"
  obtains (stopped) e where "m s = (Inl e, t)" "r = Inl e" | (went_on) x u where "m s = (Inr x, u)" "f x u = (r, t)"
  using assms by (auto simp: and_then_def split: prod.splits sum.splits)

lemma outcome_on_service:
  "on_service m (sv, sent) = (r, (sv', sent')) \<longleftrightarrow> sent' = sent \<and> m sv = (r, sv')"
  by (auto simp: on_service_def split: prod.splits)

lemma ok_attempt_on_store:
  assumes "attempt (on_store w i m) sv = (r, t)" and "within (on_db db_inv) m" and "db_ok (st_db (sv_Store sv))"
  shows "db_ok (st_db (sv_Store t))"
  using assms ok_on_store by (auto simp: outcome_attempt)

text \<open>How a round leaves the stream: still growing, or closed by the final message, which reports a final state.\<close>

definition final_message :: "string \<Rightarrow> local_event \<Rightarrow> bool" where
  "final_message k e \<longleftrightarrow> le_Type e = ''finished'' \<and> le_RequestId e = k \<and> (\<exists>st. le_Status e = Some st \<and> Terminal st)"

definition round_order :: "string \<Rightarrow> u64 \<Rightarrow> (u64 \<times> round_end) res \<Rightarrow> local_event list \<Rightarrow> bool" where
  "round_order k start r sent =
     (case r of
        Inl _ \<Rightarrow> \<exists>a. sent_below k start a sent
      | Inr (a, ended) \<Rightarrow> if ended = Finished
          then \<exists>before e. sent = before @ [e] \<and> final_message k e \<and> sent_below k start a before
          else sent_below k start a sent)"

lemma round_tail_order:
  assumes run: "and_then (on_service (on_store w 2 (Get k))) (\<lambda>found.
       case found of None \<Rightarrow> fail (Status NotFound ''request not found'')
       | Some item \<Rightarrow>
         and_then (on_service (attempt (on_store w 3 (ApprovalFor k)))) (\<lambda>approval.
         let event = state_event k item (ok_or_none approval) in
         if Terminal (sr_Status item)
         then and_then (on_service (attempt (on_store w 4 (Execution k)))) (\<lambda>execution.
              and_then (send_event sendErr (finished_event event (ok_or_none execution))) (\<lambda>_.
              ret (after, Finished)))
         else ret (after, Idle))) (sv, sent) = (r, (sv', sent'))"
    and ok: "db_ok (st_db (sv_Store sv))" and below: "sent_below k start after sent"
  shows "db_ok (st_db (sv_Store sv')) \<and> round_order k start r sent'"
  using run
proof (cases rule: and_thenE)
  case (stopped e)
  then show ?thesis
    using ok ok_on_store [OF _ ok.Get_within] below by (auto simp: outcome_on_service round_order_def)
next
  case (went_on found u)
  obtain sv1 where u: "u = (sv1, sent)" and g: "on_store w 2 (Get k) sv = (Inr found, sv1)"
    using went_on(1) by (cases u) (auto simp: outcome_on_service)
  have ok1: "db_ok (st_db (sv_Store sv1))" using ok_on_store [OF g ok.Get_within ok] .
  show ?thesis
  proof (cases found)
    case None
    then show ?thesis using went_on(2) u ok1 below by (auto simp: outcome_fail round_order_def)
  next
    case (Some item)
    obtain q sv2 where a: "on_store w 3 (ApprovalFor k) sv1 = (q, sv2)" by fastforce
    then have "on_service (attempt (on_store w 3 (ApprovalFor k))) (sv1, sent) = (Inr q, (sv2, sent))"
      by (simp add: outcome_on_service attempt_def)
    note step = went_on(2) [unfolded Some option.case u and_then_def [of "on_service (attempt _)"] this prod.case sum.case Let_def]
    have ok2: "db_ok (st_db (sv_Store sv2))" using ok_on_store [OF a ok.ApprovalFor_within ok1] .
    obtain p sv3 where x: "on_store w 4 (Execution k) sv2 = (p, sv3)" by fastforce
    have ok3: "db_ok (st_db (sv_Store sv3))" using ok_on_store [OF x ok.Execution_within ok2] .
    have "on_service (attempt (on_store w 4 (Execution k))) (sv2, sent) = (Inr p, (sv3, sent))"
      using x by (simp add: outcome_on_service attempt_def)
    with step have "if Terminal (sr_Status item)
        then and_then (send_event sendErr (finished_event (state_event k item (ok_or_none q)) (ok_or_none p))) (\<lambda>_.
              ret (after, Finished)) (sv3, sent) = (r, (sv', sent'))
        else ret (after, Idle) (sv2, sent) = (r, (sv', sent'))"
      by (simp add: and_then_def [of "on_service _"] split: if_splits)
    then show ?thesis
      using ok2 ok3 below
      by (auto simp: outcome_ret round_order_def finished_event_def final_message_def state_event_def empty_event_def
          split: if_splits option.splits elim!: and_thenE
          dest!: send_event_outcome)
  qed
qed

lemma watch_round_order:
  assumes run: "watch_round sendErr cfg k w after (sv, sent) = (r, (sv', sent'))"
    and ok: "db_ok (st_db (sv_Store sv))" and below: "sent_below k start after sent"
  shows "db_ok (st_db (sv_Store sv')) \<and> round_order k start r sent'"
  using run [unfolded watch_round_def]
proof (cases rule: and_thenE)
  case (stopped e)
  then show ?thesis
    using ok ok_on_store [OF _ ok.ExpireOutstanding_within] below by (auto simp: outcome_on_service round_order_def)
next
  case (went_on v u)
  obtain sv1 where u: "u = (sv1, sent)" and e: "on_store w 0 (ExpireOutstanding (w_sf w) (w_now w 0)) sv = (Inr v, sv1)"
    using went_on(1) by (cases u) (auto simp: outcome_on_service)
  have ok1: "db_ok (st_db (sv_Store sv1))" using ok_on_store [OF e ok.ExpireOutstanding_within ok] .
  from went_on(2) show ?thesis
  proof (cases rule: and_thenE)
    case (stopped er)
    then show ?thesis
      using u ok1 ok_on_store [OF _ ok.OutputAfter_within] below by (auto simp: outcome_on_service round_order_def)
  next
    case (went_on page t)
    obtain chunks again where page: "page = (chunks, again)" by fastforce
    obtain sv2 where t: "t = (sv2, sent)"
      and o: "on_store w 1 (OutputAfter k after (out_LiveBytes (cf_Output cfg))) sv1 = (Inr (chunks, again), sv2)"
      using went_on(1) u page by (cases t) (auto simp: outcome_on_service)
    have ok2: "db_ok (st_db (sv_Store sv2))" using ok_on_store [OF o ok.OutputAfter_within ok1] .
    have "db_ok (st_db (run_calls (w_sf w) (w_env w 1) (sv_Store sv1)))"
      using ok1 ok.any_calls_effect by (auto simp: db_inv_def)
    then have order: "sorted_wrt (\<lambda>a b. oc_Sequence a < oc_Sequence b) chunks
        \<and> list_all (\<lambda>c. after \<le> oc_Sequence c \<and> uint (oc_Sequence c) < 2 ^ 63) chunks"
      using OutputAfter_order o by (auto simp: outcome_on_store)
    from went_on(2) [unfolded page t prod.case] show ?thesis
    proof (cases rule: and_thenE)
      case (stopped er)
      then show ?thesis
        using send_chunks_order [of sendErr k after chunks sv2 sent "Inl er" sv' sent' start] order below ok2
        by (auto simp: round_order_def)
    next
      case (went_on after' t')
      obtain sv3 sent3 where t': "t' = (sv3, sent3)" by fastforce
      then have s: "sv3 = sv2" "sent_below k start after' sent3"
        using send_chunks_order [of sendErr k after chunks sv2 sent "Inr after'" sv3 sent3 start] order below went_on(1)
        by auto
      show ?thesis
      proof (cases again)
        case True
        then show ?thesis using went_on(2) t' s ok2 by (auto simp: outcome_ret round_order_def)
      next
        case False
        show ?thesis
          by (rule round_tail_order [OF went_on(2) [unfolded t' s(1) if_not_P [OF False]] ok2 s(2)])
      qed
    qed
  qed
qed

text \<open>The whole stream: the output in order, then at most the final message, and that only at the end.\<close>

definition stream_order :: "string \<Rightarrow> u64 \<Rightarrow> bool res \<Rightarrow> local_event list \<Rightarrow> bool" where
  "stream_order k start r sent \<longleftrightarrow> (\<exists>outs final. sent = map (output_event k) outs @ final \<and> in_order start outs
     \<and> list_all (\<lambda>c. oc_Sequence c < oc_Sequence c + 1) outs
     \<and> (if r = Inr True then \<exists>e. final = [e] \<and> final_message k e else final = []))"

lemma sent_below_outs:
  assumes "sent_below k start a sent"
  obtains outs where "sent = map (output_event k) outs" "in_order start outs" "list_all (\<lambda>c. oc_Sequence c < oc_Sequence c + 1) outs"
proof -
  have "x < x + 1" if "x < a" for x :: u64
  proof -
    have "uint a < 2 ^ 64" using unsigned_less [of a, where 'a = int] by simp
    then have "uint (x + 1) = uint x + 1" using that by (simp add: word_less_def uint_word_ariths)
    then show ?thesis by (simp add: word_less_def)
  qed
  with assms that show thesis by (auto simp: sent_below_def list_all_iff)
qed

lemma sent_below_stream: "sent_below k start a sent \<Longrightarrow> r \<noteq> Inr True \<Longrightarrow> stream_order k start r sent"
  by (erule sent_below_outs) (auto simp: stream_order_def)

lemma sent_below_final: "sent_below k start a before \<Longrightarrow> final_message k e \<Longrightarrow> stream_order k start (Inr True) (before @ [e])"
  by (erule sent_below_outs) (auto simp: stream_order_def)

lemma watch_rounds_order:
  assumes "watch_rounds sendErr cfg k rounds after (sv, sent) = (r, (sv', sent'))"
    and "db_ok (st_db (sv_Store sv))" and "sent_below k start after sent"
  shows "stream_order k start r sent' \<and> db_ok (st_db (sv_Store sv'))"
  using assms
proof (induction rounds arbitrary: after sv sent)
  case Nil
  then show ?case by (auto simp: outcome_ret intro: sent_below_stream)
next
  case (Cons round rounds)
  obtain w finished where round: "round = (w, finished)" by fastforce
  from Cons.prems(1) [unfolded round watch_rounds.simps] show ?case
  proof (cases rule: and_thenE)
    case (stopped e)
    then show ?thesis
      using watch_round_order [OF _ Cons.prems(2,3)] by (fastforce simp: round_order_def intro: sent_below_stream)
  next
    case (went_on p u)
    obtain a ended sv1 sent1 where pu: "p = (a, ended)" "u = (sv1, sent1)" by (metis prod.exhaust)
    have o: "db_ok (st_db (sv_Store sv1))" "round_order k start (Inr (a, ended)) sent1"
      using watch_round_order [OF went_on(1) [unfolded pu] Cons.prems(2,3)] by auto
    show ?thesis
    proof (cases "ended = Finished")
      case True
      then show ?thesis
        using went_on(2) pu o by (auto simp: outcome_ret round_order_def intro: sent_below_final)
    next
      case False
      then have below: "sent_below k start a sent1" using o(2) by (simp add: round_order_def)
      from went_on(2) False pu consider
        "watch_rounds sendErr cfg k rounds a (sv1, sent1) = (r, (sv', sent'))" | "r \<noteq> Inr True" "sent' = sent1" "sv' = sv1"
        by (cases ended) (auto simp: outcome_fail split: option.splits)
      then show ?thesis using Cons.IH o(1) below sent_below_stream by cases blast+
    qed
  qed
qed

text \<open>A watch keeps the tables in order.\<close>

lemma Watch_ok:
  assumes "db_ok (st_db (sv_Store sv))" and "Watch sendErr cfg w ctx k after rounds (sv, []) = (r, (sv', sent))"
  shows "db_ok (st_db (sv_Store sv'))"
proof -
  have rounds: "db_ok (st_db (sv_Store b))"
    if "watch_rounds sendErr cfg k rounds after (a, []) = (q, (b, t))" "db_ok (st_db (sv_Store a))" for a b q t
    using watch_rounds_order [OF that, of after] by (simp add: sent_below_def in_order_def)
  show ?thesis
    using assms ok_on_store [OF _ ok.Get_within assms(1)]
    by (auto simp: Watch_def lift_res_def outcome_on_service on_limits_def watch_finally_def fail_def
        split: prod.splits option.splits if_splits elim!: and_thenE dest!: rounds)
qed

subsection \<open>Whose output is streamed\<close>

text \<open>The rows a watch can read the output of a request from: those stored when it starts, and what other handlers
  append to that request while it runs.\<close>

definition other_calls :: "world \<Rightarrow> store_call set" where
  "other_calls w = (\<Union>i. set (w_env w i))"

definition watch_calls :: "world \<Rightarrow> (world \<times> err option) list \<Rightarrow> store_call set" where
  "watch_calls w rounds = other_calls w \<union> (\<Union>r\<in>set rounds. other_calls (fst r))"

definition watch_sources :: "string \<Rightarrow> world \<Rightarrow> (world \<times> err option) list \<Rightarrow> service \<Rightarrow> chunk_row set" where
  "watch_sources k w rounds sv = {c \<in> set (d_output_chunks (st_db (sv_Store sv))) \<union> (\<Union>call\<in>watch_calls w rounds. appended call).
     cr_request_id c = k}"

definition chunks_in :: "chunk_row set \<Rightarrow> service \<Rightarrow> bool" where
  "chunks_in G sv \<longleftrightarrow> set (d_output_chunks (st_db (sv_Store sv))) \<subseteq> G"

definition sourced :: "chunk_row set \<Rightarrow> string \<Rightarrow> service \<times> local_event list \<Rightarrow> bool" where
  "sourced G k = (\<lambda>(sv, sent). chunks_in G sv \<and> list_all (\<lambda>e. le_Type e = ''output'' \<longrightarrow>
     (\<exists>c\<in>G. cr_request_id c = k \<and> e = output_event k (chunk_of c))) sent)"

definition allowed_calls :: "chunk_row set \<Rightarrow> world \<Rightarrow> bool" where
  "allowed_calls G w \<longleftrightarrow> (\<Union>call\<in>other_calls w. appended call) \<subseteq> G"

lemma on_store_chunks:
  assumes "allowed_calls G w" "within (on_db (adds_chunks G)) m"
  shows "keeps (chunks_in G) (on_store w i m)"
proof (rule keepsI)
  fix sv assume sv: "chunks_in G sv"
  let ?s = "run_calls (w_sf w) (w_env w i) (sv_Store sv)"
  have "(\<Union>call\<in>set (w_env w i). appended call) \<subseteq> G" using assms(1) by (auto simp: allowed_calls_def other_calls_def)
  then have "adds_chunks G (st_db (sv_Store sv)) (st_db ?s)" by (rule adds_chunks_mono [OF run_calls_adds])
  moreover have "adds_chunks G (st_db ?s) (st_db (snd (m ?s)))" using sources.on_db_effect [OF assms(2)] .
  ultimately have "set (d_output_chunks (st_db (snd (m ?s)))) \<subseteq> set (d_output_chunks (st_db (sv_Store sv))) \<union> G"
    unfolding adds_chunks_def by (meson Un_least Un_upper2 order_trans)
  then have "set (d_output_chunks (st_db (snd (m ?s)))) \<subseteq> G"
    using sv unfolding chunks_in_def by (simp add: Un_absorb1)
  then show "chunks_in G (snd (on_store w i m sv))"
    by (simp add: chunks_in_def on_store_def case_prod_unfold)
qed

lemma on_service_sourced: "keeps (chunks_in G) m \<Longrightarrow> keeps (sourced G k) (on_service m)"
  by (auto simp: keeps_def within_def sourced_def on_service_def split: prod.splits)

lemma send_event_sourced:
  "(le_Type e = ''output'' \<longrightarrow> (\<exists>c\<in>G. cr_request_id c = k \<and> e = output_event k (chunk_of c))) \<Longrightarrow>
    keeps (sourced G k) (send_event sendErr e)"
  by (rule keepsI) (auto simp: sourced_def send_event_def split: option.splits)

lemma send_chunks_sourced:
  "list_all (\<lambda>c. \<exists>row\<in>G. cr_request_id row = k \<and> c = chunk_of row) chunks \<Longrightarrow>
    keeps (sourced G k) (send_chunks sendErr k after chunks)"
  by (induction chunks arbitrary: after) (auto intro!: keeps_intros send_event_sourced)

lemma page_rows: "page n tot result rows = Inr (chunks, again) \<Longrightarrow> set chunks \<subseteq> set result \<union> chunk_of ` set rows"
  by (induction n tot result rows rule: page.induct) (auto split: if_splits)

lemma OutputAfter_rows:
  assumes "OutputAfter k after n s = (Inr (chunks, again), s')"
  shows "set chunks \<subseteq> chunk_of ` {c \<in> set (d_output_chunks (st_db s)). cr_request_id c = k}"
proof -
  obtain a rows s1 where "select (chunks_from k a) s = (Inr rows, s1)" "page n 0 [] rows = Inr (chunks, again)"
    using assms by (auto simp: OutputAfter_def outcome_simps bind_u64_def split: if_splits)
  moreover from this(1) have "rows = chunks_from k a (st_db s)" by (auto dest: select_Inr)
  ultimately show ?thesis using page_rows [of n 0 "[]" rows chunks again] by (auto simp: chunks_from_def)
qed

lemma keeps_with:
  assumes "\<And>s x t. P s \<Longrightarrow> m s = (Inr x, t) \<Longrightarrow> good x" "keeps P m" "\<And>x. good x \<Longrightarrow> keeps P (f x)"
  shows "keeps P (and_then m f)"
proof (rule keepsI)
  fix s assume s: "P s"
  obtain r t where m: "m s = (r, t)" by fastforce
  have t: "P t" using keepsD [OF assms(2) s] m by simp
  show "P (snd (and_then m f s))"
  proof (cases r)
    case (Inr x)
    from keepsD [OF assms(3) [OF assms(1) [OF s m [unfolded Inr]]] t] m Inr show ?thesis by (simp add: and_then_def)
  qed (use m t in \<open>simp add: and_then_def\<close>)
qed

lemma watch_round_sourced:
  assumes "allowed_calls G w"
  shows "keeps (sourced G k) (watch_round sendErr cfg k w after)"
proof -
  have store: "keeps (sourced G k) (on_service (on_store w i m))" "keeps (sourced G k) (on_service (attempt (on_store w i m)))"
    if "within (on_db (adds_chunks G)) m" for i and m :: "'a store_op"
    using on_store_chunks [OF assms that] by (simp_all add: on_service_sourced keeps_attempt)
  have page: "list_all (\<lambda>c. \<exists>row\<in>G. cr_request_id row = k \<and> c = chunk_of row) (fst p)"
    if ok: "sourced G k s" and run: "on_service (on_store w 1 (OutputAfter k after n)) s = (Inr p, t)" for s t n p
  proof -
    obtain sv sent where s: "s = (sv, sent)" by fastforce
    let ?s = "run_calls (w_sf w) (w_env w 1) (sv_Store sv)"
    have "chunks_in G sv" using ok s by (simp add: sourced_def)
    from keepsD [OF on_store_chunks [OF assms, of "ret ()" 1] this] have "set (d_output_chunks (st_db ?s)) \<subseteq> G"
      by (simp add: on_store_def ret_def chunks_in_def sources.op_effects within_def on_db_def adds_chunks_def)
    moreover obtain s' where "OutputAfter k after n ?s = (Inr p, s')"
      using run s by (auto simp: on_service_def on_store_def split: prod.splits)
    ultimately show ?thesis using OutputAfter_rows [of k after n ?s "fst p" "snd p" s'] unfolding list_all_iff by fastforce
  qed
  have tail: "le_Type (finished_event e x) \<noteq> ''output''" for e x
    by (simp add: finished_event_def split: option.splits)
  show ?thesis
    unfolding watch_round_def
    apply (rule keeps_and_then [OF store(1) [OF sources.ExpireOutstanding_within]])
    apply (rule keeps_with [OF page store(1) [OF sources.OutputAfter_within]], assumption, assumption)
    apply (auto intro!: keeps_intros store sources.Get_within sources.ApprovalFor_within sources.Execution_within
        send_chunks_sourced send_event_sourced simp: tail Let_def)
    done
qed

lemma watch_rounds_sourced:
  "list_all (\<lambda>(w, e). allowed_calls G w) rounds \<Longrightarrow> keeps (sourced G k) (watch_rounds sendErr cfg k rounds after)"
proof (induction rounds arbitrary: after)
  case (Cons r rounds)
  obtain w e where r: "r = (w, e)" by fastforce
  with Cons show ?case
    by (auto intro!: keeps_intros watch_round_sourced split: round_end.splits option.splits)
qed (simp add: keeps_intros)

lemma watch_finally_sourced:
  assumes "\<And>sv. sv_Store (f sv) = sv_Store sv" "keeps (sourced G k) m"
  shows "keeps (sourced G k) (watch_finally f m)"
proof (rule keepsI)
  fix s assume "sourced G k s"
  then have "sourced G k (snd (m s))" using keepsD [OF assms(2)] by blast
  then show "sourced G k (snd (watch_finally f m s))"
    by (simp add: watch_finally_def sourced_def chunks_in_def assms(1) case_prod_unfold)
qed

lemma Watch_sources:
  assumes "Watch sendErr cfg w ctx k after rounds (sv, []) = (r, (sv', sent))"
  shows "set (filter (\<lambda>e. le_Type e = ''output'') sent) \<subseteq> (\<lambda>c. output_event k (chunk_of c)) ` watch_sources k w rounds sv"
proof -
  let ?G = "set (d_output_chunks (st_db (sv_Store sv))) \<union> (\<Union>call\<in>watch_calls w rounds. appended call)"
  have a: "allowed_calls ?G w" "list_all (\<lambda>(w, e). allowed_calls ?G w) rounds"
    by (auto simp: allowed_calls_def watch_calls_def list_all_iff)
  have limits: "keeps (chunks_in ?G) (on_limits m)" for m :: "(limits, unit) op"
    by (rule keepsI) (auto simp: on_limits_def chunks_in_def split: prod.splits)
  have "keeps (sourced ?G k) (Watch sendErr cfg w ctx k after rounds)"
    unfolding Watch_def
    by (auto intro!: keeps_intros on_service_sourced on_store_chunks [OF a(1)] sources.Get_within limits watch_finally_sourced
        watch_rounds_sourced [OF a(2)])
  from keepsD [OF this, of "(sv, [])"] assms show ?thesis
    unfolding sourced_def chunks_in_def watch_sources_def list_all_iff by fastforce
qed

lemma Watch_delivers:
  assumes "db_ok (st_db (sv_Store sv))" and "Watch sendErr cfg w ctx k after rounds (sv, []) = (r, (sv', sent))"
  shows "stream_order k after r sent
    \<and> (sent = [] \<or> (\<exists>actor item s. requester_of ctx = Inr actor
        \<and> Get k (run_calls (w_sf w) (w_env w 0) (sv_Store sv)) = (Inr (Some item), s)
        \<and> (rq_UID actor = 0 \<or> rq_UID actor = rq_UID (er_Requester (sr_Request item)))))"
proof (cases "sent = [] \<and> r \<noteq> Inr True")
  case True
  then show ?thesis by (simp add: stream_order_def in_order_def)
next
  case False
  obtain actor where actor: "requester_of ctx = Inr actor"
    using assms(2) False by (cases "requester_of ctx") (auto simp: Watch_def and_then_def lift_res_def)
  from assms(2) [unfolded Watch_def actor and_then_lift_Inr] obtain found sv1 where
    g: "on_store w 0 (Get k) sv = (Inr found, sv1)" and rest: "(case found of None \<Rightarrow> fail (Status NotFound ''request not found'')
       | Some item \<Rightarrow>
         if rq_UID actor \<noteq> 0 \<and> rq_UID actor \<noteq> rq_UID (er_Requester (sr_Request item))
         then fail (Status PermissionDenied ''request belongs to another local user'')
         else and_then (on_service (on_limits (acquireWatcher cfg (rq_UID actor) (er_RequestID (sr_Request item))))) (\<lambda>_.
           watch_finally (\<lambda>sv. sv\<lparr>sv_limits := releaseWatcher (rq_UID actor) (er_RequestID (sr_Request item)) (sv_limits sv)\<rparr>)
             (watch_rounds sendErr cfg k rounds after))) (sv1, []) = (r, (sv', sent))"
    using False by (auto elim!: and_thenE simp: outcome_on_service)
  have ok1: "db_ok (st_db (sv_Store sv1))" using ok_on_store [OF g ok.Get_within assms(1)] .
  obtain item where item: "found = Some item" using rest False by (cases found) (auto simp: outcome_fail)
  have allowed_caller: "rq_UID actor = 0 \<or> rq_UID actor = rq_UID (er_Requester (sr_Request item))"
    using rest item False by (auto simp: outcome_fail split: if_splits)
  obtain l sv2 where "watch_rounds sendErr cfg k rounds after (sv1\<lparr>sv_limits := l\<rparr>, []) = (r, (sv2, sent))"
    using rest item allowed_caller False
    by (auto elim!: and_thenE simp: outcome_on_service on_limits_def watch_finally_def split: prod.splits if_splits)
  then have "stream_order k after r sent"
    using watch_rounds_order [of sendErr cfg k rounds after "sv1\<lparr>sv_limits := l\<rparr>" "[]" r sv2 sent after] ok1
    by (simp add: sent_below_def in_order_def)
  moreover have "\<exists>s. Get k (run_calls (w_sf w) (w_env w 0) (sv_Store sv)) = (Inr (Some item), s)"
    using g item by (auto simp: outcome_on_store)
  ultimately show ?thesis using actor allowed_caller by blast
qed

text \<open>(C22) A watcher receives the output of a request in order, without repetition, and nothing else but one
  final message, whatever other handlers do meanwhile and wherever the stream breaks: the output messages have
  strictly growing sequence numbers, none below the number it asked for; each is a chunk of this very request,
  stored when the watch began or appended to it since; and the message \<open>finished\<close> comes last, exactly when the
  watch ends regularly. Nothing is sent to a caller who is neither root nor the owner of the request.\<close>

theorem Watch_in_order:
  assumes "db_ok (st_db (sv_Store sv))" and "Watch sendErr cfg w ctx k after rounds (sv, []) = (r, (sv', sent))"
  shows "stream_order k after r sent
    \<and> set (filter (\<lambda>e. le_Type e = ''output'') sent) \<subseteq> (\<lambda>c. output_event k (chunk_of c)) ` watch_sources k w rounds sv
    \<and> (sent = [] \<or> (\<exists>actor item s. requester_of ctx = Inr actor
        \<and> Get k (run_calls (w_sf w) (w_env w 0) (sv_Store sv)) = (Inr (Some item), s)
        \<and> (rq_UID actor = 0 \<or> rq_UID actor = rq_UID (er_Requester (sr_Request item)))))"
  using Watch_delivers [OF assms] Watch_sources [OF assms(2)] by simp

theorem Watch_in_order_witness:
  "\<exists>sv' sent. Watch (\<lambda>_. None) run_config run_world root_context ''r1'' 0 [(run_world, None)] (run_service Denied [], []) = (Inr True, (sv', sent))
     \<and> stream_order ''r1'' 0 (Inr True) sent"
proof -
  let ?sv = "run_service Denied []" and ?at = "0 :: u64"
  obtain actor where root: "requester_of root_context = Inr actor" "rq_UID actor = 0"
    by (simp add: requester_of_def root_context_def)
  obtain l where l: "acquireWatcher run_config 0 ''r1'' no_limits = (Inr (), l)"
    by (simp add: acquireWatcher_def no_limits_def run_config_def default_config_def)
  let ?lv = "?sv\<lparr>sv_limits := l\<rparr>"
  have id: "er_RequestID run_request = ''r1''" by (simp add: run_request_def example_request_def)
  have store: "sv_Store ?lv = sv_Store ?sv" "sv_limits ?sv = no_limits" by (simp_all add: run_service_def)
  have quiet: "on_store run_world i (Get ''r1'') v = (Inr (Some (run_item Denied)), v)"
    "on_store run_world i (OutputAfter ''r1'' ?at n) v = (Inr ([], False), v)"
    "on_store run_world i (ApprovalFor ''r1'') v = (Inr None, v)"
    "on_store run_world i (Execution ''r1'') v = (Inr None, v)"
    if "sv_Store v = sv_Store ?sv" for i n v
    using that by (simp_all add: on_store_def Get_def getFrom_quiet run_stored OutputAfter_def bind_u64_def chunks_from_def
        ApprovalFor_def Execution_def and_then_def select_quiet lift_res_def ret_def run_db_def)
  have expire: "on_store run_world i (ExpireOutstanding (w_sf run_world) 0) v = (Inr (), v)"
    if "sv_Store v = sv_Store ?sv" for i v using run_expires_nothing [OF that] .
  have "\<exists>sent. watch_round (\<lambda>_. None) run_config ''r1'' run_world ?at (?lv, []) = (Inr (?at, Finished), (?lv, sent))"
    by (simp add: watch_round_def and_then_def on_service_def quiet [OF store(1)] expire [OF store(1)] ret_def
        attempt_def send_event_def Let_def)
  then obtain sent where "watch_rounds (\<lambda>_. None) run_config ''r1'' [(run_world, None)] ?at (?lv, []) = (Inr True, (?lv, sent))"
    by (auto simp: and_then_def ret_def)
  then have "\<exists>sv'. Watch (\<lambda>_. None) run_config run_world root_context ''r1'' ?at [(run_world, None)] (?sv, []) = (Inr True, (sv', sent))"
    using root l store
    by (simp add: Watch_def and_then_lift_Inr id) (simp add: and_then_def on_service_def quiet on_limits_def
        watch_finally_def id)
  then obtain sv' where run: "Watch (\<lambda>_. None) run_config run_world root_context ''r1'' ?at [(run_world, None)] (?sv, []) = (Inr True, (sv', sent))"
    by blast
  with Watch_in_order [OF _ run] run_db_ok show ?thesis by auto
qed

end
