(* ===== verification/Cli_Terminal.thy ===== *)
theory Cli_Terminal
  imports Text_Display Daemon_Watch
begin

section \<open>The client's terminal: apps/cli/cmd/shudo/main.go\<close>

text \<open>
  What the client prints and asks. Its console is the bytes written to standard output, standard error and
  the controlling terminal, and the answers of the terminal still to come: one for every time \<open>/dev/tty\<close> is
  opened, an error or the bytes that can be read from it. Standard output and error take every write.
\<close>

record console =
  co_stdout :: string
  co_stderr :: string
  co_terminal :: string
  co_answers :: "string res list"

type_synonym 'a console_op = "(console, 'a) op"

definition NEWLINE :: char where
  "NEWLINE = CHR 0x0A"

definition print_out :: "string \<Rightarrow> unit console_op" where
  "print_out text = state_upd (\<lambda>c. c\<lparr>co_stdout := co_stdout c @ text\<rparr>)"

definition print_err :: "string \<Rightarrow> unit console_op" where
  "print_err text = state_upd (\<lambda>c. c\<lparr>co_stderr := co_stderr c @ text\<rparr>)"

definition print_tty :: "string \<Rightarrow> unit console_op" where
  "print_tty text = state_upd (\<lambda>c. c\<lparr>co_terminal := co_terminal c @ text\<rparr>)"

text \<open>\<open>os.OpenFile("/dev/tty", os.O_RDWR, 0)\<close>: the bytes that will be read.\<close>

definition open_tty :: "string console_op" where
  "open_tty = (\<lambda>c. case co_answers c of
     [] \<Rightarrow> (Inl (External ''ENXIO''), c)
   | answer # rest \<Rightarrow> (answer, c\<lparr>co_answers := rest\<rparr>))"

text \<open>\<open>bufio.NewReader(io.LimitReader(terminal, limit)).ReadString('\n')\<close>: the line with its end, or all there is
  together with the end of file.\<close>

definition read_line :: "nat \<Rightarrow> string \<Rightarrow> string \<times> err option" where
  "read_line limit input =
     (let available = take limit input in
      if NEWLINE \<in> set available
      then (takeWhile (\<lambda>c. c \<noteq> NEWLINE) available @ [NEWLINE], None)
      else (available, Some (External ''EOF'')))"

subsection \<open>Text for the terminal\<close>

definition control_rune :: "nat \<Rightarrow> bool" where
  "control_rune r \<longleftrightarrow> r < 0x20 \<or> r = 0x7F"

definition terminalText :: "string \<Rightarrow> string" where
  "terminalText value = (if \<not> list_ex control_rune (runes value) then value else QuoteToASCII value)"

definition shortID :: "string \<Rightarrow> string" where
  "shortID requestID = (if length requestID \<le> 8 then terminalText requestID else terminalText (take 8 requestID))"

definition requester_text :: "request_record \<Rightarrow> string" where
  "requester_text r =
     (if re_RequesterUsername r = '''' then ''uid:'' @ int_dec (uint (re_RequesterUid r)) else re_RequesterUsername r)"

definition nl :: string where
  "nl = [NEWLINE]"

definition printSummary :: "request_record \<Rightarrow> string" where
  "printSummary r =
     shortID (re_RequestId r) @ ''  '' @ terminalText (status_text (re_Status r)) @ ''  '' @ terminalText (requester_text r) @ nl
     @ ''  '' @ terminalText (re_Command r) @ nl @ ''  Reason: '' @ terminalText (re_Reason r) @ nl"

text \<open>The environment of a record is printed in the order of its keys.\<close>

definition env_text :: "(string \<times> string) list \<Rightarrow> string" where
  "env_text env =
     (if env = [] then ''''
      else ''Environment:'' @ nl
        @ concat (map (\<lambda>(k, v). ''  '' @ terminalText k @ ''='' @ terminalText v @ nl) (sort_key fst env)))"

definition decision_text :: "request_record \<Rightarrow> string" where
  "decision_text r =
     (if re_DecidedBy r = '''' then ''''
      else ''Decision:  '' @ terminalText (if re_Decision r = '''' then ''recorded'' else re_Decision r)
        @ '' by '' @ terminalText (re_DecidedBy r)
        @ (if re_DecisionReason r = '''' then ''''
           else '' '' @ encode_rune 0x2014 @ '' '' @ terminalText (re_DecisionReason r)) @ nl)"

definition argv_text :: "string list \<Rightarrow> string" where
  "argv_text argv = concat (map (\<lambda>(i, v). ''Arg['' @ nat_dec i @ '']:    '' @ QuoteToASCII v @ nl) (enumerate 0 argv))"

definition verbose_text :: "request_record \<Rightarrow> string" where
  "verbose_text r =
     ''Executable: '' @ terminalText (re_Executable r) @ nl
     @ argv_text (re_Argv r)
     @ ''UID/GID:   '' @ int_dec (uint (re_RequesterUid r)) @ ''/'' @ int_dec (uint (re_RequesterGid r)) @ nl
     @ ''Policy:    '' @ re_PolicyResult r @ nl @ ''Hash:      '' @ re_RequestHash r @ nl
     @ (if re_ApprovalId r = '''' then '''' else ''Approval:  '' @ terminalText (re_ApprovalId r) @ nl)"

definition printRecordTo :: "request_record \<Rightarrow> bool \<Rightarrow> string" where
  "printRecordTo r verbose =
     ''Request:   '' @ terminalText (re_RequestId r) @ nl @ ''Status:    '' @ terminalText (status_text (re_Status r)) @ nl
     @ ''Requester: '' @ terminalText (requester_text r) @ nl @ ''Command:   '' @ terminalText (re_Command r) @ nl
     @ ''Reason:    '' @ terminalText (re_Reason r) @ nl @ ''Directory: '' @ terminalText (re_Cwd r) @ nl
     @ ''Created:   '' @ terminalText (re_CreatedAt r) @ nl @ ''Expires:   '' @ terminalText (re_ExpiresAt r) @ nl
     @ env_text (re_Env r)
     @ (if re_Warnings r = [] then '''' else ''Warnings:  '' @ terminalText (join_with ''; '' (re_Warnings r)) @ nl)
     @ decision_text r
     @ (if verbose then verbose_text r else '''')"

subsection \<open>Questions\<close>

definition pick_line :: "nat \<times> request_record \<Rightarrow> string" where
  "pick_line p = (case p of (i, r) \<Rightarrow>
     ''['' @ nat_dec (Suc i) @ ''] '' @ shortID (re_RequestId r) @ ''  '' @ terminalText (requester_text r) @ nl
     @ ''    '' @ terminalText (re_Command r) @ nl @ ''    Reason: '' @ terminalText (re_Reason r) @ nl)"

text \<open>\<open>strconv.Atoi\<close> on at most 32 bytes: an optional sign and decimal digits within the range of \<open>int\<close>.\<close>

definition digits_value :: "string \<Rightarrow> nat" where
  "digits_value s = foldl (\<lambda>n c. n * 10 + (byte c - 0x30)) 0 s"

definition Atoi :: "string \<Rightarrow> int option" where
  "Atoi s =
     (let negative = (s \<noteq> [] \<and> hd s = CHR ''-''); ds = (if s \<noteq> [] \<and> hd s \<in> {CHR ''-'', CHR ''+''} then tl s else s);
          n = (if negative then - int (digits_value ds) else int (digits_value ds)) in
      if ds = [] \<or> \<not> list_all (\<lambda>c. 0x30 \<le> byte c \<and> byte c \<le> 0x39) ds \<or> \<not> int64_range n then None else Some n)"

definition pickRequest :: "request_record list \<Rightarrow> string \<Rightarrow> string console_op" where
  "pickRequest records action =
     and_then (attempt open_tty) (\<lambda>opened.
       case opened of
         Inl _ \<Rightarrow> fail (Plain ''request ID is required when no interactive terminal is available'')
       | Inr input \<Rightarrow>
         and_then (print_tty (concat (map pick_line (enumerate 0 records))
           @ action @ '' request [1-'' @ nat_dec (length records) @ '', q]: '')) (\<lambda>_.
         case read_line 32 input of (line, readErr) \<Rightarrow>
           if readErr \<noteq> None \<and> line = '''' then fail (the readErr)
           else let choice = TrimSpace line in
             if choice = ''q'' \<or> choice = ''Q'' then fail (Plain ''selection cancelled'')
             else case Atoi choice of
                 None \<Rightarrow> fail (Plain ''invalid request selection'')
               | Some index \<Rightarrow>
                   if index < 1 \<or> index > int (length records) then fail (Plain ''invalid request selection'')
                   else ret (re_RequestId (records ! nat (index - 1)))))"

definition confirmApproval :: "request_record \<Rightarrow> unit console_op" where
  "confirmApproval record =
     and_then (attempt open_tty) (\<lambda>opened.
       case opened of
         Inl _ \<Rightarrow> fail (Plain ''interactive approval requires /dev/tty; use --confirm-hash after inspecting the request'')
       | Inr input \<Rightarrow>
         and_then (print_tty (printRecordTo record True @ ''Approve this exact request [y/N]: '')) (\<lambda>_.
         case read_line 8 input of (line, readErr) \<Rightarrow>
           if readErr \<noteq> None \<and> line = '''' then fail (the readErr)
           else if TrimSpace line \<noteq> ''y'' \<and> TrimSpace line \<noteq> ''Y'' then fail (Plain ''approval cancelled'')
           else ret ()))"

definition prompt :: "string \<Rightarrow> string console_op" where
  "prompt label =
     and_then (attempt open_tty) (\<lambda>opened.
       case opened of
         Inl _ \<Rightarrow> fail (Plain ''a reason is required when no interactive terminal is available'')
       | Inr input \<Rightarrow>
         and_then (print_tty label) (\<lambda>_.
         case read_line 4097 input of (line, readErr) \<Rightarrow>
           if readErr \<noteq> None \<and> line = '''' then fail (the readErr)
           else let text = TrimSpace line in
             if text = '''' then fail (Plain ''reason cannot be empty'')
             else if length text > 4096 then fail (Plain ''reason is too long'')
             else ret text))"

subsection \<open>What a requester can put on the reviewer's screen\<close>

definition clean :: "string \<Rightarrow> bool" where
  "clean s \<longleftrightarrow> list_all (\<lambda>c. \<not> control_rune (byte c)) s"

definition tidy :: "string \<Rightarrow> bool" where
  "tidy s \<longleftrightarrow> list_all (\<lambda>c. control_rune (byte c) \<longrightarrow> c = NEWLINE) s"

definition line_ends :: "string \<Rightarrow> nat" where
  "line_ends s = length (filter (\<lambda>c. c = NEWLINE) s)"

lemma tidy_simps [simp]:
  "tidy []" "tidy (c # s) \<longleftrightarrow> (control_rune (byte c) \<longrightarrow> c = NEWLINE) \<and> tidy s" "tidy (s @ t) \<longleftrightarrow> tidy s \<and> tidy t"
  "tidy nl"
  by (simp_all add: tidy_def nl_def)

lemma tidy_concat: "tidy (concat ss) \<longleftrightarrow> list_all tidy ss"
  by (induction ss) simp_all

lemma line_ends_simps [simp]:
  "line_ends [] = 0" "line_ends (c # s) = (if c = NEWLINE then Suc (line_ends s) else line_ends s)"
  "line_ends (s @ t) = line_ends s + line_ends t" "line_ends nl = 1"
  by (simp_all add: line_ends_def nl_def)

lemma clean_tidy: "clean s \<Longrightarrow> tidy s" "clean s \<Longrightarrow> line_ends s = 0"
  by (auto simp: clean_def tidy_def line_ends_def list_all_iff filter_empty_conv NEWLINE_def control_rune_def byte_def)

lemma clean_printable: "printable s \<Longrightarrow> clean s"
  by (auto simp: clean_def printable_def control_rune_def list_all_iff)

lemma clean_terminalText: "clean (terminalText v)"
proof (cases "list_ex control_rune (runes v)")
  case True
  then show ?thesis by (simp add: terminalText_def clean_printable printable_QuoteToASCII)
next
  case False
  have "\<not> control_rune (byte c)" if "c \<in> set v" for c
    using False runes_low_mem [of c v] that by (auto simp: list_ex_iff control_rune_def)
  with False show ?thesis by (simp add: terminalText_def clean_def list_all_iff)
qed

lemma digit_clean: "d < 10 \<Longrightarrow> \<not> control_rune (byte (digit d))"
  by (simp add: digit_def control_rune_def byte_char_of)

lemma clean_nat_dec: "clean (nat_dec n)"
proof (induction n rule: nat_dec.induct)
  case (1 n)
  then show ?case by (subst nat_dec.simps) (simp add: clean_def digit_clean)
qed

lemma clean_int_dec: "clean (int_dec i)"
  using clean_nat_dec by (simp add: int_dec_def clean_def control_rune_def byte_def)

lemma clean_shortID: "clean (shortID v)"
  by (simp add: shortID_def clean_terminalText)

lemma line_ends_concat: "list_all (\<lambda>s. line_ends s = 1) ss \<Longrightarrow> line_ends (concat ss) = length ss"
  by (induction ss) simp_all

lemmas clean_fields = clean_terminalText clean_shortID clean_nat_dec clean_int_dec
  printable_QuoteToASCII [THEN clean_printable]

lemmas screen_simps [simp] = clean_fields [THEN clean_tidy(1)] clean_fields [THEN clean_tidy(2)]

lemma literal_bytes: "control_rune (byte c) \<longleftrightarrow> c < CHR '' '' \<or> c = CHR 0x7F"
proof -
  have "byte (CHR '' '') = 0x20" "byte (CHR 0x7F) = 0x7F" by (simp_all add: byte_def)
  then show ?thesis
    using byte_inject [of c "CHR 0x7F"] by (auto simp: control_rune_def less_char_def byte_def)
qed

text \<open>Environment and arguments, whatever they hold, take a line each.\<close>

lemma env_screen:
  "tidy (env_text env) \<and> line_ends (env_text env) = (if env = [] then 0 else Suc (length env))"
  by (auto simp: env_text_def tidy_concat list_all_iff literal_bytes NEWLINE_def split: prod.splits
      intro!: line_ends_concat [THEN trans])

lemma argv_screen: "tidy (argv_text argv) \<and> line_ends (argv_text argv) = length argv"
  by (auto simp: argv_text_def tidy_concat list_all_iff literal_bytes NEWLINE_def split: prod.splits
      intro!: line_ends_concat [THEN trans])

lemma verbose_screen:
  assumes "clean (re_PolicyResult r)" "clean (re_RequestHash r)"
  shows "tidy (verbose_text r) \<and>
    line_ends (verbose_text r) = 4 + length (re_Argv r) + (if re_ApprovalId r = '''' then 0 else 1)"
  using argv_screen [of "re_Argv r"] clean_tidy [OF assms(1)] clean_tidy [OF assms(2)]
  by (simp add: verbose_text_def literal_bytes NEWLINE_def)

lemma clean_encode_rune:
  assumes "\<not> control_rune r" "r < 0x10000"
  shows "clean (encode_rune r)"
proof -
  have "0xC0 + r div 64 < 256" if "r < 0x800" using that by linarith
  moreover have "0xE0 + r div 4096 < 256" using assms(2) by linarith
  moreover have "0x80 + n mod 64 < 256" for n :: nat by (simp add: trans_less_add1 less_le_trans [of _ 64])
  ultimately show ?thesis
    using assms by (auto simp: clean_def encode_rune_def control_rune_def byte_char_of)
qed

lemma decision_screen:
  "tidy (decision_text r) \<and> line_ends (decision_text r) = (if re_DecidedBy r = '''' then 0 else 1)"
proof -
  have "clean (encode_rune 0x2014)" by (rule clean_encode_rune) (simp_all add: control_rune_def)
  from clean_tidy [OF this] show ?thesis by (simp add: decision_text_def literal_bytes NEWLINE_def)
qed


definition forged_record :: request_record where
  "forged_record = \<lparr>re_RequestId = ''r1'', re_RequestHash = ''sha256:00'', re_Status = Waiting, re_RequesterUid = 1000,
     re_RequesterGid = 1000, re_RequesterUsername = ''agent'', re_RequesterGroup = ''agent'', re_Executable = ''/bin/ls'',
     re_Argv = [[NEWLINE] @ ''Hash:      sha256:11''], re_Cwd = ''/'', re_Env = [], re_Command = ''/bin/ls'',
     re_Reason = ''ok'' @ [NEWLINE] @ ''Requester: root'', re_CreatedAt = ''t'', re_ExpiresAt = ''u'',
     re_PolicyResult = ''allowed'', re_Shell = False, re_Interpreter = False, re_Script = False, re_Warnings = [],
     re_DecidedBy = '''', re_DecisionReason = '''', re_Decision = '''', re_ApprovalId = ''''\<rparr>"


text \<open>The C1 control characters, among them U+009B, which starts an escape sequence, are not escaped, although
  the security notes say that control characters are.\<close>

lemma terminalText_clean: "clean v \<Longrightarrow> terminalText v = v"
proof -
  assume v: "clean v"
  have "\<not> control_rune r" if "r \<in> set (runes v)" for r
  proof
    assume r: "control_rune r"
    then have "byte (char_of r) = r" "r < 0x80" by (auto simp: control_rune_def byte_char_of)
    with that runes_low_mem [of "char_of r" v] have "char_of r \<in> set v" by simp
    with v r \<open>byte (char_of r) = r\<close> show False by (auto simp: clean_def list_all_iff)
  qed
  then show ?thesis by (simp add: terminalText_def list_ex_iff)
qed

lemma terminalText_keeps_c1: "terminalText (encode_rune 0x9B @ ''2J'') = encode_rune 0x9B @ ''2J''"
proof (rule terminalText_clean)
  have "clean (encode_rune 0x9B)" by (rule clean_encode_rune) (simp_all add: control_rune_def)
  then show "clean (encode_rune 0x9B @ ''2J'')" by (simp add: clean_def literal_bytes)
qed

subsection \<open>Answers\<close>

lemma TrimSpace_one:
  assumes "byte c < 0x80" "\<not> is_space (byte c)"
  shows "TrimSpace [c] = [c]"
proof -
  have "trim_left [c] = [c]" using assms by (subst trim_left.simps) (simp add: decode_rune_ascii)
  moreover have "trim_right [c] = [c]"
    using assms by (subst trim_right.simps) (simp add: decode_last_rune_def)
  ultimately show ?thesis by (simp add: TrimSpace_def)
qed

text \<open>Only an explicit yes confirms, and what was shown before it is the full record.\<close>

lemma confirmApproval_Inr:
  assumes "confirmApproval record c = (Inr (), c')"
  shows "\<exists>input rest. co_answers c = Inr input # rest \<and> TrimSpace (fst (read_line 8 input)) \<in> {''y'', ''Y''}
    \<and> c' = c\<lparr>co_answers := rest, co_terminal := co_terminal c @ printRecordTo record True @ ''Approve this exact request [y/N]: ''\<rparr>"
  using assms
  by (auto simp: confirmApproval_def outcome_simps open_tty_def print_tty_def split: list.splits sum.splits prod.splits if_splits)

text \<open>A choice from the list is one of the records shown.\<close>

lemma pickRequest_Inr:
  assumes "pickRequest records action c = (Inr k, c')"
  shows "k \<in> re_RequestId ` set records \<and> co_stdout c' = co_stdout c \<and> co_stderr c' = co_stderr c"
proof -
  have "re_RequestId (records ! nat (i - 1)) \<in> re_RequestId ` set records"
    if "\<not> i < 1" "\<not> int (length records) < i" for i
    using that by (intro imageI nth_mem) linarith
  with assms show ?thesis
    by (auto simp: pickRequest_def outcome_simps open_tty_def print_tty_def Let_def
        split: list.splits sum.splits prod.splits option.splits if_splits)
qed

lemma prompt_Inr:
  assumes "prompt label c = (Inr text, c')"
  shows "text \<noteq> '''' \<and> length text \<le> 4096 \<and> co_stdout c' = co_stdout c \<and> co_stderr c' = co_stderr c"
  using assms
  by (auto simp: prompt_def outcome_simps open_tty_def print_tty_def Let_def split: list.splits sum.splits prod.splits if_splits)

end
