(* ===== verification/Cli_Options.thy ===== *)
theory Cli_Options
  imports Cli_Terminal
begin

section \<open>The client's arguments: apps/cli/cmd/shudo/main.go\<close>

text \<open>
  The two argument parsers. \<open>parse\<close> separates the client's own options from the command; \<open>parseAdmin\<close>
  recognises the review commands. \<open>time.ParseDuration\<close> is modelled with the one product Go computes in
  floating point (the digits after a decimal point, scaled to nanoseconds) as an argument.
\<close>

subsection \<open>time.ParseDuration\<close>

definition second :: int where
  "second = 1000000000"

definition unit_ns :: "string \<Rightarrow> nat option" where
  "unit_ns u = map_of
     [(''ns'', 1), (''us'', 1000), ([CHR 0xC2, CHR 0xB5, CHR ''s''], 1000), ([CHR 0xCE, CHR 0xBC, CHR ''s''], 1000),
      (''ms'', 1000000), (''s'', 1000000000), (''m'', 60000000000), (''h'', 3600000000000)] u"

text \<open>The digits before the point, \<open>None\<close> when they exceed \<open>2 ^ 63\<close>; the digits after it as number and
  count, those that no longer fit left out.\<close>

fun leadingInt :: "nat \<Rightarrow> string \<Rightarrow> nat option" where
  "leadingInt x [] = Some x"
| "leadingInt x (c # s) =
     (if x > 2 ^ 63 div 10 then None
      else let y = x * 10 + (byte c - 0x30) in if y > 2 ^ 63 then None else leadingInt y s)"

fun leadingFraction :: "nat \<Rightarrow> nat \<Rightarrow> string \<Rightarrow> nat \<times> nat" where
  "leadingFraction x k [] = (x, k)"
| "leadingFraction x k (c # s) =
     (if x > (2 ^ 63 - 1) div 10 then (x, k)
      else let y = x * 10 + (byte c - 0x30) in
        if y > 2 ^ 63 then (x, k) else leadingFraction y (Suc k) s)"

type_synonym scaled = "nat \<Rightarrow> nat \<Rightarrow> nat \<Rightarrow> nat"

text \<open>One number with its unit: its value and the rest.\<close>

definition duration_part :: "scaled \<Rightarrow> string \<Rightarrow> (nat \<times> string) option" where
  "duration_part scale s =
     (let digits = takeWhile is_digit s; s1 = dropWhile is_digit s;
          point = (s1 \<noteq> [] \<and> hd s1 = CHR ''.'');
          after = (if point then takeWhile is_digit (tl s1) else []);
          s2 = (if point then dropWhile is_digit (tl s1) else s1);
          name = takeWhile (\<lambda>c. \<not> (c = CHR ''.'' \<or> is_digit c)) s2
      in case leadingInt 0 digits of None \<Rightarrow> None
       | Some v \<Rightarrow>
         if digits = [] \<and> after = [] then None
         else case unit_ns name of None \<Rightarrow> None
           | Some u \<Rightarrow>
             if v > 2 ^ 63 div u then None
             else case leadingFraction 0 0 after of (f, k) \<Rightarrow>
               let total = v * u + (if f > 0 then scale f k u else 0) in
               if f > 0 \<and> total > 2 ^ 63 then None
               else Some (total, drop (length name) s2))"

lemma unit_ns_Nil: "unit_ns [] = None"
  by (simp add: unit_ns_def)

lemma duration_part_shorter: "duration_part scale s = Some (v, t) \<Longrightarrow> length t < length s"
proof -
  have "length (tl x) \<le> length x" for x :: string by simp
  then have "length (tl (dropWhile is_digit s)) \<le> length s"
    using length_dropWhile_le le_trans by blast
  then have "length (dropWhile is_digit (tl (dropWhile is_digit s))) \<le> length s"
    using length_dropWhile_le le_trans by blast
  moreover have "length (drop (length n) x) < length s" if "unit_ns n = Some u" "n = takeWhile P x" "length x \<le> length s" for n x u P
  proof -
    have "n \<noteq> []" using that(1) unit_ns_Nil by auto
    then have "0 < length n" "length n \<le> length x" using that(2) by (auto simp: length_takeWhile_le)
    moreover have "length (drop (length n) x) = length x - length n" by simp
    ultimately show ?thesis using that(3) by linarith
  qed
  moreover assume "duration_part scale s = Some (v, t)"
  ultimately show ?thesis
    by (fastforce simp: duration_part_def Let_def length_dropWhile_le split: option.splits if_splits prod.splits)
qed

function duration_parts :: "scaled \<Rightarrow> nat \<Rightarrow> string \<Rightarrow> nat option" where
  "duration_parts scale d s =
     (if s = [] then Some d
      else case duration_part scale s of None \<Rightarrow> None
        | Some (v, t) \<Rightarrow> if d + v > 2 ^ 63 then None else duration_parts scale (d + v) t)"
  by pat_completeness auto
termination
  by (relation "measure (\<lambda>(scale, d, s). length s)") (auto dest: duration_part_shorter)

declare duration_parts.simps [simp del]

definition ParseDuration :: "scaled \<Rightarrow> string \<Rightarrow> int option" where
  "ParseDuration scale orig =
     (let signed = (orig \<noteq> [] \<and> hd orig \<in> {CHR ''-'', CHR ''+''}); neg = (orig \<noteq> [] \<and> hd orig = CHR ''-'');
          s = (if signed then tl orig else orig)
      in if s = ''0'' then Some 0 else if s = '''' then None
         else case duration_parts scale 0 s of None \<Rightarrow> None
           | Some d \<Rightarrow> if neg then Some (- int d) else if d > 2 ^ 63 - 1 then None else Some (int d))"

subsection \<open>parse\<close>

record options =
  op_reason :: string
  op_timeout :: int
  op_detach :: bool
  op_json :: bool
  op_verbose :: bool
  op_command :: "string list"

definition no_options :: options where
  "no_options = \<lparr>op_reason = '''', op_timeout = 300 * second, op_detach = False, op_json = False,
     op_verbose = False, op_command = []\<rparr>"

definition usage :: string where
  "usage = ''usage: shudo [--reason TEXT] [--timeout 5m] [--detach] [--json|--verbose] [--] COMMAND [ARG ...]'' @ nl
     @ ''       shudo --pending | --requests | --show [ID-PREFIX] | --approve [ID-PREFIX] | --deny [ID-PREFIX]''"

text \<open>The option loop. The arguments that are left are the command.\<close>

fun parse_options :: "scaled \<Rightarrow> options \<Rightarrow> string list \<Rightarrow> (options \<times> string list) res" where
  "parse_options scale r [] = Inr (r, [])"
| "parse_options scale r (v # args) =
     (if v = ''--'' then Inr (r, args)
      else if \<not> has_prefix v ''-'' \<or> v = ''-'' then Inr (r, v # args)
      else if v = ''--reason'' then
        (case args of [] \<Rightarrow> Inl (Plain ''--reason needs a value'')
         | x # rest \<Rightarrow> parse_options scale (r\<lparr>op_reason := x\<rparr>) rest)
      else if v = ''--timeout'' then
        (case args of [] \<Rightarrow> Inl (Plain ''--timeout needs a duration'')
         | x # rest \<Rightarrow>
           (case ParseDuration scale x of
              None \<Rightarrow> Inl (Plain ''--timeout must be between 1s and 24h'')
            | Some d \<Rightarrow> if d < second \<or> d > 86400 * second
                then Inl (Plain ''--timeout must be between 1s and 24h'')
                else parse_options scale (r\<lparr>op_timeout := d\<rparr>) rest))
      else if v = ''--detach'' then parse_options scale (r\<lparr>op_detach := True\<rparr>) args
      else if v = ''--json'' then parse_options scale (r\<lparr>op_json := True\<rparr>) args
      else if v = ''--verbose'' then parse_options scale (r\<lparr>op_verbose := True\<rparr>) args
      else if v = ''--env'' then
        Inl (Plain ''--env is not supported because request data is retained; use a reviewed command-specific secret mechanism'')
      else if v = ''-h'' \<or> v = ''--help'' then Inl (Plain usage)
      else Inl (Plain (''unknown shudo option '' @ v @ '' (use -- before command options)'')))"

definition parse :: "scaled \<Rightarrow> string list \<Rightarrow> options res" where
  "parse scale arguments =
     res_bind (parse_options scale no_options
       (if arguments \<noteq> [] \<and> hd arguments = ''exec'' then tl arguments else arguments)) (\<lambda>(r, rest).
     if rest = [] then Inl (Plain (''no command specified'' @ nl @ usage)) else Inr (r\<lparr>op_command := rest\<rparr>))"

subsection \<open>parseAdmin\<close>

record admin_options =
  ad_operation :: string
  ad_requestID :: string
  ad_reason :: string
  ad_json :: bool
  ad_verbose :: bool
  ad_confirmHash :: string

definition no_admin :: admin_options where
  "no_admin = \<lparr>ad_operation = '''', ad_requestID = '''', ad_reason = '''', ad_json = False, ad_verbose = False,
     ad_confirmHash = ''''\<rparr>"

definition operations :: "string \<Rightarrow> string option" where
  "operations v = map_of [(''--pending'', ''pending''), (''--requests'', ''history''), (''--history'', ''history''),
     (''--show'', ''show''), (''--approve'', ''approve''), (''--deny'', ''deny'')] v"

fun admin_loop :: "admin_options \<Rightarrow> string list \<Rightarrow> admin_options res" where
  "admin_loop r [] = Inr r"
| "admin_loop r (v # args) =
     (if v = ''--json'' then admin_loop (r\<lparr>ad_json := True\<rparr>) args
      else if v = ''--verbose'' then admin_loop (r\<lparr>ad_verbose := True\<rparr>) args
      else if v = ''--reason'' then
        (case args of [] \<Rightarrow> Inl (Plain ''--reason needs a value'')
         | x # rest \<Rightarrow> admin_loop (r\<lparr>ad_reason := x\<rparr>) rest)
      else if v = ''--confirm-hash'' then
        (case args of [] \<Rightarrow> Inl (Plain ''--confirm-hash needs a value'')
         | x # rest \<Rightarrow> admin_loop (r\<lparr>ad_confirmHash := x\<rparr>) rest)
      else Inl (Plain (''unexpected review option '' @ v)))"

text \<open>\<open>None\<close> when the arguments are not a review command.\<close>

definition parseAdmin :: "string list \<Rightarrow> admin_options res option" where
  "parseAdmin arguments =
     (case arguments of [] \<Rightarrow> None
      | first # args \<Rightarrow>
        (case operations first of None \<Rightarrow> None
         | Some operation \<Rightarrow>
           let named = (operation \<in> {''show'', ''approve'', ''deny''} \<and> args \<noteq> [] \<and> \<not> has_prefix (hd args) ''-'');
               r = no_admin\<lparr>ad_operation := operation, ad_requestID := (if named then hd args else '''')\<rparr>
           in Some (res_bind (admin_loop r (if named then tl args else args)) (\<lambda>result.
             if ad_reason result \<noteq> '''' \<and> operation \<noteq> ''approve'' \<and> operation \<noteq> ''deny''
             then Inl (Plain ''--reason is valid only with --approve or --deny'')
             else if ad_confirmHash result \<noteq> '''' \<and> operation \<noteq> ''approve''
             then Inl (Plain ''--confirm-hash is valid only with --approve'')
             else Inr result))))"

definition localSocketPath :: "string \<Rightarrow> string" where
  "localSocketPath value = (if IsAbs value \<and> \<not> contains_byte value NUL then value else ''/run/shudo/shudo.sock'')"

definition requireRootReview :: "int \<Rightarrow> unit res" where
  "requireRootReview euid =
     (if euid \<noteq> 0 then Inl (Plain ''review commands require this process to already be running as root'') else Inr ())"

subsection \<open>Durations in seconds\<close>

lemma decimal_digits: "list_all is_digit (nat_dec n)"
  using nat_dec_digits [of n] by (auto simp: list_all_iff)

lemma leadingInt_append:
  "leadingInt x s = Some y \<Longrightarrow> y \<le> 2 ^ 63 div 10 \<Longrightarrow> y * 10 + d \<le> 2 ^ 63 \<Longrightarrow> d < 10 \<Longrightarrow>
    leadingInt x (s @ [digit d]) = Some (y * 10 + d)"
  by (induction x s rule: leadingInt.induct) (auto simp: Let_def digit_def byte_char_of split: if_splits)

lemma leadingInt_nat_dec: "n \<le> 2 ^ 63 \<Longrightarrow> leadingInt 0 (nat_dec n) = Some n"
proof (induction n rule: nat_dec.induct)
  case (1 n)
  show ?case
  proof (cases "n < 10")
    case True
    then show ?thesis by (subst nat_dec.simps) (simp add: digit_def byte_char_of)
  next
    case False
    then have "leadingInt 0 (nat_dec (n div 10)) = Some (n div 10)" using 1 by simp
    moreover have "n div 10 \<le> 2 ^ 63 div 10" using 1(2) by (rule div_le_mono)
    moreover have "n div 10 * 10 + n mod 10 = n" by simp
    ultimately show ?thesis
      using False 1(2) leadingInt_append [of 0 "nat_dec (n div 10)" "n div 10" "n mod 10"]
      by (subst nat_dec.simps) simp
  qed
qed

lemma ParseDuration_seconds:
  assumes "n \<le> 86400"
  shows "ParseDuration scale (nat_dec n @ ''s'') = Some (int n * second)"
proof -
  have s: "\<not> is_digit (CHR ''s'')" by (simp add: is_digit_def byte_def)
  have digits: "takeWhile is_digit (nat_dec n @ ''s'') = nat_dec n" "dropWhile is_digit (nat_dec n @ ''s'') = ''s''"
    using decimal_digits [of n] s by (auto simp: list_all_iff takeWhile_append2 dropWhile_append2)
  have unit: "unit_ns ''s'' = Some 1000000000" by (simp add: unit_ns_def)
  have "duration_part scale (nat_dec n @ ''s'') = Some (n * 1000000000, [])"
    using assms leadingInt_nat_dec [of n] s
    by (simp add: duration_part_def digits unit nat_dec_not_Nil Let_def)
  then have "duration_parts scale 0 (nat_dec n @ ''s'') = Some (n * 1000000000)"
    using assms by (subst duration_parts.simps) (simp add: duration_parts.simps [of _ _ "[]"])
  moreover have "hd (nat_dec n @ ''s'') \<notin> {CHR ''-'', CHR ''+''}"
    using decimal_digits [of n] nat_dec_not_Nil [of n] by (cases "nat_dec n") (auto simp: is_digit_def byte_def)
  ultimately show ?thesis
    using assms nat_dec_not_Nil [of n] by (auto simp: ParseDuration_def Let_def second_def)
qed

subsection \<open>The command is what follows the options\<close>

text \<open>The arguments that make the client use the given options.\<close>

definition option_args :: "options \<Rightarrow> string list" where
  "option_args r =
     [''--reason'', op_reason r, ''--timeout'', nat_dec (nat (op_timeout r div second)) @ ''s'']
     @ (if op_detach r then [''--detach''] else []) @ (if op_json r then [''--json''] else [])
     @ (if op_verbose r then [''--verbose''] else [])"

lemma parse_options_reason:
  "parse_options scale r (''--reason'' # x # rest) = parse_options scale (r\<lparr>op_reason := x\<rparr>) rest"
  by (simp add: has_prefix_def)

lemma parse_options_timeout:
  "ParseDuration scale x = Some d \<Longrightarrow> second \<le> d \<Longrightarrow> d \<le> 86400 * second \<Longrightarrow>
    parse_options scale r (''--timeout'' # x # rest) = parse_options scale (r\<lparr>op_timeout := d\<rparr>) rest"
  by (simp add: has_prefix_def)

lemma parse_options_switches:
  "parse_options scale r ((if d then [''--detach''] else []) @ (if j then [''--json''] else [])
     @ (if v then [''--verbose''] else []) @ ''--'' # cmd) =
   Inr (r\<lparr>op_detach := d \<or> op_detach r, op_json := j \<or> op_json r, op_verbose := v \<or> op_verbose r\<rparr>, cmd)"
  by (simp add: has_prefix_def)

text \<open>(C26) After \<open>--\<close> every command reaches the daemon as it was typed, and the options before it are read as they
  were meant: whatever the reason and the command are, also when they look like options, parsing the
  options written out before the command gives them back.\<close>

theorem parse_roundtrip:
  assumes "op_timeout r = int n * second" and "1 \<le> n" and "n \<le> 86400" and "op_command r \<noteq> []"
  shows "parse scale (option_args r @ ''--'' # op_command r) = Inr r"
proof -
  have n: "nat (op_timeout r div second) = n" using assms(1) by (simp add: second_def)
  have limits: "second \<le> int n * second" "int n * second \<le> 86400 * second"
    using assms(2,3) by (simp_all add: second_def)
  have "option_args r @ ''--'' # op_command r = ''--reason'' # op_reason r # ''--timeout'' # (nat_dec n @ ''s'')
      # (if op_detach r then [''--detach''] else []) @ (if op_json r then [''--json''] else [])
        @ (if op_verbose r then [''--verbose''] else []) @ ''--'' # op_command r"
    by (simp add: option_args_def n del: if_split)
  then show ?thesis
    using assms(1,4)
    by (simp add: parse_def parse_options_reason parse_options_timeout [OF ParseDuration_seconds [OF assms(3)] limits]
        parse_options_switches no_options_def del: parse_options.simps if_split)
qed

theorem parse_roundtrip_witness:
  "parse (\<lambda>_ _ _. 0) ([''--reason'', ''--json'', ''--timeout'', ''90s''] @ [''--detach''] @ [''--'', ''--env'', ''x'']) =
   Inr \<lparr>op_reason = ''--json'', op_timeout = 90 * second, op_detach = True, op_json = False, op_verbose = False,
     op_command = [''--env'', ''x'']\<rparr>"
proof -
  have "nat_dec 90 = ''90''" by code_simp
  then show ?thesis
    using parse_roundtrip [of "\<lparr>op_reason = ''--json'', op_timeout = 90 * second, op_detach = True, op_json = False,
        op_verbose = False, op_command = [''--env'', ''x'']\<rparr>" 90 "\<lambda>_ _ _. 0"]
    by (simp add: option_args_def second_def)
qed

text \<open>Without \<open>--\<close> the command starts at the first argument that is no option, and everything from there on
  belongs to it; the time limit is always between a second and a day.\<close>

lemma parse_options_tail:
  assumes "parse_options scale r args = Inr (r', rest)" "second \<le> op_timeout r" "op_timeout r \<le> 86400 * second"
  shows "(\<exists>before. args = before @ rest) \<and> second \<le> op_timeout r' \<and> op_timeout r' \<le> 86400 * second"
  using assms
proof (induction "length args" arbitrary: args r rule: less_induct)
  case less
  note IH = less.hyps
  show ?case
  proof (cases args)
    case Nil
    with less.prems show ?thesis by simp
  next
    case (Cons v t)
    define tail where "tail \<longleftrightarrow> (\<exists>before. args = before @ rest) \<and> second \<le> op_timeout r' \<and> op_timeout r' \<le> 86400 * second"
    have again: tail
      if "parse_options scale q u = Inr (r', rest)" "args = w @ u" "w \<noteq> []" "second \<le> op_timeout q" "op_timeout q \<le> 86400 * second"
      for q u w
    proof -
      have "length u < length args" using that(2,3) by simp
      from IH [OF this that(1,4,5)] obtain before where
        b: "u = before @ rest" "second \<le> op_timeout r'" "op_timeout r' \<le> 86400 * second" by blast
      with that(2) have "args = (w @ before) @ rest" by simp
      with b show ?thesis unfolding tail_def by blast
    qed
    have one: tail if "parse_options scale q t = Inr (r', rest)" "op_timeout q = op_timeout r" for q
      using again [of q t "[v]"] that less.prems(2,3) Cons by simp
    have two: tail if "parse_options scale q u = Inr (r', rest)" "t = x # u" "second \<le> op_timeout q" "op_timeout q \<le> 86400 * second"
      for q u x
      using again [of q u "[v, x]"] that Cons by simp
    have stop: tail if "r = r' \<and> t = rest \<or> r = r' \<and> v # t = rest"
      using that less.prems(2,3) Cons unfolding tail_def by (metis append_Cons append_Nil)
    have tail
      using less.prems(1) [unfolded Cons parse_options.simps]
      by (simp only: split: if_split_asm list.split_asm option.split_asm)
        (use less.prems(2,3) in \<open>auto intro: one two stop simp: not_less\<close>)
    then show ?thesis unfolding tail_def .
  qed
qed

end
