(* ===== verification/Cli_Review.thy ===== *)
theory Cli_Review
  imports Cli_Options
begin

section \<open>Reviewing requests: runAdmin of apps/cli/cmd/shudo/main.go\<close>

text \<open>
  The review commands, over any implementation of the broker's calls: a state of the other side and one operation
  per call, as the generated client interface has them. They are instantiated with the daemon's handlers
  behind a connection that can fail in \<open>Cli_Daemon\<close>.
\<close>

record 's broker =
  br_dial :: "unit res"
  br_list :: "bool \<Rightarrow> ('s, request_record list) op"
  br_inspect :: "string \<Rightarrow> ('s, request_record) op"
  br_decide :: "string \<Rightarrow> decision_request \<Rightarrow> ('s, decision_response) op"

type_synonym ('s, 'a) cli_op = "('s \<times> console, 'a) op"

text \<open>The exit code and the error to report.\<close>

type_synonym exit = "int \<times> err option"

definition on_broker :: "('s, 'a) op \<Rightarrow> ('s, 'a) cli_op" where
  "on_broker m = (\<lambda>(s, c). case m s of (r, s') \<Rightarrow> (r, (s', c)))"

definition on_console :: "'a console_op \<Rightarrow> ('s, 'a) cli_op" where
  "on_console m = (\<lambda>(s, c). case m c of (r, c') \<Rightarrow> (r, (s, c')))"

text \<open>\<open>x, err := m(); if err != nil { return code, err }\<close>\<close>

definition or_exit :: "int \<Rightarrow> ('t, 'a) op \<Rightarrow> ('a \<Rightarrow> ('t, exit) op) \<Rightarrow> ('t, exit) op" where
  "or_exit code m f = and_then (attempt m) (\<lambda>r. case r of Inl e \<Rightarrow> ret (code, Some e) | Inr x \<Rightarrow> f x)"

subsection \<open>Errors and JSON\<close>

definition status_code :: "err \<Rightarrow> code" where
  "status_code e = (case e of Status c _ \<Rightarrow> c | _ \<Rightarrow> UnknownCode)"

definition ambiguousDecisionError :: "err \<Rightarrow> bool" where
  "ambiguousDecisionError e \<longleftrightarrow> status_code e \<in> {Canceled, DeadlineExceeded, UnknownCode, Internal, Unavailable}"

definition friendly :: "err \<Rightarrow> string" where
  "friendly e = (case e of Status _ m \<Rightarrow> TrimSpace m | _ \<Rightarrow> TrimSpace (err_text e))"

text \<open>An empty list or map of a message is nil, which is written as \<open>null\<close>; the members of a map are written in
  the order of their names.\<close>

definition json_list :: "string list \<Rightarrow> json" where
  "json_list vs = (if vs = [] then JNull else JArr (map JStr vs))"

definition json_map :: "(string \<times> string) list \<Rightarrow> json" where
  "json_map m = (if m = [] then JNull else JObj (map (\<lambda>(k, v). (k, JStr v)) (sort_key fst m)))"

definition recordJSON :: "request_record \<Rightarrow> json" where
  "recordJSON r = JObj
     [(''approvalId'', JStr (re_ApprovalId r)), (''argv'', json_list (re_Argv r)), (''command'', JStr (re_Command r)),
      (''createdAt'', JStr (re_CreatedAt r)), (''cwd'', JStr (re_Cwd r)), (''decidedBy'', JStr (re_DecidedBy r)),
      (''decision'', JStr (re_Decision r)), (''decisionReason'', JStr (re_DecisionReason r)), (''env'', json_map (re_Env r)),
      (''executable'', JStr (re_Executable r)), (''expiresAt'', JStr (re_ExpiresAt r)),
      (''policyResult'', JStr (re_PolicyResult r)), (''reason'', JStr (re_Reason r)),
      (''requestHash'', JStr (re_RequestHash r)), (''requestId'', JStr (re_RequestId r)),
      (''requester'', JObj [(''gid'', JNum (uint (re_RequesterGid r))), (''group'', JStr (re_RequesterGroup r)),
         (''uid'', JNum (uint (re_RequesterUid r))), (''username'', JStr (re_RequesterUsername r))]),
      (''risk'', JObj [(''interpreter'', JBool (re_Interpreter r)), (''script'', JBool (re_Script r)),
         (''shell'', JBool (re_Shell r)), (''warnings'', json_list (re_Warnings r))]),
      (''status'', JStr (status_text (re_Status r)))]"

definition recordsJSON :: "request_record list \<Rightarrow> json" where
  "recordsJSON rs = JArr (map recordJSON rs)"

definition emitJSON :: "json \<Rightarrow> unit console_op" where
  "emitJSON value = print_out (json_text value @ nl)"

subsection \<open>Choosing a request\<close>

text \<open>Request identifiers are hexadecimal text, on which \<open>strings.ToLower\<close> changes the letters A to F only; a selector that
  matches one is such text too, which \<open>%q\<close> and \<open>QuoteToASCII\<close> write alike.\<close>

definition id_matches :: "string \<Rightarrow> request_record \<Rightarrow> bool" where
  "id_matches selector r \<longleftrightarrow> has_prefix (map to_lower_byte (re_RequestId r)) (map to_lower_byte selector)"

fun find_match :: "string \<Rightarrow> request_record option \<Rightarrow> request_record list \<Rightarrow> request_record option res" where
  "find_match selector found [] = Inr found"
| "find_match selector found (r # rs) =
     (if id_matches selector r
      then if found \<noteq> None then Inl (Plain (''request ID prefix '' @ QuoteToASCII selector @ '' is ambiguous''))
           else find_match selector (Some r) rs
      else find_match selector found rs)"

definition selectRequest :: "'s broker \<Rightarrow> string \<Rightarrow> bool \<Rightarrow> string \<Rightarrow> ('s, string) cli_op" where
  "selectRequest b selector history action =
     and_then (on_broker (br_list b history)) (\<lambda>records.
     if records = [] then fail (Plain (if history then ''no recent requests'' else ''no pending requests''))
     else if selector = '''' then on_console (pickRequest records action)
     else if length selector < 4 then fail (Plain ''request ID prefix must contain at least 4 characters'')
     else and_then (lift_res (find_match selector None records)) (\<lambda>found.
       case found of
         None \<Rightarrow> fail (Plain (''no matching '' @ (if history then ''recent'' else ''pending'') @ '' request''))
       | Some r \<Rightarrow> ret (re_RequestId r)))"

subsection \<open>An answer that was lost\<close>

definition decisionResponseFromRecord :: "request_record \<Rightarrow> decision_request \<Rightarrow> string \<Rightarrow> decision_response res" where
  "decisionResponseFromRecord r q decision =
     (if re_RequestId r \<noteq> di_RequestId q then Inl (Plain ''authoritative inspection returned the wrong request'')
      else if re_Decision r = '''' then
        (if re_Status r = Waiting
         then Inl (Plain ''the decision was not committed; request remains pending and may be retried'')
         else Inl (Plain (''request is '' @ status_text (re_Status r) @ '' without a stored decision'')))
      else if re_Decision r \<noteq> decision then Inl (Plain (''request has a conflicting '' @ re_Decision r @ '' decision''))
      else if re_ApprovalId r = '''' then Inl (Plain ''stored decision is missing its approval ID'')
      else if decision = ''approve'' \<and> (re_RequestHash r \<noteq> di_RequestHash q \<or> di_RequestHash q = '''')
      then Inl (Plain ''stored approval does not match the confirmed request hash'')
      else Inr \<lparr>de_RequestId = re_RequestId r, de_ApprovalId = re_ApprovalId r,
        de_Status = (if decision = ''approve'' then Approved else Denied), de_DecidedBy = re_DecidedBy r\<rparr>)"

definition reconcileDecision :: "'s broker \<Rightarrow> decision_request \<Rightarrow> string \<Rightarrow> err \<Rightarrow> ('s, decision_response) op" where
  "reconcileDecision b q decision decisionErr =
     and_then (attempt (br_inspect b (di_RequestId q))) (\<lambda>inspected.
       case inspected of
         Inl e \<Rightarrow> fail (Plain (''decision outcome is uncertain after '' @ err_text decisionErr
             @ ''; authoritative inspection failed: '' @ err_text e))
       | Inr r \<Rightarrow>
         (case decisionResponseFromRecord r q decision of
            Inl e \<Rightarrow> fail (Plain (''decision RPC returned '' @ err_text decisionErr @ ''; '' @ err_text e))
          | Inr response \<Rightarrow> ret response))"

subsection \<open>runAdmin\<close>

text \<open>The hash to confirm: that of the record that was inspected, confirmed on the command line or at the terminal.\<close>

definition confirm_record :: "admin_options \<Rightarrow> request_record \<Rightarrow> ('s, exit) cli_op \<Rightarrow> ('s, exit) cli_op" where
  "confirm_record o1 record continue =
     (if ad_confirmHash o1 \<noteq> '''' then
        (if ad_confirmHash o1 \<noteq> re_RequestHash record
         then ret (1, Some (Plain ''--confirm-hash does not match the current request''))
         else continue)
      else if ad_json o1
      then ret (2, Some (Plain ''non-interactive approval requires --confirm-hash with the full inspected hash''))
      else or_exit 1 (on_console (confirmApproval record)) (\<lambda>_. continue))"

definition confirmed_hash :: "'s broker \<Rightarrow> admin_options \<Rightarrow> string \<Rightarrow> (string \<Rightarrow> ('s, exit) cli_op) \<Rightarrow> ('s, exit) cli_op" where
  "confirmed_hash b o1 requestID continue =
     (if ad_operation o1 \<noteq> ''approve'' then continue ''''
      else or_exit 1 (on_broker (br_inspect b requestID)) (\<lambda>record.
        confirm_record o1 record (continue (re_RequestHash record))))"

definition send_decision :: "'s broker \<Rightarrow> admin_options \<Rightarrow> decision_request \<Rightarrow> ('s, decision_response) cli_op" where
  "send_decision b o1 q =
     and_then (attempt (on_broker (br_decide b (ad_operation o1) q))) (\<lambda>answer.
       case answer of
         Inr response \<Rightarrow> ret response
       | Inl e \<Rightarrow>
         if ambiguousDecisionError e
         then and_then (on_broker (reconcileDecision b q (ad_operation o1) e)) (\<lambda>response.
              and_then (if ad_json o1 then ret ()
                else on_console (print_err (''Decision confirmed from authoritative server state after an ambiguous RPC result.'' @ nl)))
              (\<lambda>_. ret response))
         else fail e)"

definition conclude :: "'s broker \<Rightarrow> admin_options \<Rightarrow> string \<Rightarrow> string \<Rightarrow> ('s, exit) cli_op" where
  "conclude b o1 requestID requestHash =
     or_exit 1 (send_decision b o1 \<lparr>di_RequestId = requestID, di_Reason = ad_reason o1, di_RequestHash = requestHash\<rparr>) (\<lambda>response.
     and_then (on_console (if ad_json o1
        then emitJSON (JObj [(''approvalId'', JStr (de_ApprovalId response)), (''decidedBy'', JStr (de_DecidedBy response)),
               (''requestId'', JStr (de_RequestId response)), (''status'', JStr (status_text (de_Status response)))])
        else print_out ((if ad_operation o1 = ''deny'' then ''Denied'' else ''Approved'') @ '' '' @ de_RequestId response @ ''.'' @ nl)))
     (\<lambda>_. ret (0, None)))"

definition decide_command :: "'s broker \<Rightarrow> admin_options \<Rightarrow> ('s, exit) cli_op" where
  "decide_command b o1 =
     or_exit 1 (selectRequest b (ad_requestID o1) False (if ad_operation o1 = ''deny'' then ''Deny'' else ''Approve'')) (\<lambda>requestID.
     confirmed_hash b o1 requestID (conclude b o1 requestID))"

definition list_command :: "'s broker \<Rightarrow> admin_options \<Rightarrow> ('s, exit) cli_op" where
  "list_command b o1 =
     or_exit 1 (on_broker (br_list b (ad_operation o1 = ''history''))) (\<lambda>records.
     and_then (on_console
       (if ad_json o1 then emitJSON (recordsJSON records)
        else if records = [] then print_out (''No requests.'' @ nl)
        else print_out (concat (map printSummary records)))) (\<lambda>_. ret (0, None)))"

definition show_command :: "'s broker \<Rightarrow> admin_options \<Rightarrow> ('s, exit) cli_op" where
  "show_command b o1 =
     or_exit 1 (if length (ad_requestID o1) \<noteq> 36 then selectRequest b (ad_requestID o1) True ''View''
                else ret (ad_requestID o1)) (\<lambda>requestID.
     or_exit 1 (on_broker (br_inspect b requestID)) (\<lambda>record.
     and_then (on_console (if ad_json o1 then emitJSON (recordJSON record)
        else print_out (printRecordTo record (ad_verbose o1)))) (\<lambda>_. ret (0, None))))"

definition runAdmin :: "'s broker \<Rightarrow> int \<Rightarrow> admin_options \<Rightarrow> ('s, exit) cli_op" where
  "runAdmin b euid o1 =
     or_exit 1 (lift_res (requireRootReview euid)) (\<lambda>_.
     or_exit 1 (lift_res (br_dial b)) (\<lambda>_.
     if ad_operation o1 = ''pending'' \<or> ad_operation o1 = ''history'' then list_command b o1
     else if ad_operation o1 = ''show'' then show_command b o1
     else if ad_operation o1 = ''approve'' \<or> ad_operation o1 = ''deny'' then decide_command b o1
     else ret (0, None)))"

subsection \<open>What the review commands rely on\<close>

lemma or_exit_cases:
  assumes "or_exit code m f s = (Inr (0, None), t)"
  obtains x u where "m s = (Inr x, u)" "f x u = (Inr (0, None), t)"
  using assms by (auto simp: or_exit_def and_then_def attempt_def ret_def split: prod.splits sum.splits)

lemma on_console_Inr: "on_console m (s, c) = (r, (s', c')) \<longleftrightarrow> s' = s \<and> m c = (r, c')"
  by (auto simp: on_console_def split: prod.splits)

lemma on_broker_Inr: "on_broker m (s, c) = (r, (s', c')) \<longleftrightarrow> m s = (r, s') \<and> c' = c"
  by (auto simp: on_broker_def split: prod.splits)

text \<open>Somebody confirmed a record: its hash was given on the command line, or it was shown at the terminal and
  answered with yes.\<close>

definition confirmed :: "admin_options \<Rightarrow> request_record \<Rightarrow> console \<Rightarrow> console \<Rightarrow> bool" where
  "confirmed o1 record c c' \<longleftrightarrow>
     ad_confirmHash o1 = re_RequestHash record \<and> ad_confirmHash o1 \<noteq> ''''
     \<or> (ad_confirmHash o1 = '''' \<and> \<not> ad_json o1
       \<and> (\<exists>before input. co_terminal c' = before @ printRecordTo record True @ ''Approve this exact request [y/N]: ''
            \<and> Inr input \<in> set (co_answers c) \<and> TrimSpace (fst (read_line 8 input)) \<in> {''y'', ''Y''}))"

text \<open>
  The contract of the broker: every call keeps its state good, an answered decision is stored, and an inspected
  record that shows a decision is right about it.
\<close>

lemma decisionResponseFromRecord_Inr:
  assumes "decisionResponseFromRecord r q decision = Inr response"
  shows "re_RequestId r = di_RequestId q \<and> de_RequestId response = di_RequestId q \<and> re_Decision r = decision
    \<and> re_Decision r \<noteq> '''' \<and> de_ApprovalId response = re_ApprovalId r \<and> re_ApprovalId r \<noteq> ''''
    \<and> (decision = ''approve'' \<longrightarrow> re_RequestHash r = di_RequestHash q)"
  using assms by (auto simp: decisionResponseFromRecord_def split: if_split_asm)

lemma reconcileDecision_Inr:
  assumes "reconcileDecision b q decision e s = (Inr response, s')"
  obtains r where "br_inspect b (di_RequestId q) s = (Inr r, s')" "decisionResponseFromRecord r q decision = Inr response"
proof -
  obtain x s1 where call: "br_inspect b (di_RequestId q) s = (x, s1)" by fastforce
  note body = assms [unfolded reconcileDecision_def and_then_attempt [where m = "br_inspect b (di_RequestId q)", OF call]]
  obtain r where r: "x = Inr r" using body by (cases x) (simp_all add: fail_def)
  with body have "decisionResponseFromRecord r q decision = Inr response \<and> s1 = s'"
    by (cases "decisionResponseFromRecord r q decision") (simp_all add: fail_def ret_def)
  with call r that show thesis by blast
qed

locale review_contract =
  fixes b :: "'s broker" and good :: "'s \<Rightarrow> bool" and stored :: "'s \<Rightarrow> string \<Rightarrow> string \<Rightarrow> bool"
  assumes list_good: "good s \<Longrightarrow> good (snd (br_list b history s))"
    and inspect_good: "good s \<Longrightarrow> good (snd (br_inspect b k s))"
    and decide_good: "good s \<Longrightarrow> good (snd (br_decide b d q s))"
    and decide_stored: "good s \<Longrightarrow> br_decide b d q s = (Inr response, s') \<Longrightarrow> stored s' (de_RequestId response) d"
    and inspect_stored: "good s \<Longrightarrow> br_inspect b k s = (Inr r, s') \<Longrightarrow> re_Decision r \<noteq> '''' \<Longrightarrow>
      stored s' (re_RequestId r) (re_Decision r)"
begin

lemma good_step: "br_list b history s = (x, s') \<Longrightarrow> good s \<Longrightarrow> good s'"
    "br_inspect b k s = (y, s') \<Longrightarrow> good s \<Longrightarrow> good s'" "br_decide b d q s = (z, s') \<Longrightarrow> good s \<Longrightarrow> good s'"
  using list_good [of s history] inspect_good [of s k] decide_good [of s d q] by simp_all

lemma selectRequest_good:
  assumes "selectRequest b selector history action (s, c) = (r, (s', c'))" "good s"
  shows "good s'"
  using assms
  by (auto simp: selectRequest_def and_then_def on_broker_def on_console_def fail_def ret_def lift_res_def
      split: prod.splits sum.splits option.splits if_splits dest: good_step(1))

lemma reconcile_stored:
  assumes "reconcileDecision b q d e s = (Inr response, s')" "good s"
  shows "stored s' (de_RequestId response) d \<and> good s'"
proof (rule reconcileDecision_Inr [OF assms(1)])
  fix r assume i: "br_inspect b (di_RequestId q) s = (Inr r, s')" and d: "decisionResponseFromRecord r q d = Inr response"
  from decisionResponseFromRecord_Inr [OF d] inspect_stored [OF assms(2) i] good_step(2) [OF i assms(2)]
  show "stored s' (de_RequestId response) d \<and> good s'" by auto
qed

lemma selectRequest_console:
  assumes "selectRequest b selector history action (s, c) = (Inr k, (s', c'))"
  shows "co_stdout c' = co_stdout c \<and> set (co_answers c') \<subseteq> set (co_answers c)"
proof -
  have answers: "set (co_answers d) \<subseteq> set (co_answers c)" if "pickRequest rs action c = (Inr k, d)" for rs d
    using that by (auto simp: pickRequest_def outcome_simps open_tty_def print_tty_def Let_def
        split: list.splits sum.splits prod.splits option.splits if_splits)
  have "co_stdout d = co_stdout c \<and> set (co_answers d) \<subseteq> set (co_answers c)" if "pickRequest rs action c = (Inr k, d)" for rs d
    using pickRequest_Inr [OF that] answers [OF that] by simp
  then show ?thesis
    using assms
    by (simp add: selectRequest_def and_then_Inr on_broker_Inr fail_def ret_def lift_res_def
        split: option.splits if_splits) (auto simp: on_console_Inr)
qed

lemma send_decision_stored:
  assumes "send_decision b o1 q (s, c) = (Inr response, (s', c'))" "good s"
  shows "stored s' (de_RequestId response) (ad_operation o1) \<and> good s'
    \<and> co_stdout c' = co_stdout c \<and> co_terminal c' = co_terminal c"
proof -
  obtain answer s1 where call: "br_decide b (ad_operation o1) q s = (answer, s1)" by fastforce
  then have "good s1" using assms(2) good_step(3) by blast
  show ?thesis
  proof (cases answer)
    case (Inr x)
    then show ?thesis
      using assms call decide_stored [of s "ad_operation o1" q x s1] \<open>good s1\<close>
      by (simp add: send_decision_def on_broker_def and_then_def attempt_def ret_def)
  next
    case (Inl e)
    with assms call show ?thesis
      using reconcile_stored [of q "ad_operation o1" e s1] \<open>good s1\<close>
      by (auto simp: send_decision_def on_broker_def on_console_def and_then_def attempt_def ret_def fail_def print_err_def state_upd_def
          split: if_splits sum.splits prod.splits)
  qed
qed

lemma conclude_stored:
  assumes "conclude b o1 k hash (s, c) = (Inr (0, None), (s', c'))" "good s"
  shows "\<exists>id. good s' \<and> stored s' id (ad_operation o1) \<and> co_terminal c' = co_terminal c
      \<and> (\<not> ad_json o1 \<longrightarrow> co_stdout c' = co_stdout c @ (if ad_operation o1 = ''deny'' then ''Denied'' else ''Approved'')
         @ '' '' @ id @ ''.'' @ nl)"
proof (rule or_exit_cases [OF assms(1) [unfolded conclude_def]], goal_cases)
  case (1 response v)
  obtain t d where v: "v = (t, d)" by fastforce
  from send_decision_stored [OF 1(1) [unfolded v] assms(2)] 1(2) [unfolded v] show ?case
    by (intro exI [of _ "de_RequestId response"])
      (auto simp: and_then_Inr on_console_Inr outcome_ret emitJSON_def print_out_def outcome_state_upd split: if_splits)
qed

lemma confirm_record_Inr:
  assumes "confirm_record o1 q continue (s, c) = (Inr (0, None), (s', c'))"
  obtains d where "continue (s, d) = (Inr (0, None), (s', c'))" "co_stdout d = co_stdout c"
    "co_terminal c' = co_terminal d \<Longrightarrow> confirmed o1 q c c'"
proof (cases "ad_confirmHash o1 = ''''")
  case False
  with assms have "ad_confirmHash o1 = re_RequestHash q" "continue (s, c) = (Inr (0, None), (s', c'))"
    by (simp_all add: confirm_record_def ret_def split: if_splits)
  with that [of c] False show ?thesis by (simp add: confirmed_def)
next
  case True
  with assms have json: "\<not> ad_json o1"
    and run: "or_exit 1 (on_console (confirmApproval q)) (\<lambda>_. continue) (s, c) = (Inr (0, None), (s', c'))"
    by (simp_all add: confirm_record_def ret_def split: if_splits)
  from run show ?thesis
  proof (rule or_exit_cases, goal_cases)
    case (1 y w)
    then obtain d where w: "w = (s, d)" and ask: "confirmApproval q c = (Inr (), d)"
      by (cases w) (simp add: on_console_Inr)
    from confirmApproval_Inr [OF ask] have "co_terminal c' = co_terminal d \<Longrightarrow> confirmed o1 q c c'" "co_stdout d = co_stdout c"
      using True json by (force simp: confirmed_def)+
    with that [of d] 1(2) w show ?case by simp
  qed
qed

lemma confirmed_hash_approve:
  assumes "confirmed_hash b o1 k continue (s, c) = (Inr (0, None), (s', c'))" "ad_operation o1 = ''approve''"
  obtains q s1 d where "br_inspect b k s = (Inr q, s1)"
    "continue (re_RequestHash q) (s1, d) = (Inr (0, None), (s', c'))" "co_stdout d = co_stdout c"
    "co_terminal c' = co_terminal d \<Longrightarrow> confirmed o1 q c c'"
proof -
  from assms have "or_exit 1 (on_broker (br_inspect b k)) (\<lambda>q. confirm_record o1 q (continue (re_RequestHash q))) (s, c)
      = (Inr (0, None), (s', c'))"
    by (simp add: confirmed_hash_def)
  then show thesis
  proof (rule or_exit_cases, goal_cases)
    case (1 q v)
    then obtain s1 where v: "v = (s1, c)" and inspect: "br_inspect b k s = (Inr q, s1)"
      by (cases v) (simp add: on_broker_Inr)
    from 1(2) [unfolded v] show ?case
      by (rule confirm_record_Inr) (rule that [OF inspect])
  qed
qed

lemma decide_command_stored:
  assumes "decide_command b o1 (s, c) = (Inr (0, None), (s', c'))" "good s"
  shows "\<exists>id. good s' \<and> stored s' id (ad_operation o1)
    \<and> (ad_operation o1 = ''approve'' \<longrightarrow>
         (\<exists>k record s1 s2 d. good s1 \<and> br_inspect b k s1 = (Inr record, s2) \<and> confirmed o1 record d c'
            \<and> set (co_answers d) \<subseteq> set (co_answers c)))
    \<and> (\<not> ad_json o1 \<longrightarrow> co_stdout c' = co_stdout c @ (if ad_operation o1 = ''deny'' then ''Denied'' else ''Approved'')
         @ '' '' @ id @ ''.'' @ nl)"
proof (rule or_exit_cases [OF assms(1) [unfolded decide_command_def]], goal_cases)
  case (1 k u)
  obtain s1 c1 where u: "u = (s1, c1)" by fastforce
  note select = 1(1) [unfolded u]
  have s1: "good s1" using selectRequest_good [OF select assms(2)] .
  have c1: "co_stdout c1 = co_stdout c" "set (co_answers c1) \<subseteq> set (co_answers c)"
    using selectRequest_console [OF select] by simp_all
  note run = 1(2) [unfolded u]
  show ?case
  proof (cases "ad_operation o1 = ''approve''")
    case False
    with run have "conclude b o1 k '''' (s1, c1) = (Inr (0, None), (s', c'))" by (simp add: confirmed_hash_def)
    from conclude_stored [OF this s1] c1 False show ?thesis by auto
  next
    case True
    from run True show ?thesis
    proof (rule confirmed_hash_approve, goal_cases)
      case (1 q s2 d)
      from conclude_stored [OF 1(2) good_step(2) [OF 1(1) s1]] obtain id where
        r: "good s'" "stored s' id (ad_operation o1)" "co_terminal c' = co_terminal d"
        "\<not> ad_json o1 \<longrightarrow> co_stdout c' = co_stdout d @ (if ad_operation o1 = ''deny'' then ''Denied'' else ''Approved'')
         @ '' '' @ id @ ''.'' @ nl" by blast
      have "confirmed o1 q c1 c'" using 1(4) r(3) .
      with 1(1) s1 c1(2) have "\<exists>k record s1 s2 d. good s1 \<and> br_inspect b k s1 = (Inr record, s2) \<and> confirmed o1 record d c'
            \<and> set (co_answers d) \<subseteq> set (co_answers c)" by blast
      with r 1(3) c1(1) show ?case by - (rule exI [of _ id], simp)
    qed
  qed
qed

end

end
