(* ===== verification/Cli_Watch.thy ===== *)
theory Cli_Watch
  imports Cli_Review
begin

section \<open>Running a command: runCommand of apps/cli/cmd/shudo/main.go\<close>

text \<open>
  The client submits the command, then watches the request: it opens a stream from the next sequence number it
  has not seen, prints what arrives, and reconnects when the stream breaks, with growing delays, until the
  request has finished, the deadline passes or the user interrupts it. The tries to connect are a list
  with what each meets; a run that outlives the list has no exit yet.
\<close>

subsection \<open>Events\<close>

definition event_status :: "local_event \<Rightarrow> string" where
  "event_status e = (case le_Status e of None \<Rightarrow> '''' | Some st \<Rightarrow> status_text st)"

definition when_json :: "bool \<Rightarrow> string \<Rightarrow> json \<Rightarrow> (string \<times> json) list" where
  "when_json b name value = (if b then [(name, value)] else [])"

definition event_json :: "local_event \<Rightarrow> json" where
  "event_json e = JObj
     (when_json (le_ApprovedBy e \<noteq> '''') ''approvedBy'' (JStr (le_ApprovedBy e))
      @ when_json (le_Data e \<noteq> '''') ''dataBase64'' (JStr (base64url (map byte (le_Data e))))
      @ when_json (le_Decision e \<noteq> '''') ''decision'' (JStr (le_Decision e))
      @ when_json (le_HasExitCode e) ''exitCode'' (JNum (le_ExitCode e))
      @ [(''requestId'', JStr (le_RequestId e))]
      @ when_json (le_Signal e \<noteq> '''') ''signal'' (JStr (le_Signal e))
      @ [(''status'', JStr (event_status e))]
      @ when_json (le_Data e \<noteq> '''') ''stream'' (JStr (le_Stream e))
      @ when_json (le_Truncated e) ''truncated'' (JBool True)
      @ [(''type'', JStr (le_Type e))])"

definition show_event :: "options \<Rightarrow> local_event \<Rightarrow> unit console_op" where
  "show_event o1 e =
     (if op_json o1 then emitJSON (event_json e)
      else if le_Type e = ''output'' then
        (if le_Stream e = ''stderr'' then print_err (le_Data e) else print_out (le_Data e))
      else ret ())"

text \<open>The exit that the final message of a request gives.\<close>

definition finished_exit :: "local_event \<Rightarrow> exit" where
  "finished_exit e =
     (case le_Status e of
        Some Succeeded \<Rightarrow> (0, None)
      | Some Failed \<Rightarrow> if le_HasExitCode e then (le_ExitCode e, None) else (1, None)
      | Some Denied \<Rightarrow> (1, Some (Plain ''request denied''))
      | Some PolicyRejected \<Rightarrow> (1, Some (Plain ''request rejected by local policy''))
      | Some Expired \<Rightarrow> (1, Some (Plain ''request timed out''))
      | Some Cancelled \<Rightarrow> (130, Some (Plain ''request cancelled''))
      | _ \<Rightarrow> (1, Some (Plain (''request ended in '' @ event_status e))))"

definition finish_watch :: "options \<Rightarrow> local_event \<Rightarrow> exit console_op" where
  "finish_watch o1 e =
     and_then (if op_verbose o1 \<and> \<not> op_json o1 \<and> le_ApprovedBy e \<noteq> ''''
       then print_err (''Approved by '' @ le_ApprovedBy e @ ''.'' @ nl) else ret ()) (\<lambda>_.
     ret (finished_exit e))"

text \<open>The loop over the messages of one stream: the exit, or where to go on.\<close>

definition millisecond :: int where
  "millisecond = 1000000"

record progress =
  pg_next :: u64
  pg_delay :: int

fun receive :: "options \<Rightarrow> progress \<Rightarrow> local_event list \<Rightarrow> (exit + progress) console_op" where
  "receive o1 p [] = ret (Inr p)"
| "receive o1 p (e # es) =
     (let p1 = p\<lparr>pg_delay := 50 * millisecond\<rparr> in
      if le_Type e = ''output'' \<and> le_Sequence e < pg_next p then receive o1 p1 es
      else let p2 = (if le_Type e = ''output'' then p1\<lparr>pg_next := le_Sequence e + 1\<rparr> else p1) in
        and_then (show_event o1 e) (\<lambda>_.
        if le_Type e = ''finished'' then and_then (finish_watch o1 e) (\<lambda>x. ret (Inl x))
        else receive o1 p2 es))"

subsection \<open>Connecting again and again\<close>

definition retryableWatchError :: "err \<Rightarrow> bool" where
  "retryableWatchError e \<longleftrightarrow> e = External ''EOF'' \<or> status_code e \<in> {Canceled, UnknownCode, Internal, Unavailable}"

text \<open>Why the context of the watch is over: the deadline, or an interrupt, which first cancels the request.\<close>

datatype stop = Deadline | Interrupted

definition watchContextResult :: "stop \<Rightarrow> exit" where
  "watchContextResult s = (case s of Interrupted \<Rightarrow> (130, None) | Deadline \<Rightarrow> (1, Some (Plain ''request timed out'')))"

text \<open>One attempt: the stream it opens of a request from a sequence number (an error, or the messages received and the error that
  ended them), and whether the context is over after it, or during the delay before the next one.\<close>

record 's attempt =
  at_watch :: "string \<Rightarrow> u64 \<Rightarrow> ('s, local_event list \<times> err) op"
  at_stop :: "stop option"
  at_delay_stop :: "stop option"

record 's client =
  cl_broker :: "'s broker"
  cl_submit :: "submit_request \<Rightarrow> ('s, submit_response) op"
  cl_cancel :: "string \<Rightarrow> ('s, unit) op"

definition cancelRequest :: "'s client \<Rightarrow> string \<Rightarrow> ('s, unit) cli_op" where
  "cancelRequest c requestID =
     (case br_dial (cl_broker c) of Inl _ \<Rightarrow> ret ()
      | Inr _ \<Rightarrow> and_then (attempt (on_broker (cl_cancel c requestID))) (\<lambda>_. ret ()))"

definition stopped :: "'s client \<Rightarrow> string \<Rightarrow> stop \<Rightarrow> ('s, exit option) cli_op" where
  "stopped c requestID s =
     and_then (if s = Interrupted then cancelRequest c requestID else ret ()) (\<lambda>_. ret (Some (watchContextResult s)))"

definition next_delay :: "int \<Rightarrow> int" where
  "next_delay d = (if d < second then d * 2 else d)"

text \<open>After a failure \<open>e\<close>: stop with the context, give up, or wait and go on with the next attempt.\<close>

definition reconnect :: "'s client \<Rightarrow> string \<Rightarrow> 's attempt \<Rightarrow> (progress \<Rightarrow> ('s, exit option) cli_op) \<Rightarrow> err \<Rightarrow> progress
    \<Rightarrow> ('s, exit option) cli_op" where
  "reconnect c requestID a continue e p =
     (case at_stop a of
        Some s \<Rightarrow> stopped c requestID s
      | None \<Rightarrow>
          if \<not> retryableWatchError e then ret (Some (1, Some e))
          else (case at_delay_stop a of
              Some s \<Rightarrow> stopped c requestID s
            | None \<Rightarrow> continue (p\<lparr>pg_delay := next_delay (pg_delay p)\<rparr>)))"

fun watch_loop :: "'s client \<Rightarrow> options \<Rightarrow> string \<Rightarrow> 's attempt list \<Rightarrow> progress \<Rightarrow> ('s, exit option) cli_op" where
  "watch_loop c o1 requestID [] p = ret None"
| "watch_loop c o1 requestID (a # as) p =
     (let again = reconnect c requestID a (\<lambda>q. watch_loop c o1 requestID as q) in
      case br_dial (cl_broker c) of Inl e \<Rightarrow> again e p
       | Inr _ \<Rightarrow>
         and_then (attempt (on_broker (at_watch a requestID (pg_next p)))) (\<lambda>opened.
         case opened of Inl e \<Rightarrow> again e p
         | Inr (events, e) \<Rightarrow>
           and_then (on_console (receive o1 p events)) (\<lambda>r.
           case r of Inl x \<Rightarrow> ret (Some x) | Inr q \<Rightarrow> again e q)))"

subsection \<open>runCommand\<close>

definition submission :: "options \<Rightarrow> string \<Rightarrow> submit_request" where
  "submission o1 cwd = \<lparr>si_Executable = hd (op_command o1), si_Argv = tl (op_command o1), si_Cwd = cwd, si_Env = [],
     si_Reason = op_reason o1, si_TimeoutMs = op_timeout o1 div millisecond\<rparr>"

text \<open>\<open>or_exit\<close> for a run that may still be going on.\<close>

definition or_stop :: "int \<Rightarrow> ('t, 'a) op \<Rightarrow> ('a \<Rightarrow> ('t, exit option) op) \<Rightarrow> ('t, exit option) op" where
  "or_stop code m f = and_then (attempt m) (\<lambda>r. case r of Inl e \<Rightarrow> ret (Some (code, Some e)) | Inr x \<Rightarrow> f x)"

definition start_progress :: progress where
  "start_progress = \<lparr>pg_next = 0, pg_delay = 50 * millisecond\<rparr>"

definition submitted_json :: "submit_response \<Rightarrow> json" where
  "submitted_json r = JObj [(''command'', JStr (sb_Command r)), (''hostname'', JStr (sb_Hostname r)),
     (''requestHash'', JStr (sb_RequestHash r)), (''requestId'', JStr (sb_RequestId r)),
     (''status'', JStr (status_text (sb_Status r))), (''type'', JStr ''submitted'')]"

definition with_reason :: "options \<Rightarrow> (options \<Rightarrow> ('s, exit option) cli_op) \<Rightarrow> ('s, exit option) cli_op" where
  "with_reason o1 continue =
     (if TrimSpace (op_reason o1) = ''''
      then or_stop 2 (on_console (prompt ''Reason: '')) (\<lambda>reason. continue (o1\<lparr>op_reason := reason\<rparr>))
      else continue o1)"

definition after_submit :: "'s client \<Rightarrow> options \<Rightarrow> 's attempt list \<Rightarrow> submit_response \<Rightarrow> ('s, exit option) cli_op" where
  "after_submit c o1 tries response =
     and_then (on_console (if op_json o1 then emitJSON (submitted_json response) else ret ())) (\<lambda>_.
     if op_detach o1
     then and_then (on_console (if op_json o1 then ret () else print_out (sb_RequestId response @ nl))) (\<lambda>_. ret (Some (0, None)))
     else and_then (on_console (if op_verbose o1 \<and> \<not> op_json o1
         then print_err (''Request '' @ sb_RequestId response @ '': '' @ sb_Command response @ nl) else ret ())) (\<lambda>_.
       watch_loop c o1 (sb_RequestId response) tries start_progress))"

definition runCommand :: "'s client \<Rightarrow> scaled \<Rightarrow> string res \<Rightarrow> 's attempt list \<Rightarrow> string list \<Rightarrow> ('s, exit option) cli_op" where
  "runCommand c scale getwd tries arguments =
     or_stop 2 (lift_res (parse scale arguments)) (\<lambda>o0.
     with_reason o0 (\<lambda>o1.
     or_stop 1 (lift_res getwd) (\<lambda>cwd.
     or_stop 1 (lift_res (br_dial (cl_broker c))) (\<lambda>_.
     or_stop 1 (on_broker (cl_submit c (submission o1 cwd))) (after_submit c o1 tries)))))"

definition run_cli :: "'s client \<Rightarrow> scaled \<Rightarrow> string res \<Rightarrow> int \<Rightarrow> 's attempt list \<Rightarrow> string list \<Rightarrow> ('s, exit option) cli_op" where
  "run_cli c scale getwd euid tries arguments =
     (case parseAdmin arguments of
        Some (Inl e) \<Rightarrow> ret (Some (2, Some e))
      | Some (Inr admin) \<Rightarrow> and_then (runAdmin (cl_broker c) euid admin) (\<lambda>x. ret (Some x))
      | None \<Rightarrow> runCommand c scale getwd tries arguments)"

text \<open>\<open>main\<close>: report the error and give the exit code.\<close>

definition main_exit :: "exit \<Rightarrow> int console_op" where
  "main_exit x =
     (case snd x of None \<Rightarrow> ret (fst x)
      | Some e \<Rightarrow>
        and_then (if friendly e \<noteq> '''' then print_err (''shudo: '' @ friendly e @ nl) else ret ()) (\<lambda>_.
        ret (if fst x = 0 then 1 else fst x)))"

subsection \<open>Printing a stream\<close>

definition stream_events :: "string \<Rightarrow> u64 \<Rightarrow> local_event list \<Rightarrow> bool" where
  "stream_events k n events \<longleftrightarrow> (\<exists>outs final. events = map (output_event k) outs @ final \<and> in_order n outs
     \<and> list_all (\<lambda>c. oc_Sequence c < oc_Sequence c + 1) outs \<and> (final = [] \<or> (\<exists>e. final = [e] \<and> final_message k e)))"

definition data_on :: "bool \<Rightarrow> output_chunk list \<Rightarrow> string" where
  "data_on err_stream outs = concat (map oc_Data (filter (\<lambda>c. (oc_Stream c = ''stderr'') = err_stream) outs))"

definition printed :: "output_chunk list \<Rightarrow> console \<Rightarrow> console" where
  "printed outs c = c\<lparr>co_stdout := co_stdout c @ data_on False outs, co_stderr := co_stderr c @ data_on True outs\<rparr>"

lemma data_on_simps [simp]:
  "data_on b [] = ''''" "data_on b (c # cs) = (if (oc_Stream c = ''stderr'') = b then oc_Data c else '''') @ data_on b cs"
  "data_on b (cs @ ds) = data_on b cs @ data_on b ds"
  by (simp_all add: data_on_def)

lemma printed_simps: "printed [] c = c" "printed ds (printed cs c) = printed (cs @ ds) c"
  by (simp_all add: printed_def)

lemma show_output:
  assumes "\<not> op_json o1"
  shows "show_event o1 (output_event k c) d = (Inr (), printed [c] d)"
  using assms by (simp add: show_event_def output_event_def empty_event_def print_err_def print_out_def state_upd_def printed_def)

definition advance :: "progress \<Rightarrow> output_chunk list \<Rightarrow> progress" where
  "advance p outs = (if outs = [] then p else \<lparr>pg_next = oc_Sequence (last outs) + 1, pg_delay = 50 * millisecond\<rparr>)"

lemma in_order_Cons:
  "in_order n (c # outs) \<longleftrightarrow> n \<le> oc_Sequence c \<and> in_order n outs \<and> list_all (\<lambda>d. oc_Sequence c < oc_Sequence d) outs"
  by (auto simp: in_order_def list_all_iff)

lemma after_sequence:
  fixes a b :: u64
  assumes "a < b"
  shows "a + 1 \<le> b"
proof -
  have "uint b < 2 ^ 64" using unsigned_less [of b, where 'a = int] by simp
  then have "uint (a + 1) = uint a + 1" using assms by (simp add: word_less_def uint_word_ariths)
  then show ?thesis using assms by (simp add: word_less_def word_le_def)
qed

lemma in_order_tail: "in_order n (c # outs) \<Longrightarrow> in_order (oc_Sequence c + 1) outs"
  by (auto simp: in_order_def list_all_iff intro: after_sequence)

lemma receive_outs:
  assumes "\<not> op_json o1" "in_order (pg_next p) outs"
  shows "receive o1 p (map (output_event k) outs @ final) d = receive o1 (advance p outs) final (printed outs d)"
  using assms(2)
proof (induction outs arbitrary: p d)
  case Nil
  then show ?case by (simp add: advance_def printed_simps)
next
  case (Cons c outs)
  let ?q = "\<lparr>pg_next = oc_Sequence c + 1, pg_delay = 50 * millisecond\<rparr>"
  have "le_Type (output_event k c) = ''output''" "le_Sequence (output_event k c) = oc_Sequence c"
    by (simp_all add: output_event_def empty_event_def)
  moreover have "\<not> oc_Sequence c < pg_next p" using Cons.prems by (simp add: in_order_Cons not_less)
  ultimately have "receive o1 p (map (output_event k) (c # outs) @ final) d
      = receive o1 ?q (map (output_event k) outs @ final) (printed [c] d)"
    using show_output [OF assms(1)] by (cases p) (simp add: and_then_def Let_def)
  also have "\<dots> = receive o1 (advance ?q outs) final (printed outs (printed [c] d))"
    using in_order_tail [OF Cons.prems] by (intro Cons.IH) simp
  finally show ?case by (simp add: printed_simps advance_def)
qed

text \<open>What the final message adds to the console is at most the line about the approval on standard error.\<close>

lemma receive_final:
  assumes "\<not> op_json o1" "final_message k e"
  shows "\<exists>d'. receive o1 p [e] d = (Inr (Inl (finished_exit e)), d') \<and> co_stdout d' = co_stdout d
    \<and> (\<not> op_verbose o1 \<longrightarrow> d' = d)"
  using assms
  by (auto simp: final_message_def show_event_def finish_watch_def and_then_def ret_def print_err_def state_upd_def Let_def)

lemma receive_stream:
  assumes "\<not> op_json o1" "stream_events k (pg_next p) events" "receive o1 p events d = (r, d')"
  shows "\<exists>outs. in_order (pg_next p) outs \<and> co_stdout d' = co_stdout d @ data_on False outs
    \<and> (\<not> op_verbose o1 \<longrightarrow> d' = printed outs d)
    \<and> (case r of Inl _ \<Rightarrow> False
       | Inr (Inl x) \<Rightarrow> \<exists>e. events = map (output_event k) outs @ [e] \<and> final_message k e \<and> x = finished_exit e
       | Inr (Inr q) \<Rightarrow> events = map (output_event k) outs \<and> d' = printed outs d \<and> pg_next p \<le> pg_next q
           \<and> list_all (\<lambda>c. oc_Sequence c < pg_next q) outs)"
proof -
  obtain outs final where e: "events = map (output_event k) outs @ final" "in_order (pg_next p) outs"
    "list_all (\<lambda>c. oc_Sequence c < oc_Sequence c + 1) outs" "final = [] \<or> (\<exists>e. final = [e] \<and> final_message k e)"
    using assms(2) by (auto simp: stream_events_def)
  have run: "receive o1 (advance p outs) final (printed outs d) = (r, d')"
    using receive_outs [OF assms(1) e(2)] assms(3) e(1) by simp
  have out: "co_stdout (printed outs d) = co_stdout d @ data_on False outs" by (simp add: printed_def)
  show ?thesis
  proof (cases "final = []")
    case True
    have "pg_next p \<le> pg_next (advance p outs) \<and> list_all (\<lambda>c. oc_Sequence c < pg_next (advance p outs)) outs"
    proof (cases outs rule: rev_cases)
      case (snoc cs c)
      with e(2,3) have c: "oc_Sequence c < oc_Sequence c + 1" "pg_next p \<le> oc_Sequence c"
        "list_all (\<lambda>d. oc_Sequence d < oc_Sequence c) cs"
        by (auto simp: in_order_def sorted_wrt_append list_all_iff)
      then show ?thesis by (auto simp: advance_def snoc list_all_iff intro: less_trans order_trans less_imp_le)
    qed (simp add: advance_def)
    with True run e(1,2) out show ?thesis by (intro exI [of _ outs]) (auto simp: ret_def)
  next
    case False
    with e(4) obtain m where m: "final = [m]" "final_message k m" by blast
    from receive_final [OF assms(1) m(2), of "advance p outs" "printed outs d"] run m e(1,2) out show ?thesis
      by (intro exI [of _ outs]) auto
  qed
qed

text \<open>What the client is to have done after it heard the messages \<open>new\<close>: the output printed, in order, and the
  exit that the final message gives; without a final message it has no successful exit.\<close>

definition relayed :: "options \<Rightarrow> string \<Rightarrow> u64 \<Rightarrow> exit option \<Rightarrow> local_event list \<Rightarrow> console \<Rightarrow> console \<Rightarrow> bool" where
  "relayed o1 k n x new d d' \<longleftrightarrow> (\<exists>outs final. new = map (output_event k) outs @ final \<and> in_order n outs
     \<and> co_stdout d' = co_stdout d @ data_on False outs \<and> (\<not> op_verbose o1 \<longrightarrow> d' = printed outs d)
     \<and> (case final of [] \<Rightarrow> (case x of None \<Rightarrow> True | Some y \<Rightarrow> fst y \<noteq> 0)
        | [e] \<Rightarrow> final_message k e \<and> x = Some (finished_exit e) | _ \<Rightarrow> False))"

lemma relayed_nothing: "(case x of None \<Rightarrow> True | Some y \<Rightarrow> fst y \<noteq> 0) \<Longrightarrow> relayed o1 k n x [] d d"
  by (auto simp: relayed_def printed_simps in_order_def intro!: exI [of _ "[]"])

lemma relayed_final:
  assumes "in_order n outs" "final_message k e" "co_stdout d' = co_stdout d @ data_on False outs"
    "\<not> op_verbose o1 \<longrightarrow> d' = printed outs d"
  shows "relayed o1 k n (Some (finished_exit e)) (map (output_event k) outs @ [e]) d d'"
  unfolding relayed_def by (intro exI [of _ outs] exI [of _ "[e]"]) (simp add: assms)

lemma relayed_more:
  assumes "relayed o1 k m x new (printed outs d) d'" "in_order n outs" "n \<le> m" "list_all (\<lambda>c. oc_Sequence c < m) outs"
  shows "relayed o1 k n x (map (output_event k) outs @ new) d d'"
proof -
  obtain outs1 final where r: "new = map (output_event k) outs1 @ final" "in_order m outs1"
    "co_stdout d' = co_stdout (printed outs d) @ data_on False outs1" "\<not> op_verbose o1 \<longrightarrow> d' = printed outs1 (printed outs d)"
    "case final of [] \<Rightarrow> (case x of None \<Rightarrow> True | Some y \<Rightarrow> fst y \<noteq> 0)
        | [e] \<Rightarrow> final_message k e \<and> x = Some (finished_exit e) | _ \<Rightarrow> False"
    using assms(1) by (auto simp: relayed_def)
  have "in_order n (outs @ outs1)"
    using assms(2,4) r(2) order_trans [OF assms(3)]
    by (auto simp: in_order_def sorted_wrt_append list_all_iff intro: less_le_trans)
  moreover have "co_stdout d' = co_stdout d @ data_on False (outs @ outs1)" using r(3) by (simp add: printed_def)
  ultimately show ?thesis
    using r(1,4,5) unfolding relayed_def
    by (intro exI [of _ "outs @ outs1"] exI [of _ final]) (simp add: printed_simps)
qed

lemma or_stop_cases:
  assumes "or_stop code m f t = (r, t')"
  obtains (gave_up) e where "m t = (Inl e, t')" "r = Inr (Some (code, Some e))"
  | (went_on) x u where "m t = (Inr x, u)" "f x u = (r, t')"
  using assms by (auto simp: or_stop_def and_then_def attempt_def ret_def split: prod.splits sum.splits)

lemma prompt_streams: "prompt label d = (r, d') \<Longrightarrow> co_stdout d' = co_stdout d \<and> co_stderr d' = co_stderr d"
  by (auto simp: prompt_def outcome_simps open_tty_def print_tty_def Let_def and_then_def attempt_def ret_def fail_def
      state_upd_def split: list.splits sum.splits prod.splits option.splits if_splits)

text \<open>A run that only reports an error has printed and heard nothing; the others watch the request that they submitted
  for the command.\<close>

definition relayed_run :: "'s client \<Rightarrow> string res \<Rightarrow> options \<Rightarrow> 's \<Rightarrow> exit option \<Rightarrow> local_event list \<Rightarrow> console \<Rightarrow> console \<Rightarrow> bool" where
  "relayed_run b getwd o0 s x new d d' \<longleftrightarrow> (\<exists>outs final k. new = map (output_event k) outs @ final \<and> in_order 0 outs
     \<and> co_stdout d' = co_stdout d @ data_on False outs
     \<and> (\<not> op_verbose o0 \<longrightarrow> co_stderr d' = co_stderr d @ data_on True outs)
     \<and> (final = [] \<and> (\<forall>y. x = Some y \<longrightarrow> fst y \<noteq> 0) \<or> (\<exists>e. final = [e] \<and> final_message k e \<and> x = Some (finished_exit e)))
     \<and> (new = [] \<or> (\<exists>q response t. cl_submit b q s = (Inr response, t) \<and> k = sb_RequestId response
          \<and> si_Executable q # si_Argv q = op_command o0 \<and> getwd = Inr (si_Cwd q))))"

lemma relayed_run_nothing:
  "co_stdout d' = co_stdout d \<Longrightarrow> co_stderr d' = co_stderr d \<Longrightarrow> fst y \<noteq> 0 \<Longrightarrow> relayed_run b getwd o0 s (Some y) [] d d'"
  unfolding relayed_run_def by (intro exI [of _ "[]"]) (simp add: in_order_def)

text \<open>The contract of a stream: it delivers, in order, output of the request from the number asked for, then
  perhaps the final message, and nothing is delivered otherwise. \<open>heard\<close> is the record of what was delivered.\<close>

locale watch_contract =
  fixes c :: "'s client" and good :: "'s \<Rightarrow> bool" and heard :: "'s \<Rightarrow> local_event list" and serves :: "'s attempt \<Rightarrow> bool"
  assumes submit_good: "good s \<Longrightarrow> cl_submit c q s = (x, s') \<Longrightarrow> good s' \<and> heard s' = heard s"
    and cancel_good: "good s \<Longrightarrow> cl_cancel c k s = (y, s') \<Longrightarrow> good s' \<and> heard s' = heard s"
    and served: "serves a \<Longrightarrow> good s \<Longrightarrow> at_watch a k n s = (r, s') \<Longrightarrow> good s'
      \<and> (case r of Inl _ \<Rightarrow> heard s' = heard s
         | Inr (events, _) \<Rightarrow> heard s' = heard s @ events \<and> stream_events k n events)"
begin

lemma stopped_result: "stopped c k st (s, d) = (r, (s', d')) \<Longrightarrow> good s \<Longrightarrow>
    r = Inr (Some (watchContextResult st)) \<and> good s' \<and> heard s' = heard s \<and> d' = d"
  by (auto simp: stopped_def cancelRequest_def and_then_def attempt_def on_broker_def ret_def
      split: prod.splits sum.splits if_splits dest: cancel_good)

lemma reconnect_relays:
  assumes "reconnect c k a continue e p (s, d) = (r, (s', d'))" "good s"
    and "\<And>q. pg_next q = pg_next p \<Longrightarrow> continue q (s, d) = (r, (s', d')) \<Longrightarrow>
      \<exists>x new. r = Inr x \<and> good s' \<and> heard s' = heard s @ new \<and> relayed o1 k (pg_next p) x new d d'"
  shows "\<exists>x new. r = Inr x \<and> good s' \<and> heard s' = heard s @ new \<and> relayed o1 k (pg_next p) x new d d'"
proof -
  have halt: ?thesis if "stopped c k st (s, d) = (r, (s', d'))" for st
    using stopped_result [OF that assms(2)]
    by (intro exI [of _ "Some (watchContextResult st)"] exI [of _ "[]"])
      (auto intro!: relayed_nothing simp: watchContextResult_def split: stop.splits)
  show ?thesis
  proof (cases "at_stop a")
    case (Some st)
    with assms(1) halt show ?thesis by (simp add: reconnect_def)
  next
    case running: None
    show ?thesis
    proof (cases "retryableWatchError e")
      case False
      with assms(1,2) running show ?thesis
        by (intro exI [of _ "Some (1, Some e)"] exI [of _ "[]"]) (auto simp: reconnect_def ret_def intro!: relayed_nothing)
    next
      case True
      with assms(1) running halt assms(3) [of "p\<lparr>pg_delay := next_delay (pg_delay p)\<rparr>"] show ?thesis
        by (cases "at_delay_stop a") (simp_all add: reconnect_def)
    qed
  qed
qed

lemma watch_loop_relays:
  assumes "watch_loop c o1 k tries p (s, d) = (r, (s', d'))" "list_all serves tries" "good s" "\<not> op_json o1"
  shows "\<exists>x new. r = Inr x \<and> good s' \<and> heard s' = heard s @ new \<and> relayed o1 k (pg_next p) x new d d'"
  using assms(1-3)
proof (induction tries arbitrary: p s d)
  case Nil
  then show ?case by (auto simp: ret_def intro!: relayed_nothing exI [of _ "[]"])
next
  case (Cons a tries)
  let ?again = "reconnect c k a (\<lambda>q. watch_loop c o1 k tries q)"
  have again: "\<exists>x new. r = Inr x \<and> good s' \<and> heard s' = heard t @ new \<and> relayed o1 k (pg_next q) x new b d'"
    if "?again e q (t, b) = (r, (s', d'))" "good t" for e q t b
  proof (rule reconnect_relays [OF that])
    fix q' assume "pg_next q' = pg_next q" "watch_loop c o1 k tries q' (t, b) = (r, (s', d'))"
    with Cons.IH [of q' t b] Cons.prems(2) that(2)
    show "\<exists>x new. r = Inr x \<and> good s' \<and> heard s' = heard t @ new \<and> relayed o1 k (pg_next q) x new b d'" by simp
  qed
  show ?case
  proof (cases "br_dial (cl_broker c)")
    case (Inl e)
    with Cons.prems(1) again [OF _ Cons.prems(3)] show ?thesis by (simp add: Let_def)
  next
    case (Inr u)
    obtain opened s1 where call: "at_watch a k (pg_next p) s = (opened, s1)" by fastforce
    have law: "good s1" "case opened of Inl _ \<Rightarrow> heard s1 = heard s
         | Inr (events, _) \<Rightarrow> heard s1 = heard s @ events \<and> stream_events k (pg_next p) events"
      using served [OF _ Cons.prems(3) call] Cons.prems(2) by auto
    show ?thesis
    proof (cases opened)
      case (Inl e)
      with Cons.prems(1) call Inr law again [of e p s1 d] show ?thesis
        by (simp add: and_then_def attempt_def on_broker_def Let_def)
    next
      case (Inr answer)
      obtain events e where answer: "answer = (events, e)" by fastforce
      obtain q d1 where rec: "receive o1 p events d = (q, d1)" by fastforce
      from law(2) Inr answer have heard: "heard s1 = heard s @ events" "stream_events k (pg_next p) events" by auto
      obtain outs where o: "in_order (pg_next p) outs" "co_stdout d1 = co_stdout d @ data_on False outs"
        "\<not> op_verbose o1 \<longrightarrow> d1 = printed outs d"
        "case q of Inl _ \<Rightarrow> False
         | Inr (Inl x) \<Rightarrow> \<exists>e. events = map (output_event k) outs @ [e] \<and> final_message k e \<and> x = finished_exit e
         | Inr (Inr q) \<Rightarrow> events = map (output_event k) outs \<and> d1 = printed outs d \<and> pg_next p \<le> pg_next q
             \<and> list_all (\<lambda>c. oc_Sequence c < pg_next q) outs"
        using receive_stream [OF assms(4) heard(2) rec] by blast
      have run: "(case q of Inl e \<Rightarrow> (Inl e, (s1, d1)) | Inr (Inl x) \<Rightarrow> (Inr (Some x), (s1, d1))
          | Inr (Inr q) \<Rightarrow> ?again e q (s1, d1)) = (r, (s', d'))"
        using Cons.prems(1) call Inr answer rec \<open>br_dial (cl_broker c) = Inr u\<close>
        by (auto simp: and_then_def attempt_def on_broker_def on_console_def Let_def ret_def split: sum.splits)
      show ?thesis
      proof (cases q)
        case (Inr z)
        show ?thesis
        proof (cases z)
          case (Inl x)
          with o \<open>q = Inr z\<close> obtain m where "events = map (output_event k) outs @ [m]" "final_message k m" "x = finished_exit m"
            by auto
          with o(1-3) run \<open>q = Inr z\<close> Inl law(1) heard(1) show ?thesis
            by (intro exI [of _ "Some x"] exI [of _ events]) (simp add: relayed_final)
        next
          case (Inr q')
          with o(4) \<open>q = Inr z\<close> have w: "events = map (output_event k) outs" "d1 = printed outs d" "pg_next p \<le> pg_next q'"
            "list_all (\<lambda>c. oc_Sequence c < pg_next q') outs" by auto
          from again [OF _ law(1), of e q' d1] run Inr \<open>q = Inr z\<close> obtain x new where
            "r = Inr x" "good s'" "heard s' = heard s1 @ new" "relayed o1 k (pg_next q') x new d1 d'" by auto
          with relayed_more [OF _ o(1) w(3,4)] w(1,2) heard(1) show ?thesis by auto
        qed
      qed (use o(4) in simp)
    qed
  qed
qed

lemma after_submit_relays:
  assumes "after_submit c o1 tries response (s, d) = (r, (s', d'))" "list_all serves tries" "good s"
    "\<not> op_json o1" "\<not> op_detach o1"
  shows "\<exists>x new d0. r = Inr x \<and> good s' \<and> heard s' = heard s @ new \<and> relayed o1 (sb_RequestId response) 0 x new d0 d'
     \<and> co_stdout d0 = co_stdout d \<and> (\<not> op_verbose o1 \<longrightarrow> d0 = d)"
proof -
  let ?d = "if op_verbose o1 then d\<lparr>co_stderr := co_stderr d @ ''Request '' @ sb_RequestId response @ '': '' @ sb_Command response @ nl\<rparr> else d"
  have "watch_loop c o1 (sb_RequestId response) tries start_progress (s, ?d) = (r, (s', d'))"
    using assms(1,4,5) by (auto simp: after_submit_def and_then_def on_console_def ret_def print_err_def state_upd_def split: if_splits)
  from watch_loop_relays [OF this assms(2-4)] show ?thesis
    by (fastforce simp: start_progress_def)
qed

lemma runCommand_relays:
  assumes "runCommand c scale getwd tries arguments (s, d) = (r, (s', d'))"
    and "parse scale arguments = Inr o0" "\<not> op_json o0" "\<not> op_detach o0" "op_command o0 \<noteq> []" "list_all serves tries" "good s"
  shows "\<exists>x new. r = Inr x \<and> good s' \<and> heard s' = heard s @ new \<and> relayed_run c getwd o0 s x new d d'"
proof -
  have halted: ?thesis if "r = Inr (Some (code, Some e))" "heard s' = heard s" "good s'"
      "co_stdout d' = co_stdout d" "co_stderr d' = co_stderr d" "code \<noteq> 0" for code e
    using that by (intro exI [of _ "Some (code, Some e)"] exI [of _ "[]"]) (simp add: relayed_run_nothing)
  let ?rest = "\<lambda>o1. or_stop 1 (lift_res getwd) (\<lambda>cwd.
     or_stop 1 (lift_res (br_dial (cl_broker c))) (\<lambda>_.
     or_stop 1 (on_broker (cl_submit c (submission o1 cwd))) (after_submit c o1 tries)))"
  have rest: ?thesis if run: "?rest o1 (s, b) = (r, (s', d'))"
    and o1: "op_json o1 = op_json o0" "op_detach o1 = op_detach o0" "op_verbose o1 = op_verbose o0" "op_command o1 = op_command o0"
    and b: "co_stdout b = co_stdout d" "co_stderr b = co_stderr d" for o1 b
    using run
  proof (cases rule: or_stop_cases)
    case (gave_up e)
    show ?thesis by (rule halted [of 1 e]) (use gave_up assms(7) b in \<open>auto simp: outcome_lift_res\<close>)
  next
    case (went_on cwd u)
    then have u: "u = (s, b)" "getwd = Inr cwd" by (auto simp: outcome_lift_res)
    from went_on(2) [unfolded u(1)] show ?thesis
    proof (cases rule: or_stop_cases)
      case (gave_up e)
      show ?thesis by (rule halted [of 1 e]) (use gave_up assms(7) b in \<open>auto simp: outcome_lift_res\<close>)
    next
      case (went_on z v)
      then have v: "v = (s, b)" by (auto simp: outcome_lift_res)
      from went_on(2) [unfolded v] show ?thesis
      proof (cases rule: or_stop_cases)
        case (gave_up e)
        show ?thesis
          by (rule halted [of 1 e]) (use gave_up assms(7) b submit_good in \<open>auto simp: on_broker_def split: prod.splits\<close>)
      next
        case (went_on response w)
        then obtain s1 where w: "w = (s1, b)" "cl_submit c (submission o1 cwd) s = (Inr response, s1)"
          by (auto simp: on_broker_def split: prod.splits)
        from submit_good [OF assms(7) w(2)] have s1: "good s1" "heard s1 = heard s" by auto
        from after_submit_relays [OF went_on(2) [unfolded w(1)] assms(6) s1(1)] o1 assms(3,4)
        obtain x new d0 where r: "r = Inr x" "good s'" "heard s' = heard s @ new"
          "relayed o1 (sb_RequestId response) 0 x new d0 d'" "co_stdout d0 = co_stdout b" "\<not> op_verbose o1 \<longrightarrow> d0 = b"
          using s1(2) by auto
        have q: "si_Executable (submission o1 cwd) # si_Argv (submission o1 cwd) = op_command o0" "si_Cwd (submission o1 cwd) = cwd"
          using o1(4) assms(5) by (simp_all add: submission_def)
        from r(4) obtain outs final where m: "new = map (output_event (sb_RequestId response)) outs @ final" "in_order 0 outs"
          "co_stdout d' = co_stdout d0 @ data_on False outs" "\<not> op_verbose o1 \<longrightarrow> d' = printed outs d0"
          "case final of [] \<Rightarrow> (case x of None \<Rightarrow> True | Some y \<Rightarrow> fst y \<noteq> 0)
             | [e] \<Rightarrow> final_message (sb_RequestId response) e \<and> x = Some (finished_exit e) | _ \<Rightarrow> False"
          by (auto simp: relayed_def)
        have "relayed_run c getwd o0 s x new d d'"
          unfolding relayed_run_def
        proof (intro exI [of _ outs] exI [of _ final] exI [of _ "sb_RequestId response"] conjI)
          show "new = [] \<or> (\<exists>q response' t. cl_submit c q s = (Inr response', t) \<and> sb_RequestId response = sb_RequestId response'
              \<and> si_Executable q # si_Argv q = op_command o0 \<and> getwd = Inr (si_Cwd q))"
            using w(2) q u(2)
            by (intro disjI2 exI [of _ "submission o1 cwd"] exI [of _ response] exI [of _ s1]) simp
          show "\<not> op_verbose o0 \<longrightarrow> co_stderr d' = co_stderr d @ data_on True outs"
            using m(4) r(6) o1(3) b by (auto simp: printed_def)
          show "final = [] \<and> (\<forall>y. x = Some y \<longrightarrow> fst y \<noteq> 0)
              \<or> (\<exists>e. final = [e] \<and> final_message (sb_RequestId response) e \<and> x = Some (finished_exit e))"
            using m(5) by (auto split: list.splits option.splits)
        qed (use m(1-3) r(5) b in simp_all)
        with r(1-3) show ?thesis by blast
      qed
    qed
  qed
  from assms(1) [unfolded runCommand_def assms(2)] have "with_reason o0 ?rest (s, d) = (r, (s', d'))"
    by (simp add: or_stop_def and_then_def attempt_def lift_res_def)
  then consider (typed) "?rest o0 (s, d) = (r, (s', d'))" | (asked) "or_stop 2 (on_console (prompt ''Reason: '')) (\<lambda>reason. ?rest (o0\<lparr>op_reason := reason\<rparr>)) (s, d) = (r, (s', d'))"
    by (auto simp: with_reason_def split: if_splits)
  then show ?thesis
  proof cases
    case typed
    then show ?thesis by (rule rest) simp_all
  next
    case asked
    then show ?thesis
    proof (cases rule: or_stop_cases)
      case (gave_up e)
      show ?thesis
        by (rule halted [of 2 e]) (use gave_up assms(7) prompt_streams in \<open>auto simp: on_console_def split: prod.splits\<close>)
    next
      case (went_on reason u)
      then obtain b where u: "u = (s, b)" "co_stdout b = co_stdout d" "co_stderr b = co_stderr d"
        using prompt_streams by (auto simp: on_console_def split: prod.splits)
      from went_on(2) [unfolded u(1)] show ?thesis by (rule rest) (simp_all add: u)
    qed
  qed
qed

end

end
