(* ===== verification/Daemon_Main.thy ===== *)
theory Daemon_Main
  imports Daemon_Watch
begin

section \<open>The daemon process: apps/daemon/cmd/shudod/main.go\<close>

text \<open>
  The process starts in one of two ways. With \<open>__exec-fds\<close> as first argument it is the helper that \<open>execute\<close>
  starts: it decodes its arguments and becomes the approved program. Otherwise it checks that it runs as
  root, that its configuration, policy, database and socket cannot be tampered with by other users, and
  then serves. The file names on the host are a function from paths to what \<open>lstat\<close> answers; \<open>Mkdir\<close>,
  \<open>Chown\<close>, \<open>Chmod\<close> and \<open>Remove\<close> change it or fail.
\<close>

unbundle bit_operations_syntax

subsection \<open>Files on the host\<close>

record inode =
  in_mode :: u32
  in_uid :: u32
  in_gid :: u32

record host =
  h_lstat :: "string \<Rightarrow> inode res"
  h_fails :: "string \<Rightarrow> string \<Rightarrow> err option"

type_synonym 'a host_op = "(host, 'a) op"

definition not_exist :: err where
  "not_exist = External ''ENOENT''"

definition is_symlink :: "u32 \<Rightarrow> bool" where
  "is_symlink m \<longleftrightarrow> m AND 0xF000 = 0xA000"

definition is_socket :: "u32 \<Rightarrow> bool" where
  "is_socket m \<longleftrightarrow> m AND 0xF000 = 0xC000"

definition is_sticky :: "u32 \<Rightarrow> bool" where
  "is_sticky m \<longleftrightarrow> m AND 0x200 \<noteq> 0"

definition perm :: "u32 \<Rightarrow> u32" where
  "perm m = m AND 0x1FF"

definition others_write :: "u32 \<Rightarrow> bool" where
  "others_write m \<longleftrightarrow> perm m AND 0x12 \<noteq> 0"

definition Lstat :: "string \<Rightarrow> inode host_op" where
  "Lstat path = (\<lambda>h. (h_lstat h path, h))"

definition host_call :: "string \<Rightarrow> string \<Rightarrow> (inode res \<Rightarrow> inode res) \<Rightarrow> unit host_op" where
  "host_call name path f = (\<lambda>h. case h_fails h name path of
     Some e \<Rightarrow> (Inl e, h)
   | None \<Rightarrow> (Inr (), h\<lparr>h_lstat := (h_lstat h)(path := f (h_lstat h path))\<rparr>))"

text \<open>The process has set its umask to 077 before it makes a directory.\<close>

definition Mkdir :: "string \<Rightarrow> u32 \<Rightarrow> unit host_op" where
  "Mkdir path mode = (\<lambda>h. case h_lstat h path of
     Inr _ \<Rightarrow> (Inl (External ''EEXIST''), h)
   | Inl _ \<Rightarrow> host_call ''mkdir'' path
       (\<lambda>_. Inr \<lparr>in_mode = 0x4000 OR (mode AND NOT 0x3F), in_uid = 0, in_gid = 0\<rparr>) h)"

definition Chown :: "string \<Rightarrow> u32 \<Rightarrow> unit host_op" where
  "Chown path gid = host_call ''chown'' path (map_sum id (\<lambda>i. i\<lparr>in_uid := 0, in_gid := gid\<rparr>))"

definition Chmod :: "string \<Rightarrow> u32 \<Rightarrow> unit host_op" where
  "Chmod path mode = host_call ''chmod'' path (map_sum id (\<lambda>i. i\<lparr>in_mode := (in_mode i AND NOT 0xFFF) OR mode\<rparr>))"

definition Remove :: "string \<Rightarrow> unit host_op" where
  "Remove path = host_call ''remove'' path (\<lambda>_. Inl not_exist)"

subsection \<open>verifyDirectoryChain and verifyRootFile\<close>

definition safe_directory :: "inode \<Rightarrow> err option" where
  "safe_directory i =
     (if \<not> is_directory (in_mode i) \<or> is_symlink (in_mode i) \<or> in_uid i \<noteq> 0
      then Some (Plain ''directory path must contain only root-owned directories'')
      else if others_write (in_mode i) \<and> \<not> is_sticky (in_mode i)
      then Some (Plain ''directory path contains an unsafe writable ancestor'')
      else None)"

text \<open>The loop from a directory up to the root. It need not end for a relative path, so the result is optional.\<close>

partial_function (option) chain_from :: "(string \<Rightarrow> inode res) \<Rightarrow> string \<Rightarrow> unit res option" where
  "chain_from lstat current =
     (case lstat current of
        Inl e \<Rightarrow> Some (Inl e)
      | Inr info \<Rightarrow>
        (case safe_directory info of
           Some e \<Rightarrow> Some (Inl e)
         | None \<Rightarrow> if current = ''/'' then Some (Inr ()) else chain_from lstat (Dir current)))"

declare chain_from.simps [code]

definition verifyDirectoryChain :: "(string \<Rightarrow> inode res) \<Rightarrow> string \<Rightarrow> unit res option" where
  "verifyDirectoryChain lstat path = chain_from lstat (Clean path)"

text \<open>Within the process a check that does not return stops it for good.\<close>

definition stuck :: err where
  "stuck = External ''does not return''"

definition check_chain :: "string \<Rightarrow> unit host_op" where
  "check_chain path = (\<lambda>h. (case verifyDirectoryChain (h_lstat h) path of None \<Rightarrow> Inl stuck | Some r \<Rightarrow> r, h))"

definition verifyRootFile :: "string \<Rightarrow> unit host_op" where
  "verifyRootFile path =
     (if \<not> IsAbs path then fail (Plain ''path must be absolute'')
      else and_then (check_chain (Dir path)) (\<lambda>_.
        and_then (Lstat path) (\<lambda>info.
        if \<not> is_regular (in_mode info) \<or> is_symlink (in_mode info) \<or> in_uid info \<noteq> 0 \<or> others_write (in_mode info)
        then fail (Plain ''file must be a root-owned regular file not writable by group or other'')
        else ret ())))"

subsection \<open>prepareSocket and prepareDatabase\<close>

text \<open>The directory part both have in common: make it if it is missing, then check it and the way to it.\<close>

definition prepare_directory :: "string \<Rightarrow> u32 \<Rightarrow> err \<Rightarrow> err \<Rightarrow> unit host_op" where
  "prepare_directory directory mode unsafe bad =
     and_then (attempt (Lstat directory)) (\<lambda>first.
     and_then (if first = Inl not_exist
       then and_then (attempt (check_chain (Dir directory))) (\<lambda>parent.
              case parent of Inl _ \<Rightarrow> fail unsafe
              | Inr _ \<Rightarrow> and_then (Mkdir directory mode) (\<lambda>_. Lstat directory))
       else lift_res first) (\<lambda>info.
     and_then (check_chain directory) (\<lambda>_.
     if \<not> is_directory (in_mode info) \<or> is_symlink (in_mode info) \<or> in_uid info \<noteq> 0 \<or> others_write (in_mode info)
     then fail bad else ret ())))"

definition prepareSocket :: "string \<Rightarrow> u32 \<Rightarrow> unit host_op" where
  "prepareSocket path gid =
     (let directory = Dir path in
      if directory = ''/'' then fail (Plain ''socket must be inside a dedicated directory'')
      else and_then (prepare_directory directory 0x1E8 (Plain ''socket parent directory is unsafe'')
        (Plain ''socket directory must be a dedicated root-owned directory not writable by group or other'')) (\<lambda>_.
      and_then (Chown directory gid) (\<lambda>_.
      and_then (Chmod directory 0x1E8) (\<lambda>_.
      and_then (attempt (Lstat path)) (\<lambda>info.
      case info of
        Inl e \<Rightarrow> if e = not_exist then ret () else fail e
      | Inr i \<Rightarrow> if \<not> is_socket (in_mode i) then fail (Plain (''refusing to replace non-socket at '' @ path))
                 else Remove path)))))"

fun check_database_files :: "string list \<Rightarrow> unit host_op" where
  "check_database_files [] = ret ()"
| "check_database_files (candidate # rest) =
     and_then (attempt (Lstat candidate)) (\<lambda>info.
       case info of
         Inl e \<Rightarrow> if e = not_exist then check_database_files rest else fail e
       | Inr i \<Rightarrow>
         if \<not> is_regular (in_mode i) \<or> is_symlink (in_mode i) \<or> in_uid i \<noteq> 0 \<or> perm (in_mode i) \<noteq> 0x180
         then fail (Plain ''database files must be root-owned regular files with mode 0600'')
         else check_database_files rest)"

definition prepareDatabase :: "string \<Rightarrow> unit host_op" where
  "prepareDatabase path =
     and_then (prepare_directory (Dir path) 0x1C0 (Plain ''database parent directory is unsafe'')
       (Plain ''database directory must be root-owned and not writable by group or other'')) (\<lambda>_.
     check_database_files [path, path @ ''-wal'', path @ ''-shm''])"

subsection \<open>run\<close>

text \<open>The two internal modes, on the arguments of the process and its environment; \<open>None\<close> when the process is the
  daemon itself.\<close>

definition run_helper :: "(int \<Rightarrow> unit res) \<Rightarrow> string list \<Rightarrow> string list \<Rightarrow> exec_call res option" where
  "run_helper fchdir args environ =
     (if length args > 1 \<and> args ! 1 = ''__exec-fds''
      then Some (if length args < 6 \<or> (args ! 4 \<noteq> ''0'' \<and> args ! 4 \<noteq> ''1'')
        then Inl (Plain ''invalid internal pinned execution request'')
        else let interpreterArgument = (if args ! 4 = ''1'' then Some (args ! 5) else None);
                 interpreterFD = (if args ! 3 \<noteq> '''' then InterpreterFD else - 1)
          in ExecPinned fchdir ExecutableFD DirectoryFD interpreterFD (args ! 2) (drop 6 args) environ (args ! 3)
               interpreterArgument)
      else if length args > 1 \<and> args ! 1 = ''__exec-fd''
      then Some (if length args < 3 then Inl (Plain ''invalid internal execution request'')
        else ExecVerified 3 (drop 2 args) environ)
      else None)"

text \<open>What the start of the daemon asks its surroundings besides the files: the configuration path the flags
  give, the effective user, the decoded configuration, the clock, and whether the socket can be
  bound (the new socket belongs to root with the permissions the umask leaves).\<close>

record startup =
  su_flags :: "string res"
  su_euid :: int
  su_decode :: "daemon_config \<Rightarrow> daemon_config res"
  su_open :: "nat \<times> nat"
  su_listen :: "unit res"

definition on_files :: "'a host_op \<Rightarrow> (host \<times> store, 'a) op" where
  "on_files m = (\<lambda>(h, s). case m h of (r, h') \<Rightarrow> (r, (h', s)))"

definition on_database :: "'a store_op \<Rightarrow> (host \<times> store, 'a) op" where
  "on_database m = (\<lambda>(h, s). case m s of (r, s') \<Rightarrow> (r, (h, s')))"

text \<open>\<open>fmt.Errorf("prefix: %w", err)\<close>\<close>

definition with_context :: "string \<Rightarrow> ('s, 'a) op \<Rightarrow> ('s, 'a) op" where
  "with_context what m = (\<lambda>s. case m s of
     (Inl e, t) \<Rightarrow> (Inl (Plain (what @ err_text e)), t) | (Inr x, t) \<Rightarrow> (Inr x, t))"

definition Listen :: "unit res \<Rightarrow> string \<Rightarrow> unit host_op" where
  "Listen answer path = and_then (lift_res answer) (\<lambda>_.
     state_upd (\<lambda>h. h\<lparr>h_lstat := (h_lstat h)(path := Inr \<lparr>in_mode = 0xC1C0, in_uid = 0, in_gid = 0\<rparr>)\<rparr>))"

text \<open>The checks, the database and the service: what \<open>run\<close> does before it opens the socket. The loaded
  configuration, the one the service works with and the service after \<open>RecoverApproved\<close>, whose executions then run on.\<close>

definition recovered_service :: "world \<Rightarrow> daemon_config \<Rightarrow> (host \<times> store, daemon_config \<times> daemon_config \<times> service) op" where
  "recovered_service w cfg = (\<lambda>(h, store).
     let service = snd (RecoverApproved w (snd (New cfg store)))
     in (Inr (cfg, fst (New cfg store), service), (h, sv_Store service)))"

definition start_service :: "startup \<Rightarrow> world \<Rightarrow> (host \<times> store, daemon_config \<times> daemon_config \<times> service) op" where
  "start_service su w =
     and_then (lift_res (su_flags su)) (\<lambda>configPath.
     if su_euid su \<noteq> 0 then fail (Plain ''must run as root'')
     else
     and_then (with_context ''unsafe daemon configuration: '' (on_files (verifyRootFile configPath))) (\<lambda>_.
     and_then (lift_res (LoadDaemon (su_decode su))) (\<lambda>cfg.
     and_then (with_context ''unsafe policy configuration: '' (on_files (verifyRootFile (cf_PolicyPath cfg)))) (\<lambda>_.
     and_then (on_files (prepareDatabase (cf_DatabasePath cfg))) (\<lambda>_.
     and_then (on_database (Open (fst (su_open su)) (snd (su_open su)))) (\<lambda>_.
     recovered_service w cfg))))))"

definition run :: "startup \<Rightarrow> world \<Rightarrow> (host \<times> store, daemon_config \<times> service) op" where
  "run su w =
     and_then (start_service su w) (\<lambda>(cfg, serviceConfig, service).
     and_then (on_files (prepareSocket (cf_SocketPath cfg) (cf_SocketGID cfg))) (\<lambda>_.
     and_then (on_files (Listen (su_listen su) (cf_SocketPath cfg))) (\<lambda>_.
     and_then (on_files (Chown (cf_SocketPath cfg) (cf_SocketGID cfg))) (\<lambda>_.
     and_then (on_files (Chmod (cf_SocketPath cfg) 0x1B0)) (\<lambda>_.
     ret (serviceConfig, service))))))"

text \<open>\<open>main\<close>, when \<open>run\<close> returns: the error goes to standard error and the exit code is 1.\<close>

definition main_exit_code :: "unit res \<Rightarrow> int \<times> string" where
  "main_exit_code r = (case r of Inl e \<Rightarrow> (1, ''shudod: '' @ err_text e @ [CHR 0x0A]) | Inr _ \<Rightarrow> (0, ''''))"

subsection \<open>Clean paths\<close>

text \<open>The path with given elements; the root has none.\<close>

definition slash_path :: "string list \<Rightarrow> string" where
  "slash_path es = concat (map (\<lambda>e. SLASH # e) es)"

definition path_of :: "string list \<Rightarrow> string" where
  "path_of es = (if es = [] then ''/'' else slash_path es)"

definition elems_ok :: "string list \<Rightarrow> bool" where
  "elems_ok es \<longleftrightarrow> list_all (\<lambda>e. plain_elem e \<and> SLASH \<notin> set e) es"

lemma slash_path_simps [simp]:
  "slash_path [] = []" "slash_path (e # es) = SLASH # e @ slash_path es" "slash_path (es @ fs) = slash_path es @ slash_path fs"
  by (simp_all add: slash_path_def)

lemma elems_ok_simps [simp]:
  "elems_ok []" "elems_ok (e # es) \<longleftrightarrow> plain_elem e \<and> SLASH \<notin> set e \<and> elems_ok es"
  "elems_ok (es @ fs) \<longleftrightarrow> elems_ok es \<and> elems_ok fs"
  by (auto simp: elems_ok_def)

lemma split_on_not_Nil [simp]: "split_on sep s \<noteq> []"
  by (induction s) (auto split: list.splits)

lemma split_on_elem: "sep \<notin> set e \<Longrightarrow> split_on sep (e @ sep # r) = e # split_on sep r"
  by (induction e) auto

lemma split_on_no_sep: "e \<in> set (split_on sep s) \<Longrightarrow> sep \<notin> set e"
proof (induction s arbitrary: e)
  case (Cons c s)
  obtain w ws where "split_on sep s = w # ws" by (cases "split_on sep s") simp_all
  with Cons show ?case by (auto split: if_splits)
qed simp

lemma split_on_path: "elems_ok es \<Longrightarrow> split_on SLASH (slash_path es @ [SLASH]) = [] # es @ [[]]"
proof (induction es)
  case (Cons e es)
  obtain r where r: "slash_path es @ [SLASH] = SLASH # r" by (cases es) simp_all
  with Cons have "split_on SLASH r = es @ [[]]" by simp
  with Cons r show ?case by (simp add: split_on_elem)
qed simp

lemma clean_elems_all: "list_all plain_elem es \<Longrightarrow> clean_elems b st (es @ rest) = clean_elems b (rev es @ st) rest"
  by (induction es arbitrary: st) (simp_all add: clean_elems_push)

lemma clean_elems_subset: "set (clean_elems b st es) \<subseteq> set st \<union> set es \<union> {''..''}"
proof (induction es arbitrary: st)
  case (Cons e es)
  show ?case
    using Cons.IH [of st] Cons.IH [of "e # st"] Cons.IH [of "[]"] Cons.IH [of "[e]"] Cons.IH [of "tl st"]
    by (cases st) (auto simp: clean_elems.simps(2))
qed auto

lemma slash_join: "es \<noteq> [] \<Longrightarrow> SLASH # join_with ''/'' es = slash_path es"
proof (induction es)
  case (Cons e es)
  then show ?case by (cases es) (simp_all add: SLASH_def)
qed simp

lemma Clean_elems:
  assumes "IsAbs p"
  obtains es where "elems_ok es" "Clean p = path_of es"
proof -
  let ?es = "clean_elems True [] (split_on SLASH p)"
  have "\<forall>e \<in> set ?es. plain_elem e" using clean_elems_plain [of "[]"] by simp
  moreover have "SLASH \<notin> set e" if "e \<in> set ?es" for e
    using clean_elems_subset [of True "[]" "split_on SLASH p"] that split_on_no_sep
    by (auto simp: SLASH_def)
  ultimately have "elems_ok ?es" by (simp add: elems_ok_def list_all_iff)
  moreover have "Clean p = path_of ?es"
    using assms slash_join [of ?es] by (auto simp: Clean_def path_of_def SLASH_def)
  ultimately show thesis by (rule that)
qed

lemma Clean_slash_path: "elems_ok es \<Longrightarrow> Clean (slash_path es @ [SLASH]) = path_of es"
proof -
  assume ok: "elems_ok es"
  then have "list_all plain_elem es" by (auto simp: elems_ok_def list_all_iff)
  then have "clean_elems True [] ([] # es @ [[]]) = es"
    using clean_elems_all [of es True "[]" "[[]]"] by (simp add: clean_elems_skip)
  moreover have "IsAbs (slash_path es @ [SLASH])" by (cases es) (simp_all add: SLASH_def)
  ultimately show ?thesis
    using split_on_path [OF ok] slash_join [of es] by (auto simp: Clean_def path_of_def SLASH_def Let_def)
qed

lemma Dir_path:
  assumes "elems_ok (es @ [e])"
  shows "Dir (path_of (es @ [e])) = path_of es"
proof -
  have "dropWhile (\<lambda>c. c \<noteq> SLASH) (rev e @ SLASH # t) = SLASH # t" for t
    using assms by (subst dropWhile_append2) auto
  then have "rev (dropWhile (\<lambda>c. c \<noteq> SLASH) (rev (slash_path (es @ [e])))) = slash_path es @ [SLASH]"
    by simp
  then show ?thesis
    using Clean_slash_path [of es] assms by (simp add: Dir_def path_of_def)
qed

lemma path_of_root: "elems_ok es \<Longrightarrow> path_of es = ''/'' \<longleftrightarrow> es = []"
  by (cases es) (auto simp: path_of_def plain_elem_def SLASH_def)

subsection \<open>What the checks accept\<close>

definition safe_at :: "(string \<Rightarrow> inode res) \<Rightarrow> string \<Rightarrow> bool" where
  "safe_at lstat path =
     (case lstat path of Inl _ \<Rightarrow> False
      | Inr i \<Rightarrow> is_directory (in_mode i) \<and> \<not> is_symlink (in_mode i) \<and> in_uid i = 0
          \<and> (\<not> others_write (in_mode i) \<or> is_sticky (in_mode i)))"

lemma chain_from_elems:
  "elems_ok es \<Longrightarrow> \<exists>r. chain_from lstat (path_of es) = Some r
     \<and> (r = Inr () \<longleftrightarrow> list_all (\<lambda>n. safe_at lstat (path_of (take n es))) [0..<Suc (length es)])"
proof (induction es rule: rev_induct)
  case Nil
  then show ?case
    by (subst chain_from.simps) (auto simp: path_of_def safe_at_def safe_directory_def split: sum.splits)
next
  case (snoc e es)
  then obtain r where r: "chain_from lstat (path_of es) = Some r"
    "r = Inr () \<longleftrightarrow> list_all (\<lambda>n. safe_at lstat (path_of (take n es))) [0..<Suc (length es)]"
    by auto
  have here: "safe_at lstat (path_of (es @ [e])) \<longleftrightarrow>
      (\<exists>i. lstat (path_of (es @ [e])) = Inr i \<and> safe_directory i = None)"
    by (auto simp: safe_at_def safe_directory_def split: sum.splits if_splits)
  have up: "path_of (es @ [e]) \<noteq> ''/''" "Dir (path_of (es @ [e])) = path_of es"
    using snoc.prems path_of_root [of "es @ [e]"] Dir_path by auto
  have "list_all (\<lambda>n. safe_at lstat (path_of (take n (es @ [e])))) [0..<Suc (length (es @ [e]))] \<longleftrightarrow>
      safe_at lstat (path_of (es @ [e])) \<and> list_all (\<lambda>n. safe_at lstat (path_of (take n es))) [0..<Suc (length es)]"
    by (auto simp: list_all_iff less_Suc_eq)
  with r here up show ?case
    by (subst chain_from.simps) (auto split: sum.splits option.splits)
qed



definition root_file :: "(string \<Rightarrow> inode res) \<Rightarrow> string \<Rightarrow> bool" where
  "root_file lstat path \<longleftrightarrow> IsAbs path \<and> verifyDirectoryChain lstat (Dir path) = Some (Inr ())
     \<and> (\<exists>i. lstat path = Inr i \<and> is_regular (in_mode i) \<and> in_uid i = 0 \<and> \<not> others_write (in_mode i))"

lemma check_chain_Inr:
  "check_chain path h = (Inr u, h') \<longleftrightarrow> h' = h \<and> verifyDirectoryChain (h_lstat h) path = Some (Inr ())"
  by (auto simp: check_chain_def split: option.splits)

lemma verifyRootFile_Inr: "verifyRootFile path h = (Inr u, h') \<Longrightarrow> h' = h \<and> root_file (h_lstat h) path"
  by (auto simp: verifyRootFile_def outcome_simps check_chain_Inr Lstat_def root_file_def split: if_splits)

subsection \<open>The helper becomes the approved program\<close>

text \<open>(C19) The helper undoes the encoding of its arguments: for the arguments \<open>execute\<close> passes for a request it
  executes the descriptor of the approved executable with its path and exactly the approved arguments or,
  for a script, the descriptor of the approved interpreter with the approved interpreter argument, the
  script's descriptor and the approved arguments, in the approved directory and with the environment
  it was given. No argument of a request is read as something else.\<close>

theorem helper_runs_request:
  assumes "ex_Executable (er_Execution q) \<noteq> ''''" and "fchdir DirectoryFD = Inr ()"
    and "case er_InterpreterMetadata q of None \<Rightarrow> True | Some m \<Rightarrow> fm_Path m \<noteq> ''''"
  shows "run_helper fchdir (program # helper_arguments q) environ = Some (Inr
    (case er_InterpreterMetadata q of
       None \<Rightarrow> \<lparr>xc_Path = fd_path ExecutableFD, xc_Argv = ex_Executable (er_Execution q) # ex_Argv (er_Execution q), xc_Env = environ\<rparr>
     | Some m \<Rightarrow> \<lparr>xc_Path = fd_path InterpreterFD,
         xc_Argv = [fm_Path m] @ (case er_InterpreterArgument q of None \<Rightarrow> [] | Some a \<Rightarrow> [a])
           @ [fd_path ExecutableFD] @ ex_Argv (er_Execution q), xc_Env = environ\<rparr>))"
  using assms
  by (cases "er_InterpreterMetadata q"; cases "er_InterpreterArgument q")
    (simp_all add: run_helper_def helper_arguments_def ExecPinned_def ExecVerified_def ExecutableFD_def DirectoryFD_def
      InterpreterFD_def Let_def)

theorem helper_runs_request_witness:
  "run_helper (\<lambda>_. Inr ()) (''/proc/self/exe'' # helper_arguments run_request) [''HOME=/root''] = Some (Inr
     \<lparr>xc_Path = fd_path ExecutableFD, xc_Argv = [''/bin/ls'', ''-l''], xc_Env = [''HOME=/root'']\<rparr>)"
  using helper_runs_request [of run_request "\<lambda>_. Inr ()"] by (simp add: run_request_def example_request_def)

subsection \<open>Starting up\<close>

lemma outcome_on_files: "on_files m (h, s) = (r, t) \<longleftrightarrow> (\<exists>h'. m h = (r, h') \<and> t = (h', s))"
  by (auto simp: on_files_def split: prod.splits)

lemma with_context_Inr: "with_context what m s = (Inr x, t) \<longleftrightarrow> m s = (Inr x, t)"
  by (auto simp: with_context_def split: prod.splits sum.splits)

lemma outcome_on_database: "on_database m (h, s) = (r, t) \<longleftrightarrow> (\<exists>s'. m s = (r, s') \<and> t = (h, s'))"
  by (auto simp: on_database_def split: prod.splits)

lemma host_call_Inr:
  "host_call name path f h = (Inr u, h') \<Longrightarrow> h_lstat h' = (h_lstat h)(path := f (h_lstat h path))"
  by (auto simp: host_call_def split: option.splits)

text \<open>The socket as the last steps of the start leave it.\<close>

lemma socket_owned:
  assumes "Listen answer path h1 = (Inr u, h2)" and "Chown path gid h2 = (Inr v, h3)" and "Chmod path 0x1B0 h3 = (Inr x, h4)"
  shows "h_lstat h4 path = Inr \<lparr>in_mode = 0xC1B0, in_uid = 0, in_gid = gid\<rparr>"
  using assms
  by (auto simp: Listen_def outcome_simps Chown_def Chmod_def dest!: host_call_Inr)

lemma start_service_Inr:
  assumes "start_service su w (h, s) = (Inr (loaded, cfg, sv), (h', s'))"
  obtains configPath store where "su_flags su = Inr configPath" "su_euid su = 0"
    "su_decode su default_config = Inr loaded" "config_ok loaded"
    "root_file (h_lstat h) configPath" "root_file (h_lstat h) (cf_PolicyPath loaded)"
    "prepareDatabase (cf_DatabasePath loaded) h = (Inr (), h')"
    "Open (fst (su_open su)) (snd (su_open su)) s = (Inr (), store)"
    "cfg = effective_config loaded" "sv = snd (RecoverApproved w (snd (New loaded store)))" "s' = sv_Store sv"
proof -
  obtain configPath where flags: "su_flags su = Inr configPath" and root: "su_euid su = 0"
    using assms by (cases "su_flags su") (auto simp: start_service_def and_then_def lift_res_def fail_def split: if_splits)
  have neg: "\<not> su_euid su \<noteq> 0" using root by simp
  note body = assms [unfolded start_service_def flags and_then_lift_Inr if_not_P [OF neg]]
  obtain store where rest: "LoadDaemon (su_decode su) = Inr loaded" "root_file (h_lstat h) configPath"
    "root_file (h_lstat h) (cf_PolicyPath loaded)" "prepareDatabase (cf_DatabasePath loaded) h = (Inr (), h')"
    "Open (fst (su_open su)) (snd (su_open su)) s = (Inr (), store)"
    "cfg = effective_config loaded" "sv = snd (RecoverApproved w (snd (New loaded store)))" "s' = sv_Store sv"
    using body
    by (auto simp: and_then_Inr with_context_Inr outcome_on_files outcome_on_database outcome_lift_res
        recovered_service_def New_def Let_def dest!: verifyRootFile_Inr sym [of "Inr _" "LoadDaemon _"])
  moreover have "su_decode su default_config = Inr loaded" "config_ok loaded"
    using rest(1) check_config_Inr by (auto simp: LoadDaemon_def split: sum.splits)
  ultimately show thesis using that flags root by blast
qed

text \<open>(C18) A daemon that serves was started by root with a valid configuration; the configuration file and the
  policy file belonged to root, could be written by nobody else and were reached through directories
  nobody else controls; the database was opened, so that no request is left executing; and the socket
  belongs to root and the configured group with permissions 0660.\<close>

theorem run_secured:
  assumes "run su w (h, s) = (Inr (cfg, sv), (h', s'))"
  shows "\<exists>configPath loaded store. su_flags su = Inr configPath \<and> su_euid su = 0
    \<and> root_file (h_lstat h) configPath \<and> su_decode su default_config = Inr loaded \<and> config_ok loaded
    \<and> cfg = effective_config loaded \<and> root_file (h_lstat h) (cf_PolicyPath loaded)
    \<and> Open (fst (su_open su)) (snd (su_open su)) s = (Inr (), store)
    \<and> sv = snd (RecoverApproved w (snd (New loaded store)))
    \<and> h_lstat h' (cf_SocketPath loaded) = Inr \<lparr>in_mode = 0xC1B0, in_uid = 0, in_gid = cf_SocketGID loaded\<rparr>"
proof -
  obtain loaded h1 s1 where start: "start_service su w (h, s) = (Inr (loaded, cfg, sv), (h1, s1))"
    and socket: "\<exists>x h2. prepareSocket (cf_SocketPath loaded) (cf_SocketGID loaded) h1 = (Inr x, h2)
      \<and> (\<exists>y h3 z h4 a. Listen (su_listen su) (cf_SocketPath loaded) h2 = (Inr y, h3)
        \<and> Chown (cf_SocketPath loaded) (cf_SocketGID loaded) h3 = (Inr z, h4)
        \<and> Chmod (cf_SocketPath loaded) 0x1B0 h4 = (Inr a, h'))"
    using assms by (auto simp: run_def and_then_Inr outcome_on_files outcome_ret split: prod.splits)
  show ?thesis
    by (rule start_service_Inr [OF start]) (use socket in \<open>auto dest!: socket_owned\<close>)
qed

subsection \<open>A start that succeeds\<close>

definition start_lstat :: "string \<Rightarrow> inode res" where
  "start_lstat p =
     (if p \<in> {''/'', ''/etc'', ''/etc/shudo'', ''/run'', ''/run/shudo'', ''/var'', ''/var/lib'', ''/var/lib/shudo''}
      then Inr \<lparr>in_mode = 0x41ED, in_uid = 0, in_gid = 0\<rparr>
      else if p \<in> {''/etc/shudo/config.yaml'', ''/etc/shudo/policy.yaml''}
      then Inr \<lparr>in_mode = 0x81A4, in_uid = 0, in_gid = 0\<rparr>
      else Inl not_exist)"

definition start_host :: host where
  "start_host = \<lparr>h_lstat = start_lstat, h_fails = (\<lambda>_ _. None)\<rparr>"

definition start_config :: daemon_config where
  "start_config = default_config\<lparr>cf_Version := 1\<rparr>"

definition start_up :: startup where
  "start_up = \<lparr>su_flags = Inr ''/etc/shudo/config.yaml'', su_euid = 0, su_decode = (\<lambda>c. Inr (c\<lparr>cf_Version := 1\<rparr>)),
     su_open = (2, 3), su_listen = Inr ()\<rparr>"

lemma start_chains:
  "verifyDirectoryChain start_lstat ''/etc/shudo'' = Some (Inr ())"
  "verifyDirectoryChain start_lstat ''/var/lib/shudo'' = Some (Inr ())"
  "verifyDirectoryChain start_lstat ''/run/shudo'' = Some (Inr ())"
  by code_simp+

lemma start_paths:
  "cf_PolicyPath start_config = ''/etc/shudo/policy.yaml''" "cf_DatabasePath start_config = ''/var/lib/shudo/shudo.db''"
  "cf_SocketPath start_config = ''/run/shudo/shudo.sock''"
  "Dir ''/etc/shudo/config.yaml'' = ''/etc/shudo''" "Dir ''/etc/shudo/policy.yaml'' = ''/etc/shudo''"
  "Dir ''/var/lib/shudo/shudo.db'' = ''/var/lib/shudo''" "Dir ''/run/shudo/shudo.sock'' = ''/run/shudo''"
  by (simp add: start_config_def default_config_def, simp add: start_config_def default_config_def,
      simp add: start_config_def default_config_def, code_simp+)

lemmas start_simps = start_host_def start_lstat_def start_chains start_paths and_then_def Lstat_def ret_def
  check_chain_def attempt_def lift_res_def is_directory_def is_regular_def is_symlink_def others_write_def perm_def

lemma start_files:
  "verifyRootFile ''/etc/shudo/config.yaml'' start_host = (Inr (), start_host)"
  "verifyRootFile ''/etc/shudo/policy.yaml'' start_host = (Inr (), start_host)"
  by (simp_all add: verifyRootFile_def start_simps)

lemma start_database: "prepareDatabase ''/var/lib/shudo/shudo.db'' start_host = (Inr (), start_host)"
  by (simp add: prepareDatabase_def prepare_directory_def start_simps)

lemma start_socket: "\<exists>h. prepareSocket ''/run/shudo/shudo.sock'' gid start_host = (Inr (), h) \<and> h_fails h = (\<lambda>_ _. None)"
  by (simp add: prepareSocket_def prepare_directory_def start_simps Chown_def Chmod_def host_call_def Let_def)

lemma start_store: "\<exists>s. Open 2 3 (example_store Executing []) = (Inr (), s)"
  by (simp add: Open_def SetMaxBytes_def recoverInterrupted_def migrateLocalOnly_def and_then_def stmt_quiet
      ret_def select_quiet state_upd_def update_status_def update_executions_def example_db_def update_where_def)

lemma start_service_runs:
  assumes "Open 2 3 s = (Inr (), store)"
  shows "start_service start_up w (start_host, s) =
    (Inr (start_config, effective_config start_config, snd (RecoverApproved w (snd (New start_config store)))),
     (start_host, sv_Store (snd (RecoverApproved w (snd (New start_config store))))))"
proof -
  have config: "LoadDaemon (su_decode start_up) = Inr start_config"
    by (simp add: start_up_def start_config_def LoadDaemon_defaults)
  have [simp]: "su_flags start_up = Inr ''/etc/shudo/config.yaml''" "su_euid start_up = 0" "su_open start_up = (2, 3)"
    by (simp_all add: start_up_def)
  show ?thesis
    by (simp add: start_service_def config start_paths start_files start_database assms and_then_def lift_res_def
        with_context_def on_files_def on_database_def recovered_service_def New_def Let_def)
qed

lemma start_runs: "\<exists>cfg sv h' s'. run start_up run_world (start_host, example_store Executing []) = (Inr (cfg, sv), (h', s'))"
proof -
  obtain s where store: "Open 2 3 (example_store Executing []) = (Inr (), s)" using start_store by blast
  obtain h where socket: "prepareSocket ''/run/shudo/shudo.sock'' (cf_SocketGID start_config) start_host = (Inr (), h)"
    "h_fails h = (\<lambda>_ _. None)"
    using start_socket by blast
  have "su_listen start_up = Inr ()" by (simp add: start_up_def)
  then show ?thesis
    by (simp add: run_def start_service_runs [OF store] start_paths socket and_then_def on_files_def Listen_def
        lift_res_def state_upd_def Chown_def Chmod_def host_call_def ret_def)
qed

theorem run_secured_witness:
  "\<exists>cfg sv h' s'. run start_up run_world (start_host, example_store Executing []) = (Inr (cfg, sv), (h', s'))
     \<and> config_ok start_config \<and> cfg = effective_config start_config
     \<and> h_lstat h' ''/run/shudo/shudo.sock'' = Inr \<lparr>in_mode = 0xC1B0, in_uid = 0, in_gid = cf_SocketGID start_config\<rparr>"
proof -
  obtain cfg sv h' s' where run: "run start_up run_world (start_host, example_store Executing []) = (Inr (cfg, sv), (h', s'))"
    using start_runs by blast
  have "su_decode start_up default_config = Inr start_config" by (simp add: start_up_def start_config_def)
  with run_secured [OF run] run show ?thesis by (auto simp: start_paths)
qed

end
