(* ===== verification/Cli_Daemon.thy ===== *)
theory Cli_Daemon
  imports Cli_Review Daemon_Main
begin

section \<open>The client and the daemon\<close>

text \<open>
  The review commands connected to the daemon's handlers. Between the two is a connection that may lose a
  call before or after the daemon handled it; what happens to each call, and the world the daemon answers
  it in, is a script consumed call by call; the messages of the streams that reached the client are recorded. The contract of the review commands is discharged here by the
  daemon's handlers, so what the commands promise holds of the two programs together.
\<close>

datatype rpc_fault = Delivered | Lost err | Answer_lost err

record link =
  ln_service :: service
  ln_calls :: "(world \<times> rpc_fault) list"
  ln_heard :: "local_event list"

type_synonym 'a link_op = "(link, 'a) op"

text \<open>The error of a handler on the wire: what is no status becomes one with code \<open>Unknown\<close>.\<close>

definition on_wire :: "'a res \<Rightarrow> 'a res" where
  "on_wire r = (case r of Inl (Status c m) \<Rightarrow> Inl (Status c m) | Inl e \<Rightarrow> Inl (Status UnknownCode (err_text e)) | Inr x \<Rightarrow> Inr x)"

definition rpc :: "(world \<Rightarrow> 'a service_op) \<Rightarrow> 'a link_op" where
  "rpc handler = (\<lambda>l. case ln_calls l of
     [] \<Rightarrow> (Inl (Status Unavailable ''connection refused''), l)
   | (w, fault) # rest \<Rightarrow>
       let l' = l\<lparr>ln_calls := rest\<rparr> in
       (case fault of
          Lost e \<Rightarrow> (Inl e, l')
        | Answer_lost e \<Rightarrow> (Inl e, l'\<lparr>ln_service := snd (handler w (ln_service l))\<rparr>)
        | Delivered \<Rightarrow> (case handler w (ln_service l) of (r, sv) \<Rightarrow> (on_wire r, l'\<lparr>ln_service := sv\<rparr>))))"

definition daemon_broker :: "call_context \<Rightarrow> link broker" where
  "daemon_broker ctx = \<lparr>br_dial = Inr (),
     br_list = (\<lambda>history. rpc (\<lambda>w. ListRequests w ctx history)),
     br_inspect = (\<lambda>k. rpc (\<lambda>w. InspectRequest w ctx k)),
     br_decide = (\<lambda>d q. rpc (\<lambda>w. decide w ctx q d))\<rparr>"

definition service_ok :: "link \<Rightarrow> bool" where
  "service_ok l \<longleftrightarrow> db_ok (st_db (sv_Store (ln_service l)))"

text \<open>The database of the daemon holds a decision for a request.\<close>

definition decision_stored :: "link \<Rightarrow> string \<Rightarrow> string \<Rightarrow> bool" where
  "decision_stored l k decision \<longleftrightarrow>
     (\<exists>row a. approval_at k (st_db (sv_Store (ln_service l))) = Some row
        \<and> (ar_approval_json row = approval_json a \<or> dec_approval (ar_approval_json row) = Inr a)
        \<and> ap_Decision a = decision)"

lemma rpc_Inr:
  assumes "rpc handler l = (Inr x, l')"
  obtains w rest where "ln_calls l = (w, Delivered) # rest" "handler w (ln_service l) = (Inr x, ln_service l')"
    "ln_calls l' = rest"
proof -
  from assms obtain w fault rest where calls: "ln_calls l = (w, fault) # rest"
    by (cases "ln_calls l") (auto simp: rpc_def)
  with assms have "fault = Delivered" by (cases fault) (simp_all add: rpc_def Let_def)
  moreover obtain r sv where "handler w (ln_service l) = (r, sv)" by fastforce
  ultimately show thesis
    using assms calls by (intro that [of w rest]) (auto simp: rpc_def on_wire_def Let_def split: sum.splits err.splits)
qed

lemma rpc_service:
  "ln_service (snd (rpc handler l)) = ln_service l \<or> (\<exists>w. ln_service (snd (rpc handler l)) = snd (handler w (ln_service l)))"
proof (cases "ln_calls l")
  case (Cons p rest)
  then obtain w fault where "ln_calls l = (w, fault) # rest" by (cases p) simp
  then show ?thesis by (cases fault) (auto simp: rpc_def Let_def split: prod.splits, metis snd_conv)
qed (simp add: rpc_def)

lemma handlers_ok:
  assumes "db_ok (st_db (sv_Store sv))"
  shows "db_ok (st_db (sv_Store (snd (ListRequests w ctx history sv))))"
    "db_ok (st_db (sv_Store (snd (InspectRequest w ctx k sv))))"
    "db_ok (st_db (sv_Store (snd (decide w ctx q d sv))))"
  using ok.run_handler_effect [of sv undefined "(w, DoList ctx history)"] ok.run_handler_effect [of sv undefined "(w, DoInspect ctx k)"]
    ok.run_handler_effect [of sv undefined "(w, DoDecide ctx q d)"] assms
  by (simp_all add: on_sv_def db_inv_def)

lemma submit_cancel_ok:
  assumes "db_ok (st_db (sv_Store sv))"
  shows "db_ok (st_db (sv_Store (snd (Submit w cfg ctx input sv))))" "db_ok (st_db (sv_Store (snd (Cancel w ctx k sv))))"
  using ok.run_handler_effect [of sv cfg "(w, DoSubmit ctx input)"] ok.run_handler_effect [of sv cfg "(w, DoCancel ctx k)"] assms
  by (simp_all add: on_sv_def db_inv_def)

lemma rpc_ok: "(\<And>w sv. db_ok (st_db (sv_Store sv)) \<Longrightarrow> db_ok (st_db (sv_Store (snd (handler w sv))))) \<Longrightarrow>
    service_ok l \<Longrightarrow> service_ok (snd (rpc handler l))"
  using rpc_service [of handler l] by (auto simp: service_ok_def)

text \<open>A decision shown in a record is stored.\<close>

lemma InspectRequest_decision:
  assumes "InspectRequest w ctx k sv = (Inr r, sv')" "re_Decision r \<noteq> ''''"
  shows "\<exists>row a. approval_at (re_RequestId r) (st_db (sv_Store sv')) = Some row
    \<and> dec_approval (ar_approval_json row) = Inr a \<and> ap_Decision a = re_Decision r"
proof -
  obtain item sv1 where r: "requestRecord w 1 item sv1 = (Inr r, sv')"
    using assms(1) by (auto simp: InspectRequest_def outcome_simps split: option.splits)
  obtain approval where a: "on_store w 1 (ApprovalFor (er_RequestID (sr_Request item))) sv1 = (approval, sv')"
    "r = record_of item (case approval of Inl _ \<Rightarrow> None | Inr a \<Rightarrow> a)"
    using r by (auto simp: requestRecord_def outcome_simps)
  with assms(2) obtain x where x: "approval = Inr (Some x)" "ap_Decision x = re_Decision r"
    by (cases approval) (auto simp: record_of_def Let_def split: option.splits)
  let ?S = "run_calls (w_sf w) (w_env w 1) (sv_Store sv1)"
  have "ApprovalFor (er_RequestID (sr_Request item)) ?S = (Inr (Some x), sv_Store sv')"
    using a(1) x(1) by (auto simp: on_store_def split: prod.splits)
  moreover have "re_RequestId r = er_RequestID (sr_Request item)" by (simp add: a(2) record_of_def Let_def)
  ultimately show ?thesis using x(2) by (auto dest!: ApprovalFor_Some)
qed

interpretation review: review_contract "daemon_broker ctx" service_ok decision_stored
proof
  fix l assume ok: "service_ok l"
  show "service_ok (snd (br_list (daemon_broker ctx) history l))" for history
    by (simp add: daemon_broker_def) (rule rpc_ok [OF handlers_ok(1) ok])
  show "service_ok (snd (br_inspect (daemon_broker ctx) k l))" for k
    by (simp add: daemon_broker_def) (rule rpc_ok [OF handlers_ok(2) ok])
  show "service_ok (snd (br_decide (daemon_broker ctx) d q l))" for d q
    by (simp add: daemon_broker_def) (rule rpc_ok [OF handlers_ok(3) ok])
  show "decision_stored l' (de_RequestId response) d" if "br_decide (daemon_broker ctx) d q l = (Inr response, l')" for d q response l'
  proof -
    have "rpc (\<lambda>w. decide w ctx q d) l = (Inr response, l')" using that by (simp add: daemon_broker_def)
    then obtain w where "decide w ctx q d (ln_service l) = (Inr response, ln_service l')" by (rule rpc_Inr)
    then show ?thesis
      by (rule decide_Inr) (use ok in \<open>auto simp: service_ok_def decision_recorded_def decision_stored_def\<close>)
  qed
  show "decision_stored l' (re_RequestId r) (re_Decision r)"
    if "br_inspect (daemon_broker ctx) k l = (Inr r, l')" "re_Decision r \<noteq> ''''" for k r l'
  proof -
    have "rpc (\<lambda>w. InspectRequest w ctx k) l = (Inr r, l')" using that(1) by (simp add: daemon_broker_def)
    then obtain w where "InspectRequest w ctx k (ln_service l) = (Inr r, ln_service l')" by (rule rpc_Inr)
    from InspectRequest_decision [OF this that(2)] show ?thesis by (auto simp: decision_stored_def)
  qed
qed


end
