(* ===== verification/Store_Others.thy ===== *)
theory Store_Others
  imports Store_Retention
begin

section \<open>What the others leave alone\<close>

text \<open>
  The calls that other handlers make for other requests, and the calls made for all of them (expiry before the time of the
  request has come, retention, listings), leave the rows of an approved, running or ended request as they are. So the
  progress of one request can be followed while the others use the store.
\<close>

subsection \<open>The calls\<close>

text \<open>Expiry at a time is due for a request with the given expiry text.\<close>

definition due :: "sql_functions \<Rightarrow> string \<Rightarrow> nat \<Rightarrow> bool" where
  "due sf expires t \<longleftrightarrow> (case (sf_julianday sf expires, sf_julianday sf (now_text t)) of (Some e, Some n) \<Rightarrow> e \<le> n | _ \<Rightarrow> False)"

text \<open>A request that was started does not expire any more: \<open>None\<close> stands for its expiry.\<close>

definition overdue :: "sql_functions \<Rightarrow> string option \<Rightarrow> nat \<Rightarrow> bool" where
  "overdue sf expires t \<longleftrightarrow> (case expires of None \<Rightarrow> False | Some e \<Rightarrow> due sf e t)"

lemma overdue_simps [simp]: "\<not> overdue sf None t" "overdue sf (Some e) t = due sf e t"
  by (simp_all add: overdue_def)

lemma expirable_due: "expirable sf (now_text t) r \<longleftrightarrow> rr_status r \<in> {Queued, Synced, Waiting, Approved} \<and> due sf (rr_expires_at r) t"
  by (simp add: expirable_def due_def)

fun spares :: "sql_functions \<Rightarrow> string \<Rightarrow> string option \<Rightarrow> store_call \<Rightarrow> bool" where
  "spares sf k expires (CallOpen t1 t2) \<longleftrightarrow> False"
| "spares sf k expires (CallSetMaxBytes n) \<longleftrightarrow> False"
| "spares sf k expires (CallTransition j nx ex) \<longleftrightarrow> j \<noteq> k"
| "spares sf k expires (CallPending t) \<longleftrightarrow> \<not> overdue sf expires t"
| "spares sf k expires (CallRecentPending t limit uid allUsers) \<longleftrightarrow> \<not> overdue sf expires t"
| "spares sf k expires (CallExpireOutstanding t) \<longleftrightarrow> \<not> overdue sf expires t"
| "spares sf k expires (CallAcceptApproval a t) \<longleftrightarrow> ap_RequestID a \<noteq> k"
| "spares sf k expires (CallBeginExecution j ex t1 t2) \<longleftrightarrow> j \<noteq> k"
| "spares sf k expires (CallFinishExecution j exitCode signal t) \<longleftrightarrow> j \<noteq> k"
| "spares sf k expires (CallAppendOutput sizes j sequence stream data limit) \<longleftrightarrow> j \<noteq> k"
| "spares sf k expires c \<longleftrightarrow> True"

subsection \<open>The effect\<close>

definition chunks_at :: "string \<Rightarrow> db \<Rightarrow> chunk_row list" where
  "chunks_at k d = filter (\<lambda>c. cr_request_id c = k) (d_output_chunks d)"

definition alike :: "string \<Rightarrow> db \<Rightarrow> db \<Rightarrow> bool" where
  "alike k d e \<longleftrightarrow> request_at k e = request_at k d \<and> approval_at k e = approval_at k d
     \<and> execution_at k e = execution_at k d \<and> chunks_at k e = chunks_at k d"

definition stands :: "string option \<Rightarrow> request_row \<Rightarrow> bool" where
  "stands expires r \<longleftrightarrow> rr_status r = Approved \<and> expires = Some (rr_expires_at r) \<or> rr_status r \<in> {Executing, Succeeded, Failed}"

definition standing :: "string \<Rightarrow> string option \<Rightarrow> db \<Rightarrow> bool" where
  "standing k expires d \<longleftrightarrow> approval_at k d \<noteq> None \<and> (\<exists>r. request_at k d = Some r \<and> stands expires r)"

definition spared :: "string \<Rightarrow> string option \<Rightarrow> db \<Rightarrow> db \<Rightarrow> bool" where
  "spared k expires d e \<longleftrightarrow> (standing k expires d \<longrightarrow> alike k d e)"

lemma alike_standing: "alike k d e \<Longrightarrow> standing k expires e = standing k expires d"
  by (simp add: alike_def standing_def)

interpretation alike: table_effect "alike k" for k
  by unfold_locales (auto simp: alike_def)

interpretation spared: table_effect "spared k expires" for k expires
proof
  show "spared k expires d d" for d by (simp add: spared_def alike.tab_refl)
  show "spared k expires d f" if "spared k expires d e" "spared k expires e f" for d e f
    using that alike_standing [of k d e expires] by (auto simp: spared_def intro: alike.tab_trans)
qed

lemma spared_alike: "within (on_db (alike k)) m \<Longrightarrow> within (on_db (spared k expires)) m"
  by (simp add: within_def on_db_def spared_def)

subsection \<open>Statements\<close>

lemma lookup_update_other:
  assumes "\<And>r. key (f r) = key r" and "\<And>r. r \<in> set rows \<Longrightarrow> key r = k \<Longrightarrow> \<not> p r"
  shows "lookup_by key k (update_where p f rows) = lookup_by key k rows"
  using assms lookup_by_SomeD [of key k rows]
  by (cases "lookup_by key k rows") (auto simp: lookup_by_update_where)

lemma alike_statements:
  "within (alike k) (insert_event ty rido hash detail t)"
  "xr_request_id x \<noteq> k \<Longrightarrow> within (alike k) (insert_execution x)"
  "ar_request_id a \<noteq> k \<Longrightarrow> within (alike k) (insert_approval a)"
  "cr_request_id c \<noteq> k \<Longrightarrow> within (alike k) (insert_chunk c)"
  by (rule withinI, simp add: alike_def chunks_at_def insert_event_def insert_execution_def insert_approval_def
      insert_chunk_def lookup_by_append split: option.split)+

lemma alike_updates:
  "j \<noteq> k \<Longrightarrow> within (alike k) (update_status nx (\<lambda>r. rr_request_id r = j \<and> q r))"
  "j \<noteq> k \<Longrightarrow> within (alike k) (update_output n flag j)"
  "j \<noteq> k \<Longrightarrow> within (alike k) (update_consumed t j)"
  "(\<And>x. xr_request_id (g x) = xr_request_id x) \<Longrightarrow> j \<noteq> k \<Longrightarrow>
     within (alike k) (update_executions (\<lambda>x. xr_request_id x = j) g)"
  by (rule withinI, simp add: alike_def chunks_at_def update_status_def update_output_def update_consumed_def
      update_executions_def lookup_update_other)+

lemma alike_deletions:
  "j \<noteq> k \<Longrightarrow> within (alike k) (delete_chunks j)"
  "j \<noteq> k \<Longrightarrow> within (alike k) (delete_executions j)"
  "j \<noteq> k \<Longrightarrow> within (alike k) (delete_request j)"
  by (rule withinI, auto simp: alike_def chunks_at_def delete_chunks_def delete_executions_def delete_request_def
      state_upd_def lookup_filter_key intro!: filter_cong)+

lemma spared_insert_request: "within (spared k expires) (insert_request r)"
  by (rule withinI) (auto simp: spared_def standing_def alike_def chunks_at_def insert_request_def lookup_by_append)

lemma spared_update_status:
  assumes "\<And>r. stands expires r \<Longrightarrow> \<not> p r"
  shows "within (spared k expires) (update_status nx p)"
  using assms
  by (intro withinI) (auto simp: spared_def standing_def alike_def chunks_at_def update_status_def lookup_by_update_where)

subsection \<open>Operations\<close>

lemma alike_transition: "j \<noteq> k \<Longrightarrow> within (on_db (alike k)) (transition j nx ex)"
  unfolding transition_def by (intro alike.op_effects alike.getFrom_within alike_updates)

lemma alike_ops:
  "j \<noteq> k \<Longrightarrow> within (on_db (alike k)) (Transition j nx ex)"
  "ap_RequestID a \<noteq> k \<Longrightarrow> within (on_db (alike k)) (AcceptApprovalContext a t)"
  "j \<noteq> k \<Longrightarrow> within (on_db (alike k)) (BeginExecution j exp t1 t2)"
  "j \<noteq> k \<Longrightarrow> within (on_db (alike k)) (FinishExecution j exitCode signal t)"
  "j \<noteq> k \<Longrightarrow> within (on_db (alike k)) (AppendOutput sizes j sequence stream data limit)"
  "within (on_db (alike k)) (RecordSecurityEvent ty i hash detail t)"
  unfolding Transition_def AcceptApprovalContext_def BeginExecution_def FinishExecution_def AppendOutput_def
    RecordSecurityEvent_def transaction_def bind_u64_def Let_def
  by (intro alike.op_effects alike.Get_within alike_transition alike_statements alike_updates; simp)+

lemma alike_delete_each: "k \<notin> set ids \<Longrightarrow> within (on_db (alike k)) (delete_each ids)"
  by (induction ids) (auto intro!: alike.op_effects alike_deletions)

lemma spared_ExpireOutstanding: "\<not> overdue sf expires t \<Longrightarrow> within (on_db (spared k expires)) (ExpireOutstanding sf t)"
  unfolding ExpireOutstanding_def
  by (intro spared.op_effects spared_update_status) (auto simp: expirable_due stands_def)

lemma spared_Create: "within (on_db (spared k expires)) (Create sizes request hash)"
  unfolding Create_def by (intro spared.op_effects spared_insert_request)

lemma spared_PruneUnapproved: "spared k expires (st_db s) (st_db (snd (PruneUnapproved old n s)))"
  unfolding spared_def
proof
  assume st: "standing k expires (st_db s)"
  obtain q s1 where sel: "select prune_candidates s = (q, s1)" by fastforce
  then have s1: "st_db s1 = st_db s" by (cases q) (auto dest: select_Inr select_Inl)
  show "alike k (st_db s) (st_db (snd (PruneUnapproved old n s)))"
  proof (cases "n < 0 \<or> (\<exists>e. q = Inl e)")
    case True
    then show ?thesis using sel s1 by (auto simp: PruneUnapproved_def and_then_def fail_def alike.tab_refl)
  next
    case False
    then obtain rows where rows: "q = Inr rows" "rows = prune_candidates (st_db s)"
      using sel by (cases q) (auto dest: select_Inr)
    let ?ids = "prune_ids old n 0 rows"
    have "k \<notin> set ?ids"
      using st candidates_undecided [of "st_db s"] prune_ids_subset [of old n 0 rows] rows
      by (auto simp: standing_def lookup_by_None_iff)
    then have "within (on_db (alike k)) (if ?ids = [] then ret () else transaction (delete_each ?ids))"
      unfolding transaction_def by (intro alike.op_effects alike_delete_each)
    from alike.on_db_effect [OF this, of s1] show ?thesis
      using False sel [unfolded rows(1)] s1 by (simp add: PruneUnapproved_def and_then_def Let_def)
  qed
qed

lemma run_call_spared:
  assumes "spares sf k expires c"
  shows "spared k expires (st_db s) (st_db (run_call sf c s))"
proof (cases "is_prune c")
  case True
  then show ?thesis by (cases c) (simp_all add: spared_PruneUnapproved)
next
  case False
  have listing: "within (on_db (spared k expires)) (Pending sf t)" "within (on_db (spared k expires)) (RecentPending sf t n uid all)"
    if "\<not> overdue sf expires t" for t n uid all
    unfolding Pending_def RecentPending_def
    by (intro spared.op_effects spared_ExpireOutstanding spared.read_ops_within that)+
  show ?thesis
    using assms False
    by (cases c) (auto intro!: spared.on_db_effect spared_alike alike_ops spared_ExpireOutstanding spared_Create listing
        spared.read_ops_within)
qed

subsection \<open>No failing statements\<close>

definition quiet :: "store \<Rightarrow> bool" where
  "quiet s \<longleftrightarrow> st_faults s = []"

lemma quiet_stmt: "keeps quiet (stmt f)"
  by (rule keepsI) (auto simp: quiet_def stmt_quiet split: prod.splits sum.splits)

lemma quiet_transaction: "keeps quiet m \<Longrightarrow> keeps quiet (transactionContext m)"
proof (rule keepsI)
  fix s assume m: "keeps quiet m" "quiet s"
  then have "quiet (snd (m s))" by (rule keepsD)
  with m(2) show "quiet (snd (transactionContext m s))"
    by (auto simp: quiet_def transaction_quiet split: prod.splits sum.splits)
qed

lemmas quiet_intros = keeps_intros quiet_stmt quiet_transaction

lemma quiet_getFrom: "keeps quiet (getFrom k)"
  unfolding getFrom_def select_def by (intro quiet_intros)

lemma quiet_transition: "keeps quiet (transition k nx ex)"
  unfolding transition_def by (intro quiet_intros quiet_getFrom)

lemma quiet_get_each: "keeps quiet (get_each ids)"
  by (induction ids) (auto simp: Get_def intro!: quiet_intros quiet_getFrom)

lemma quiet_delete_each: "keeps quiet (delete_each ids)"
  by (induction ids) (auto intro!: quiet_intros)

lemma quiet_ops:
  "keeps quiet (Create sizes request hash)" "keeps quiet (Get k)" "keeps quiet (Transition k nx ex)"
  "keeps quiet (ExpireOutstanding sf t)" "keeps quiet (Pending sf t)" "keeps quiet (RecentPending sf t limit uid allUsers)"
  "keeps quiet (Recent sf limit uid allUsers)" "keeps quiet (byStatuses statuses)" "keeps quiet (OutstandingCounts sf uid)"
  "keeps quiet (ApprovalFor k)" "keeps quiet (AcceptApprovalContext a t)" "keeps quiet (BeginExecution k exp t t2)"
  "keeps quiet (FinishExecution k exitCode signal t)" "keeps quiet (Execution k)"
  "keeps quiet (AppendOutput sizes k sequence stream data limit2)" "keeps quiet (OutputAfter k after n)"
  "keeps quiet (PruneUnapproved old n)" "keeps quiet (RecordSecurityEvent ty k hash detail t)"
  unfolding Create_def Get_def Transition_def ExpireOutstanding_def Pending_def RecentPending_def Recent_def recent_def
    byStatuses_def OutstandingCounts_def ApprovalFor_def AcceptApprovalContext_def BeginExecution_def
    FinishExecution_def Execution_def AppendOutput_def OutputAfter_def PruneUnapproved_def RecordSecurityEvent_def
    transaction_def select_def bind_u64_def Let_def
  by (intro quiet_intros quiet_getFrom quiet_transition quiet_get_each quiet_delete_each)+

lemma quiet_call:
  assumes "quiet s" and "spares sf k expires c"
  shows "quiet (run_call sf c s)"
  using assms by (cases c) (auto intro: keepsD [OF quiet_ops(1)] keepsD quiet_ops)

text \<open>The size limit changes only when the daemon starts.\<close>

interpretation anything: table_deletions "\<lambda>d e. True"
  by unfold_locales (simp_all add: within_def)

lemma maxBytes_kept: "within (on_db (\<lambda>d e. True)) m \<Longrightarrow> st_maxBytes (snd (m s)) = st_maxBytes s"
  by (simp add: within_def on_db_def)

lemma maxBytes_call: "spares sf k expires c \<Longrightarrow> st_maxBytes (run_call sf c s) = st_maxBytes s"
  by (cases c) (auto intro!: maxBytes_kept anything.store_ops_within anything.read_ops_within anything.Pending_within
      anything.PruneUnapproved_within)

subsection \<open>Histories\<close>

text \<open>What stays as it is while the others use the store.\<close>

definition undisturbed :: "string \<Rightarrow> store \<Rightarrow> store \<Rightarrow> bool" where
  "undisturbed k s t \<longleftrightarrow> quiet t \<and> db_ok (st_db t) \<and> alike k (st_db s) (st_db t) \<and> st_maxBytes t = st_maxBytes s"

lemma run_calls_undisturbed:
  "list_all (spares sf k expires) cs \<Longrightarrow> quiet s \<Longrightarrow> db_ok (st_db s) \<Longrightarrow> standing k expires (st_db s) \<Longrightarrow>
    undisturbed k s (run_calls sf cs s)"
proof (induction cs arbitrary: s)
  case (Cons c cs)
  let ?t = "run_call sf c s"
  have a: "alike k (st_db s) (st_db ?t)" "st_maxBytes ?t = st_maxBytes s" and q: "quiet ?t"
    using run_call_spared [of sf k expires c s] maxBytes_call [of sf k expires c s] quiet_call [of s sf k expires c] Cons.prems
    by (simp_all add: spared_def)
  have "db_ok (st_db ?t)" using ok.any_call_effect [of s sf c] Cons.prems by (simp add: db_inv_def)
  then have "undisturbed k ?t (run_calls sf cs ?t)"
    using Cons a q alike_standing [OF a(1), of expires] by simp
  then show ?case using a alike.tab_trans by (auto simp: undisturbed_def)
qed (simp add: undisturbed_def alike.tab_refl)

end
