(* ===== verification/Output_Capture.thy ===== *)
theory Output_Capture
  imports Store_Others Store_Output
begin

section \<open>Capturing a process's output\<close>

text \<open>
  What is stored of a process's output, as a function of what it wrote: the writes in order, cut at the limit. Appending
  the writes one by one to a running request stores exactly that, while the others use the store.
\<close>

subsection \<open>The reference\<close>

definition written :: "(string \<times> bytes) list \<Rightarrow> nat" where
  "written out = length (concat (map snd out))"

fun cut :: "nat \<Rightarrow> (string \<times> bytes) list \<Rightarrow> (string \<times> bytes) list" where
  "cut n [] = []"
| "cut n ((stream, data) # out) =
     (if take n data = [] then [] else [(stream, take n data)]) @ cut (n - length data) out"

lemma written_simps [simp]: "written [] = 0" "written (p # out) = length (snd p) + written out"
  "written (out @ out') = written out + written out'"
  by (simp_all add: written_def)

lemma cut_append: "cut n (out @ out') = cut n out @ cut (n - written out) out'"
  by (induction n out rule: cut.induct) simp_all

lemma cut_data: "concat (map snd (cut n out)) = take n (concat (map snd out))"
  by (induction n out rule: cut.induct) (auto simp: take_append)

lemma cut_whole: "written out \<le> n \<Longrightarrow> cut n out = filter (\<lambda>p. snd p \<noteq> []) out"
  by (induction n out rule: cut.induct) auto

subsection \<open>A running request\<close>

definition running :: "string \<Rightarrow> execution_request \<Rightarrow> store \<Rightarrow> bool" where
  "running k q s \<longleftrightarrow> quiet s \<and> db_ok (st_db s) \<and> approval_at k (st_db s) \<noteq> None \<and> execution_at k (st_db s) \<noteq> None
     \<and> (\<exists>r. request_at k (st_db s) = Some r \<and> rr_status r = Executing
          \<and> dec_execution_request (rr_request_json r) = Inr q)"

lemma running_standing: "running k q s \<Longrightarrow> quiet s \<and> db_ok (st_db s) \<and> standing k expires (st_db s)"
  by (auto simp: running_def standing_def stands_def)

lemma running_undisturbed: "undisturbed k s t \<Longrightarrow> running k q s \<Longrightarrow> running k q t"
  by (simp add: undisturbed_def running_def alike_def)

text \<open>What was stored so far, when the process has written \<open>out\<close> and the next sequence number is \<open>n\<close>.\<close>

definition captured :: "string \<Rightarrow> nat \<Rightarrow> nat \<Rightarrow> (string \<times> bytes) list \<Rightarrow> db \<Rightarrow> bool" where
  "captured k limit n out d \<longleftrightarrow>
     map (\<lambda>c. (cr_stream c, cr_data c)) (chunks_at k d) = cut limit out
     \<and> sorted_wrt (<) (map cr_sequence (chunks_at k d)) \<and> (\<forall>c \<in> set (chunks_at k d). 0 \<le> cr_sequence c \<and> cr_sequence c < int n)
     \<and> (\<exists>r. request_at k d = Some r \<and> rr_output_bytes r = int (min limit (written out))
          \<and> (rr_output_truncated r \<noteq> 0 \<longleftrightarrow> limit < written out))"

lemma captured_alike: "alike k d e \<Longrightarrow> captured k limit n out e = captured k limit n out d"
  by (simp add: captured_def alike_def)

lemma chunks_from_at: "chunks_from k a d = sort_key cr_sequence (filter (\<lambda>c. a \<le> cr_sequence c) (chunks_at k d))"
  by (simp add: chunks_from_def chunks_at_def conj_commute)

lemma captured_chunks:
  assumes "captured k limit n out d"
  shows "map (\<lambda>c. (cr_stream c, cr_data c)) (chunks_from k 0 d) = cut limit out"
proof -
  have "filter (\<lambda>c. cr_request_id c = k \<and> 0 \<le> cr_sequence c) (d_output_chunks d) = chunks_at k d"
    using assms unfolding captured_def chunks_at_def by (auto intro!: filter_cong)
  moreover have "sorted (map cr_sequence (chunks_at k d))"
    using assms by (simp add: captured_def strict_sorted_imp_sorted)
  ultimately show ?thesis
    using assms by (simp add: chunks_from_def captured_def sort_key_id_if_sorted)
qed

subsection \<open>Appending one write\<close>

lemma AppendOutput_runs:
  assumes "running k q s" and "request_at k (st_db s) = Some r"
    and "0 \<le> rr_output_bytes r" "rr_output_bytes r \<le> limit" "int64_range limit"
    and "uint sequence < 2 ^ 63" "(k, uint sequence) \<notin> chunk_key ` set (d_output_chunks (st_db s))"
  shows "\<exists>x. fst (AppendOutput sizes k sequence stream data limit s) = Inr x"
proof -
  obtain q where q: "dec_execution_request (rr_request_json r) = Inr q" using assms(1,2) by (auto simp: running_def)
  let ?c = "\<lparr>sr_Request = q, sr_RequestHash = rr_request_hash r, sr_Status = rr_status r,
          sr_OutputBytes = rr_output_bytes r, sr_OutputTruncated = (rr_output_truncated r \<noteq> 0)\<rparr>"
  let ?kept = "kept_output sizes (st_maxBytes s) (rr_output_bytes r) limit data"
  have get: "getFrom k s = (Inr (Some ?c), s)"
    using assms(1,2) q by (simp add: getFrom_quiet running_def quiet_def stored_of_def)
  have quiet: "st_faults s = []" and ok: "db_ok (st_db s)" using assms(1) by (simp_all add: running_def quiet_def)
  let ?row = "\<lparr>cr_request_id = k, cr_sequence = uint sequence, cr_stream = stream, cr_data = ?kept\<rparr>"
  have "k \<in> request_ids (st_db s)" using lookup_by_SomeD [OF assms(2)] by auto
  then have ins: "insert_chunk ?row (st_db s) = (Inr (), (st_db s)\<lparr>d_output_chunks := d_output_chunks (st_db s) @ [?row]\<rparr>)"
    using assms(7) by (simp add: insert_chunk_def chunk_key_def)
  have unique: "r' = r" if "r' \<in> set (d_requests (st_db s))" "rr_request_id r' = k" for r'
    using that lookup_by_distinct [of rr_request_id "d_requests (st_db s)" r'] assms(2) ok by (auto simp: db_ok_def)
  have "rr_output_bytes r + int (length ?kept) \<le> limit"
    by (rule kept_output_bound) (use assms in auto)
  then have "int64_range (rr_output_bytes r + int (length ?kept))"
    using assms(3,5) by (simp add: int64_range_def)
  then have upd: "fst (update_output (int (length ?kept)) flag k ((st_db s)\<lparr>d_output_chunks := cs\<rparr>)) =
      Inr (rows_matching (\<lambda>r. rr_request_id r = k) (d_requests (st_db s)))" for flag cs
    using unique by (auto simp: update_output_def list_all_iff)
  show ?thesis
    using get ins upd [of _ "d_output_chunks (st_db s) @ [?row]"] upd [of _ "d_output_chunks (st_db s)"] quiet assms(6)
    by (cases "?kept = []"; cases "rr_output_truncated r = 0")
      (auto simp: AppendOutput_def Get_def and_then_def state_get_def ret_def Let_def bind_u64_def stmt_quiet case_prod_unfold)
qed

text \<open>Whatever becomes of it, appending leaves a running request running.\<close>

definition row_core :: "request_row \<Rightarrow> req_status \<times> json" where
  "row_core r = (rr_status r, rr_request_json r)"

definition rest_alike :: "string \<Rightarrow> db \<Rightarrow> db \<Rightarrow> bool" where
  "rest_alike k d e \<longleftrightarrow> d_approvals e = d_approvals d \<and> d_executions e = d_executions d
     \<and> map_option row_core (request_at k e) = map_option row_core (request_at k d)"

interpretation rest: table_effect "rest_alike k" for k
  by unfold_locales (auto simp: rest_alike_def)

lemma rest_AppendOutput: "within (on_db (rest_alike k)) (AppendOutput sizes j sequence stream data limit)"
proof -
  have "within (rest_alike k) (insert_chunk c)" "within (rest_alike k) (update_output n flag i)" for c n flag i
    by (rule withinI, auto simp: rest_alike_def insert_chunk_def update_output_def lookup_by_update_where row_core_def
        option.map_comp comp_def intro!: map_option_cong)+
  then show ?thesis
    unfolding AppendOutput_def bind_u64_def Let_def by (intro rest.op_effects rest.Get_within)
qed

lemma running_core:
  "running k q s \<longleftrightarrow> quiet s \<and> db_ok (st_db s) \<and> approval_at k (st_db s) \<noteq> None \<and> execution_at k (st_db s) \<noteq> None
     \<and> (\<exists>json. map_option row_core (request_at k (st_db s)) = Some (Executing, json) \<and> dec_execution_request json = Inr q)"
  by (auto simp: running_def row_core_def)

lemma running_AppendOutput:
  assumes "running k q s"
  shows "running k q (snd (AppendOutput sizes j sequence stream data limit s))"
  using assms rest.on_db_effect [OF rest_AppendOutput, of k s sizes j sequence stream data limit]
    keepsD [OF quiet_ops(15), of s sizes j sequence stream data limit]
    ok.on_db_effect [OF ok.AppendOutput_within, of s sizes j sequence stream data limit]
  by (auto simp: running_core rest_alike_def db_inv_def)

lemma kept_output_room:
  assumes "0 \<le> used" "used \<le> limit" "int64_range limit"
    and "\<And>j. j \<le> nat limit \<Longrightarrow> hasCapacity sizes (int j + 4096) m"
  shows "kept_output sizes m used limit data = take (nat (limit - used)) data"
proof -
  have "wrap64 (limit - used) = limit - used"
    using assms by (intro wrap64_id) (simp add: int64_range_def)
  moreover have "(if int (length data) > limit - used then take (nat (limit - used)) data else data) = take (nat (limit - used)) data"
    by simp
  moreover have "length (take (nat (limit - used)) data) \<le> nat limit"
    using assms(1,2) by simp
  ultimately show ?thesis
    using assms by (simp add: kept_output_def Let_def)
qed

lemma AppendOutput_captures:
  assumes run: "running k q s" and cap: "captured k limit n out (st_db s)"
    and limit: "int64_range (int limit)" and n: "n < 2 ^ 63"
    and room: "\<And>j. j \<le> limit \<Longrightarrow> hasCapacity sizes (int j + 4096) (st_maxBytes s)"
    and t: "t = snd (AppendOutput sizes k (word_of_nat n) stream data (int limit) s)"
  shows "running k q t" "captured k limit (Suc n) (out @ [(stream, data)]) (st_db t)" "st_maxBytes t = st_maxBytes s"
proof -
  have seq: "uint (word_of_nat n :: u64) = int n"
    using n by (simp add: unsigned_of_nat take_bit_eq_mod)
  obtain r where r: "request_at k (st_db s) = Some r" "rr_output_bytes r = int (min limit (written out))"
    "rr_output_truncated r \<noteq> 0 \<longleftrightarrow> limit < written out"
    using cap by (auto simp: captured_def)
  have fresh: "(k, int n) \<notin> chunk_key ` set (d_output_chunks (st_db s))"
    using cap by (auto simp: captured_def chunks_at_def chunk_key_def)
  obtain x where x: "fst (AppendOutput sizes k (word_of_nat n) stream data (int limit) s) = Inr x"
    using AppendOutput_runs [OF run r(1) _ _ limit] r(2) fresh seq n by fastforce
  obtain tr stored where res: "AppendOutput sizes k (word_of_nat n) stream data (int limit) s = (Inr (tr, stored), t)"
    using x t by (metis prod.collapse)
  show "running k q t" unfolding t by (rule running_AppendOutput [OF run])
  show "st_maxBytes t = st_maxBytes s"
    using withinD [where s = s, OF rest_AppendOutput, of k sizes k "word_of_nat n" stream data "int limit"] t
    by (simp add: on_db_def)
  show "captured k limit (Suc n) (out @ [(stream, data)]) (st_db t)"
    using res
  proof (cases rule: AppendOutput_Inr)
    case (truncated r')
    then show ?thesis
      using cap r by (auto simp: captured_def cut_append)
  next
    case (appended r')
    then have r': "r' = r" "rr_output_truncated r = 0" using r(1) by auto
    then have le: "written out \<le> limit" using r(3) by auto
    have stored: "stored = take (limit - written out) data"
      using appended(3) r' r(2) le limit room
      by (simp add: kept_output_room [of "int (written out)" "int limit"] nat_diff_distrib')
    have "chunks_at k (st_db t) = chunks_at k (st_db s) @ (if stored = [] then [] else
         [\<lparr>cr_request_id = k, cr_sequence = int n, cr_stream = stream, cr_data = stored\<rparr>])"
      using appended(5) seq by (simp add: chunks_at_def)
    moreover have "cut limit (out @ [(stream, data)]) = cut limit out @ (if stored = [] then [] else [(stream, stored)])"
      by (simp add: cut_append stored)
    ultimately show ?thesis
      using cap r' r(2) le appended(4,6) stored
      by (auto simp: captured_def sorted_wrt_append boolInt_def less_Suc_eq)
  qed
qed

end
