(* ===== verification/Daemon_Progress.thy ===== *)
theory Daemon_Progress
  imports Daemon_Example Output_Capture
begin

section \<open>An approved request is run to its end\<close>

text \<open>
  The other half of \<open>Daemon_Safety\<close>: when nothing stands against it, \<open>execute\<close> does start the approved
  program, the request ends with the outcome of the process, and its output is stored up to the limit. The
  others may use the store meanwhile, for other requests.
\<close>

subsection \<open>Accesses to the store\<close>

text \<open>The others spare the request: up to its start, at the access 4, they expire nothing before its time has come.\<close>

definition beside :: "string \<Rightarrow> string option \<Rightarrow> world \<Rightarrow> bool" where
  "beside k expires w \<longleftrightarrow> (\<forall>i. list_all (spares (w_sf w) k (if i < 5 then expires else None)) (w_env w i))"

lemma beside_None: "beside k None w \<longleftrightarrow> (\<forall>i. list_all (spares (w_sf w) k None) (w_env w i))"
  by (simp add: beside_def)

lemma beside_access:
  "beside k expires w \<Longrightarrow> 5 \<le> i \<Longrightarrow> list_all (spares (w_sf w) k None) (w_env w i)"
  "beside k expires w \<Longrightarrow> i < 5 \<Longrightarrow> list_all (spares (w_sf w) k expires) (w_env w i)"
  unfolding beside_def by (metis linorder_not_le)+

lemma on_store_calm:
  assumes "list_all (spares (w_sf w) k expires) (w_env w i)" and "quiet (sv_Store sv)" and "db_ok (st_db (sv_Store sv))"
    and "standing k expires (st_db (sv_Store sv))"
  obtains s where "undisturbed k (sv_Store sv) s" "\<And>m :: 'a store_op. on_store w i m sv = (fst (m s), sv\<lparr>sv_Store := snd (m s)\<rparr>)"
proof
  show "undisturbed k (sv_Store sv) (run_calls (w_sf w) (w_env w i) (sv_Store sv))"
    using assms by (intro run_calls_undisturbed) simp_all
  show "on_store w i m sv = (fst (m (run_calls (w_sf w) (w_env w i) (sv_Store sv))),
      sv\<lparr>sv_Store := snd (m (run_calls (w_sf w) (w_env w i) (sv_Store sv)))\<rparr>)" for m :: "'a store_op"
    by (simp add: on_store_def case_prod_unfold)
qed

subsection \<open>Draining the streams\<close>

text \<open>An invariant of the writes that the others do not disturb and an append keeps.\<close>

lemma drain_keeps:
  assumes "beside k expires w" and "running k q (sv_Store sv)" and "P n out (sv_Store sv)"
    and apart: "\<And>n out s t. P n out s \<Longrightarrow> undisturbed k s t \<Longrightarrow> P n out t"
    and step: "\<And>n out s stream data. n < N \<Longrightarrow> running k q s \<Longrightarrow> P n out s \<Longrightarrow> P (Suc n) (out @ [(stream, data)])
        (snd (AppendOutput (w_sizes w n) k (word_of_nat n) stream data (out_PersistedBytes (cf_Output cfg)) s))"
    and "n + length chunks \<le> N"
  shows "\<exists>s. drain w cfg k n chunks sv = (Inr (), sv\<lparr>sv_Store := s\<rparr>) \<and> running k q s
    \<and> P (n + length chunks) (out @ chunks) s"
  using assms(2,3,6)
proof (induction chunks arbitrary: n out sv)
  case (Cons c chunks)
  obtain stream data where c: "c = (stream, data)" by fastforce
  let ?m = "AppendOutput (w_sizes w n) k (word_of_nat n) stream data (out_PersistedBytes (cf_Output cfg))"
  obtain s where s: "undisturbed k (sv_Store sv) s"
    and call: "\<And>m :: (bool \<times> bytes) store_op. on_store w (6 + n) m sv = (fst (m s), sv\<lparr>sv_Store := snd (m s)\<rparr>)"
    by (rule on_store_calm [OF beside_access(1) [OF assms(1), of "6 + n"]]) (use running_standing [OF Cons.prems(1)] in auto)
  let ?sv = "sv\<lparr>sv_Store := snd (?m s)\<rparr>"
  have run: "running k q s" by (rule running_undisturbed [OF s Cons.prems(1)])
  have now: "running k q (sv_Store ?sv)" using running_AppendOutput [OF run] by simp
  have inv: "P (Suc n) (out @ [(stream, data)]) (sv_Store ?sv)"
    using step [of n s out] run apart [OF Cons.prems(2) s] Cons.prems(3) by simp
  have len: "Suc n + length chunks \<le> N" using Cons.prems(3) by simp
  show ?case
    using Cons.IH [OF now inv len] call
    by (simp add: c and_then_def ignoring_def attempt_def ret_def)
next
  case Nil
  then show ?case by (intro exI [of _ "sv_Store sv"]) (simp add: ret_def)
qed

lemma running_drain:
  assumes "beside k expires w" and "running k q (sv_Store sv)"
  shows "\<exists>s. drain w cfg k n chunks sv = (Inr (), sv\<lparr>sv_Store := s\<rparr>) \<and> running k q s"
  using drain_keeps [where P = "\<lambda>n out s. True" and n = n and N = "n + length chunks" and chunks = chunks and cfg = cfg,
      OF assms] by simp

lemma captured_drain:
  assumes "beside k expires w" and "running k q (sv_Store sv)"
    and "captured k limit 0 [] (st_db (sv_Store sv))" and "out_PersistedBytes (cf_Output cfg) = int limit"
    and "int64_range (int limit)" and "length chunks \<le> 2 ^ 63"
    and "\<And>i j. j \<le> limit \<Longrightarrow> hasCapacity (w_sizes w i) (int j + 4096) (st_maxBytes (sv_Store sv))"
  shows "\<exists>s. drain w cfg k 0 chunks sv = (Inr (), sv\<lparr>sv_Store := s\<rparr>) \<and> running k q s
    \<and> captured k limit (length chunks) chunks (st_db s)"
proof -
  let ?P = "\<lambda>n out s. captured k limit n out (st_db s) \<and> st_maxBytes s = st_maxBytes (sv_Store sv)"
  have "\<exists>s. drain w cfg k 0 chunks sv = (Inr (), sv\<lparr>sv_Store := s\<rparr>) \<and> running k q s \<and> ?P (0 + length chunks) ([] @ chunks) s"
  proof (rule drain_keeps [OF assms(1,2)])
    show "?P 0 [] (sv_Store sv)" using assms(3) by simp
    show "?P n out t" if "?P n out s" "undisturbed k s t" for n out s t
      using that captured_alike by (auto simp: undisturbed_def)
    show "?P (Suc n) (out @ [(stream, data)])
        (snd (AppendOutput (w_sizes w n) k (word_of_nat n) stream data (out_PersistedBytes (cf_Output cfg)) s))"
      if "n < 2 ^ 63" "running k q s" "?P n out s" for n out s stream data
      using AppendOutput_captures [OF that(2) _ assms(5) that(1) _ refl, of out "w_sizes w n" stream data] that assms(4,7) by simp
  qed (use assms(6) in simp)
  then show ?thesis by auto
qed

subsection \<open>Start and end\<close>

lemma BeginExecution_running:
  assumes "BeginExecution k Approved t1 t2 s = (Inr (), s')" and "quiet s" and "db_ok (st_db s)"
    and "request_at k (st_db s) = Some row" and "stored_of row = Inr item"
  shows "running k (sr_Request item) s'"
proof -
  have silent: "quiet s'" using keepsD [OF quiet_ops(12) assms(2), of k Approved t1 t2] assms(1) by simp
  have ok: "db_ok (st_db s')"
    using ok.on_db_effect [OF ok.BeginExecution_within, of s k Approved t1 t2] assms(1,3) by (simp add: db_inv_def)
  have "dec_execution_request (rr_request_json row) = Inr (sr_Request item)"
    using assms(5) by (auto simp: stored_of_def res_bind_Inr)
  with silent ok show ?thesis
    by (auto intro: BeginExecution_Approved [OF assms(1,3)] simp: running_def assms(4))
qed

lemma FinishExecution_runs:
  assumes "running k q s"
  shows "fst (FinishExecution k exitCode signal t s) = Inr ()"
proof -
  obtain r where r: "request_at k (st_db s) = Some r" "rr_status r = Executing"
    "dec_execution_request (rr_request_json r) = Inr q"
    using assms by (auto simp: running_def)
  obtain c where c: "stored_of r = Inr c" using r(3) by (simp add: stored_of_def)
  have "transition k (if exitCode = Some 0 then Succeeded else Failed) (Some Executing) s =
      (Inr (), s\<lparr>st_db := set_status k (if exitCode = Some 0 then Succeeded else Failed) (st_db s)\<rparr>)"
    using assms r(2) by (intro transition_quiet [OF _ _ r(1) c]) (simp_all add: running_def quiet_def)
  then show ?thesis
    using assms by (simp add: FinishExecution_def transaction_def transaction_quiet running_def quiet_def and_then_def
        stmt_quiet ret_def update_executions_def)
qed

text \<open>Neither touches the output.\<close>

definition same_chunks :: "db \<Rightarrow> db \<Rightarrow> bool" where
  "same_chunks d e \<longleftrightarrow> d_output_chunks e = d_output_chunks d"

interpretation chunks: table_effect same_chunks
  by unfold_locales (auto simp: same_chunks_def)

lemma same_chunks_statements:
  "within same_chunks (update_status nx p)" "within same_chunks (insert_execution x)" "within same_chunks (update_consumed at j)"
  "within same_chunks (update_executions q f)"
  by (rule withinI, simp add: same_chunks_def update_status_def insert_execution_def update_consumed_def update_executions_def)+

lemma same_chunks_transition: "within (on_db same_chunks) (transition k nx ex)"
  unfolding transition_def by (intro chunks.op_effects chunks.getFrom_within same_chunks_statements)

lemma same_chunks_BeginExecution: "within (on_db same_chunks) (BeginExecution k ex t1 t2)"
  unfolding BeginExecution_def transaction_def by (intro chunks.op_effects same_chunks_transition same_chunks_statements)

lemma same_chunks_FinishExecution: "within (on_db same_chunks) (FinishExecution k exitCode signal t)"
  unfolding FinishExecution_def transaction_def by (intro chunks.op_effects same_chunks_transition same_chunks_statements)

text \<open>The end of an execution leaves the decision.\<close>

definition same_decisions :: "db \<Rightarrow> db \<Rightarrow> bool" where
  "same_decisions d e \<longleftrightarrow> d_approvals e = d_approvals d"

interpretation decisions: table_effect same_decisions
  by unfold_locales (auto simp: same_decisions_def)

lemma same_decisions_FinishExecution: "within (on_db same_decisions) (FinishExecution k exitCode signal t)"
proof -
  have "within same_decisions (update_status nx p)" "within same_decisions (update_executions q f)" for nx p q f
    by (rule withinI, simp add: same_decisions_def update_status_def update_executions_def)+
  then show ?thesis
    unfolding FinishExecution_def transaction_def transition_def
    by (intro decisions.op_effects decisions.getFrom_within)
qed

definition outcome :: "child_run \<Rightarrow> req_status" where
  "outcome c = (if recorded_exit c = Some 0 then Succeeded else Failed)"

definition ended :: "string \<Rightarrow> execution_request \<Rightarrow> child_run \<Rightarrow> store \<Rightarrow> bool" where
  "ended k q c s \<longleftrightarrow> quiet s \<and> db_ok (st_db s) \<and> approval_at k (st_db s) \<noteq> None
    \<and> (\<exists>r. request_at k (st_db s) = Some r \<and> rr_status r = outcome c \<and> dec_execution_request (rr_request_json r) = Inr q)
    \<and> (\<exists>x. execution_at k (st_db s) = Some x \<and> xr_exit_code x = recorded_exit c \<and> xr_signal x = nullable (recorded_signal c))"

lemma FinishExecution_ended:
  assumes s: "running k q s" and f: "FinishExecution k (recorded_exit c) (recorded_signal c) t s = (Inr (), s')"
  shows "ended k q c s' \<and> chunks_at k (st_db s') = chunks_at k (st_db s)"
proof -
  have ok: "db_ok (st_db s)" and x: "execution_at k (st_db s) \<noteq> None" "approval_at k (st_db s) \<noteq> None"
    and r: "\<And>r. request_at k (st_db s) = Some r \<Longrightarrow> dec_execution_request (rr_request_json r) = Inr q"
    using s by (auto simp: running_def)
  have "chunks_at k (st_db s') = chunks_at k (st_db s)" "d_approvals (st_db s') = d_approvals (st_db s)"
    using chunks.on_db_effect [OF same_chunks_FinishExecution, of s k "recorded_exit c" "recorded_signal c" t] f
      decisions.on_db_effect [OF same_decisions_FinishExecution, of s k "recorded_exit c" "recorded_signal c" t]
    by (simp_all add: same_chunks_def chunks_at_def same_decisions_def)
  moreover have "quiet s'"
    using keepsD [OF quiet_ops(13), of s k "recorded_exit c" "recorded_signal c" t] s f by (simp add: running_def)
  moreover have "db_ok (st_db s')"
    using ok.on_db_effect [OF ok.FinishExecution_within, of s k "recorded_exit c" "recorded_signal c" t] ok f by (simp add: db_inv_def)
  ultimately show ?thesis
    using x by (auto intro: FinishExecution_Inr [OF f ok] simp: outcome_def ended_def r)
qed

lemma run_child_ends:
  assumes "beside k expires w" and "la_RequestID la = k"
    and drained: "drain w cfg k 0 (ch_output c) (sv\<lparr>sv_launched := sv_launched sv @ [la]\<rparr>) = (Inr (), u)"
    and u: "running k q (sv_Store u)"
    and run: "run_child w cfg (Runs c) la sv = (r, t)"
  shows "ended k q c (sv_Store t) \<and> chunks_at k (st_db (sv_Store t)) = chunks_at k (st_db (sv_Store u))"
proof -
  obtain s where s: "undisturbed k (sv_Store u) s"
    and call: "\<And>m :: unit store_op. on_store w 5 m u = (fst (m s), u\<lparr>sv_Store := snd (m s)\<rparr>)"
    by (rule on_store_calm [OF beside_access(1) [OF assms(1), of 5]]) (use running_standing [OF u] in auto)
  have now: "running k q s" by (rule running_undisturbed [OF s u])
  let ?F = "FinishExecution k (recorded_exit c) (recorded_signal c) (w_now w 4) s"
  have f: "?F = (Inr (), snd ?F)"
    using FinishExecution_runs [OF now] by (metis prod.collapse)
  have t: "sv_Store t = snd ?F"
    using drained call run by (auto simp: run_child_def assms(2) finish_def and_then_def state_upd_def ignoring_def attempt_def ret_def)
  show ?thesis
    using FinishExecution_ended [OF now f] s by (simp add: t undisturbed_def alike_def)
qed

subsection \<open>execute\<close>

text \<open>The steps to the start of the process, each after whatever the others did.\<close>

lemma calm_step:
  assumes "list_all (spares (w_sf w) k expires) (w_env w i)" and "standing k expires (st_db s0)" and "undisturbed k s0 (sv_Store v)"
  obtains s where "undisturbed k s0 s" "on_store w i m v = (fst (m s), v\<lparr>sv_Store := snd (m s)\<rparr>)"
proof -
  have "standing k expires (st_db (sv_Store v))" using assms(2,3) alike_standing by (auto simp: undisturbed_def)
  moreover have "quiet (sv_Store v)" "db_ok (st_db (sv_Store v))" using assms(3) by (simp_all add: undisturbed_def)
  ultimately obtain s where "undisturbed k (sv_Store v) s" "on_store w i m v = (fst (m s), v\<lparr>sv_Store := snd (m s)\<rparr>)"
    using on_store_calm [OF assms(1), of v] by blast
  moreover from this have "undisturbed k s0 s"
    using assms(3) alike.tab_trans [of k "st_db s0" "st_db (sv_Store v)" "st_db s"] by (simp add: undisturbed_def)
  ultimately show thesis using that by blast
qed

lemma execute_starts:
  assumes q: "quiet (sv_Store sv)" and others: "beside k (Some (rr_expires_at row)) w"
    and ok: "db_ok (st_db (sv_Store sv))" and free: "k \<notin> sv_executing sv"
    and row: "request_at k (st_db (sv_Store sv)) = Some row" "stored_of row = Inr item" "rr_status row = Approved"
    and approval: "approval_at k (st_db (sv_Store sv)) = Some a" "ar_consumed_at a = None"
      "dec_approval (ar_approval_json a) = Inr app" "approval_binds item (Inr (Some app))"
    and idle: "execution_at k (st_db (sv_Store sv)) = None"
    and valid: "not_expired item (w_now w 0)" "\<not> hash_mismatch (w_jcs w) item"
      "check_policy_and_files w cfg (sr_Request item) = Proceed executable directory interpreter environment"
    and run: "execute w cfg (Runs c) k sv = (r, t)"
    and la: "la = \<lparr>la_RequestID = k, la_Args = helper_arguments (sr_Request item), la_Env = environment,
      la_Executable = executable, la_Directory = directory, la_Interpreter = interpreter\<rparr>"
  obtains s u where "running k (sr_Request item) s" "chunks_at k (st_db s) = chunks_at k (st_db (sv_Store sv))"
    "request_at k (st_db s) = Some (row\<lparr>rr_status := Executing\<rparr>)" "st_maxBytes s = st_maxBytes (sv_Store sv)"
    "run_child w cfg (Runs c) la (sv\<lparr>sv_executing := insert k (sv_executing sv), sv_Store := s\<rparr>) = (r, u)"
    "t = u\<lparr>sv_executing := sv_executing u - {k}\<rparr>"
proof -
  let ?x = "Some (rr_expires_at row)" and ?sv = "sv\<lparr>sv_executing := insert k (sv_executing sv)\<rparr>"
  have st: "standing k ?x (st_db (sv_Store sv))" using row approval by (simp add: standing_def stands_def)
  have start: "undisturbed k (sv_Store sv) (sv_Store ?sv)" using q ok by (simp add: undisturbed_def alike.tab_refl)
  obtain s0 where s0: "undisturbed k (sv_Store sv) s0"
    and 0: "on_store w 0 (Get k) ?sv = (fst (Get k s0), ?sv\<lparr>sv_Store := snd (Get k s0)\<rparr>)"
    by (rule calm_step [OF beside_access(2) [OF others, of 0] st start]) simp_all
  then have get: "on_store w 0 (Get k) ?sv = (Inr (Some item), ?sv\<lparr>sv_Store := s0\<rparr>)"
    using row by (simp add: Get_def getFrom_quiet undisturbed_def quiet_def alike_def)
  let ?got = "?sv\<lparr>sv_Store := s0\<rparr>"
  have start0: "undisturbed k (sv_Store sv) (sv_Store ?got)" using s0 by simp
  obtain s1 where s1: "undisturbed k (sv_Store sv) s1"
    and 1: "on_store w 1 (ApprovalFor k) ?got = (fst (ApprovalFor k s1), ?got\<lparr>sv_Store := snd (ApprovalFor k s1)\<rparr>)"
    by (rule calm_step [OF beside_access(2) [OF others, of 1] st start0]) simp_all
  then have found: "on_store w 1 (ApprovalFor k) ?got = (Inr (Some app), ?got\<lparr>sv_Store := s1\<rparr>)"
    using approval by (simp add: ApprovalFor_def and_then_def select_quiet lift_res_def ret_def undisturbed_def quiet_def alike_def)
  let ?found = "?got\<lparr>sv_Store := s1\<rparr>" and ?B = "BeginExecution k Approved (w_now w 2) (w_now w 3)"
  have start1: "undisturbed k (sv_Store sv) (sv_Store ?found)" using s1 by simp
  obtain s2 where s2: "undisturbed k (sv_Store sv) s2" and 2: "on_store w 4 ?B ?found = (fst (?B s2), ?found\<lparr>sv_Store := snd (?B s2)\<rparr>)"
    by (rule calm_step [OF beside_access(2) [OF others, of 4] st start1]) simp_all
  then have rows: "st_faults s2 = []" "db_ok (st_db s2)" "request_at k (st_db s2) = Some row" "approval_at k (st_db s2) = Some a"
    "execution_at k (st_db s2) = None"
    using row approval idle by (simp_all add: undisturbed_def quiet_def alike_def)
  obtain s where begun: "?B s2 = (Inr (), s)"
    using BeginExecution_starts [OF rows(1-3) row(2,3) rows(4) approval(2) rows(5)] by (metis prod.collapse)
  obtain q u where child: "run_child w cfg (Runs c) la (?found\<lparr>sv_Store := s\<rparr>) = (q, u)" by fastforce
  have "execute_body w cfg (Runs c) k ?sv = (q, u)"
    using get found 2 child begun valid approval(4) la
    by (simp add: execute_body_def start_approved_def and_then_def attempt_def)
  then have t: "r = q" "t = u\<lparr>sv_executing := sv_executing u - {k}\<rparr>"
    using free run by (simp_all add: execute_def finally_do_def)
  have "request_at k (st_db s) = Some (row\<lparr>rr_status := Executing\<rparr>)"
    by (rule BeginExecution_Approved [OF begun rows(2)]) (use rows in auto)
  moreover have "running k (sr_Request item) s"
    by (rule BeginExecution_running [OF begun _ rows(2,3) row(2)]) (use rows in \<open>simp add: quiet_def\<close>)
  moreover have "chunks_at k (st_db s) = chunks_at k (st_db (sv_Store sv))"
    using chunks.on_db_effect [OF same_chunks_BeginExecution, of s2 k Approved "w_now w 2" "w_now w 3"] begun s2
    by (simp add: same_chunks_def chunks_at_def undisturbed_def alike_def)
  moreover have "st_maxBytes s = st_maxBytes (sv_Store sv)"
    using maxBytes_kept [OF anything.BeginExecution_within, of k Approved "w_now w 2" "w_now w 3" s2] begun s2
    by (simp add: undisturbed_def)
  ultimately show thesis using that child t by simp
qed

lemma execute_ends:
  assumes "quiet (sv_Store sv)" and "beside k (Some (rr_expires_at row)) w" and "db_ok (st_db (sv_Store sv))"
    and "k \<notin> sv_executing sv"
    and "request_at k (st_db (sv_Store sv)) = Some row" and "stored_of row = Inr item" and "rr_status row = Approved"
    and "approval_at k (st_db (sv_Store sv)) = Some a" and "ar_consumed_at a = None"
    and "dec_approval (ar_approval_json a) = Inr app" and "approval_binds item (Inr (Some app))"
    and "execution_at k (st_db (sv_Store sv)) = None"
    and "not_expired item (w_now w 0)" and "\<not> hash_mismatch (w_jcs w) item"
    and "check_policy_and_files w cfg (sr_Request item) = Proceed executable directory interpreter environment"
    and "execute w cfg (Runs c) k sv = (r, t)"
    and "la = \<lparr>la_RequestID = k, la_Args = helper_arguments (sr_Request item), la_Env = environment,
      la_Executable = executable, la_Directory = directory, la_Interpreter = interpreter\<rparr>"
  shows "sv_launched t = sv_launched sv @ [la] \<and> k \<notin> sv_executing t \<and> ended k (sr_Request item) c (sv_Store t)"
proof -
  obtain s u where s: "running k (sr_Request item) s"
    and child: "run_child w cfg (Runs c) la (sv\<lparr>sv_executing := insert k (sv_executing sv), sv_Store := s\<rparr>) = (r, u)"
    and t: "t = u\<lparr>sv_executing := sv_executing u - {k}\<rparr>"
    by (rule execute_starts [OF assms])
  let ?sv = "sv\<lparr>sv_executing := insert k (sv_executing sv), sv_Store := s\<rparr>"
  obtain s' where d: "drain w cfg k 0 (ch_output c) (?sv\<lparr>sv_launched := sv_launched ?sv @ [la]\<rparr>)
      = (Inr (), ?sv\<lparr>sv_launched := sv_launched ?sv @ [la], sv_Store := s'\<rparr>)" "running k (sr_Request item) s'"
    using running_drain [OF assms(2), of "sr_Request item" "?sv\<lparr>sv_launched := sv_launched ?sv @ [la]\<rparr>" cfg 0 "ch_output c"] s by auto
  have la: "la_RequestID la = k" by (simp add: assms(17))
  have "ended k (sr_Request item) c (sv_Store u)"
    using run_child_ends [OF assms(2) la d(1) _ child] d(2) by simp
  moreover have "sv_launched u = sv_launched sv @ [la]"
    using run_child_launches [of w cfg "Runs c" la ?sv] child by simp
  ultimately show ?thesis by (simp add: t ended_def)
qed

text \<open>(C9) An approved request is run to its end. When the request is approved, not expired and unaltered, its stored
  approval binds it and was not used, and the policy and the files still permit it, and when no statement
  fails and the others use the store only for other requests, expiring none early, \<open>execute\<close> starts exactly one process, the approved one; the
  request then ends as succeeded or failed with the exit code and signal of the process recorded.\<close>

theorem execute_completes:
  assumes "quiet (sv_Store sv)" and "beside k (Some (rr_expires_at row)) w" and "db_ok (st_db (sv_Store sv))"
    and "k \<notin> sv_executing sv"
    and "request_at k (st_db (sv_Store sv)) = Some row" and "stored_of row = Inr item" and "rr_status row = Approved"
    and "approval_at k (st_db (sv_Store sv)) = Some a" and "ar_consumed_at a = None"
    and "dec_approval (ar_approval_json a) = Inr app" and "approval_binds item (Inr (Some app))"
    and "execution_at k (st_db (sv_Store sv)) = None"
    and "not_expired item (w_now w 0)" and "\<not> hash_mismatch (w_jcs w) item"
    and "check_policy_and_files w cfg (sr_Request item) = Proceed executable directory interpreter environment"
    and "execute w cfg (Runs c) k sv = (r, t)"
  shows "sv_launched t = sv_launched sv @ [\<lparr>la_RequestID = k, la_Args = helper_arguments (sr_Request item),
        la_Env = environment, la_Executable = executable, la_Directory = directory, la_Interpreter = interpreter\<rparr>]
    \<and> k \<notin> sv_executing t
    \<and> map_option rr_status (request_at k (st_db (sv_Store t))) =
        Some (if recorded_exit c = Some 0 then Succeeded else Failed)
    \<and> (\<exists>x. execution_at k (st_db (sv_Store t)) = Some x \<and> xr_exit_code x = recorded_exit c
        \<and> xr_signal x = nullable (recorded_signal c))"
  using execute_ends [OF assms refl] by (auto simp: ended_def outcome_def)

lemma execute_output:
  assumes "quiet (sv_Store sv)" and "beside k (Some (rr_expires_at row)) w" and "db_ok (st_db (sv_Store sv))"
    and "k \<notin> sv_executing sv"
    and "request_at k (st_db (sv_Store sv)) = Some row" and "stored_of row = Inr item" and "rr_status row = Approved"
    and "approval_at k (st_db (sv_Store sv)) = Some a" and "ar_consumed_at a = None"
    and "dec_approval (ar_approval_json a) = Inr app" and "approval_binds item (Inr (Some app))"
    and "execution_at k (st_db (sv_Store sv)) = None"
    and "not_expired item (w_now w 0)" and "\<not> hash_mismatch (w_jcs w) item"
    and "check_policy_and_files w cfg (sr_Request item) = Proceed executable directory interpreter environment"
    and "execute w cfg (Runs c) k sv = (r, t)"
    and "chunks_at k (st_db (sv_Store sv)) = []" and "rr_output_bytes row = 0" and "rr_output_truncated row = 0"
    and "out_PersistedBytes (cf_Output cfg) = int limit" and "int64_range (int limit)" and "length (ch_output c) \<le> 2 ^ 63"
    and "\<And>i j. j \<le> limit \<Longrightarrow> hasCapacity (w_sizes w i) (int j + 4096) (st_maxBytes (sv_Store sv))"
  shows "map (\<lambda>c. (cr_stream c, cr_data c)) (chunks_from k 0 (st_db (sv_Store t))) = cut limit (ch_output c)"
proof -
  let ?la = "\<lparr>la_RequestID = k, la_Args = helper_arguments (sr_Request item), la_Env = environment,
      la_Executable = executable, la_Directory = directory, la_Interpreter = interpreter\<rparr>"
  obtain s u where s: "running k (sr_Request item) s" "chunks_at k (st_db s) = chunks_at k (st_db (sv_Store sv))"
    "request_at k (st_db s) = Some (row\<lparr>rr_status := Executing\<rparr>)" "st_maxBytes s = st_maxBytes (sv_Store sv)"
    and child: "run_child w cfg (Runs c) ?la (sv\<lparr>sv_executing := insert k (sv_executing sv), sv_Store := s\<rparr>) = (r, u)"
    and t: "t = u\<lparr>sv_executing := sv_executing u - {k}\<rparr>"
    by (rule execute_starts [OF assms(1-16) refl])
  let ?sv = "sv\<lparr>sv_executing := insert k (sv_executing sv), sv_Store := s\<rparr>"
  let ?begun = "?sv\<lparr>sv_launched := sv_launched ?sv @ [?la]\<rparr>"
  have "captured k limit 0 [] (st_db s)"
    using s assms(17-19) by (simp add: captured_def)
  then obtain s' where d: "drain w cfg k 0 (ch_output c) ?begun = (Inr (), ?begun\<lparr>sv_Store := s'\<rparr>)"
    "running k (sr_Request item) s'" "captured k limit (length (ch_output c)) (ch_output c) (st_db s')"
    using captured_drain [OF assms(2), of "sr_Request item" ?begun limit cfg "ch_output c"] s assms(20-23) by auto
  have "chunks_at k (st_db (sv_Store u)) = chunks_at k (st_db s')"
    using run_child_ends [OF assms(2) _ d(1) _ child] d(2) by simp
  then show ?thesis
    using captured_chunks [OF d(3)] by (simp add: t chunks_from_at)
qed


subsection \<open>An execution beside other handlers\<close>

definition busy_world :: world where
  "busy_world = run_world\<lparr>w_env := (\<lambda>i. [CallExpireOutstanding 0, CallTransition ''r2'' Cancelled None, CallPruneUnapproved 0 5])\<rparr>"

definition chatty_run :: child_run where
  "chatty_run = \<lparr>ch_output = [(''stdout'', ''hello''), (''stderr'', ''!'')], ch_exited = Some 3, ch_signaled = None,
     ch_waitErr = True, ch_timedOut = False\<rparr>"

lemma busy_world_simps [simp]:
  "w_jcs busy_world = w_jcs run_world" "w_now busy_world = w_now run_world" "w_sizes busy_world i = []" "w_sf busy_world = example_sf"
  "w_fs busy_world = w_fs run_world" "w_policy busy_world = w_policy run_world"
  by (simp_all add: busy_world_def) (simp_all add: run_world_def)

lemma busy_checks: "check_policy_and_files busy_world cfg q = check_policy_and_files run_world cfg q"
  unfolding check_policy_and_files_def busy_world_simps ..

lemma run_not_due: "\<not> due example_sf (rr_expires_at (run_row st)) 0"
  by (simp add: due_def run_row_def example_row_def example_sf_def now_text_readable example_expiry)

lemma busy_spares: "beside ''r1'' (Some (rr_expires_at (run_row Approved))) busy_world"
  using run_not_due by (simp add: beside_def busy_world_def run_world_def)

lemma busy_ready:
  "quiet (sv_Store (run_service Approved [run_approval_row]))"
  "beside ''r1'' (Some (rr_expires_at (run_row Approved))) busy_world"
  "db_ok (st_db (sv_Store (run_service Approved [run_approval_row])))"
  "''r1'' \<notin> sv_executing (run_service Approved [run_approval_row])"
  "request_at ''r1'' (st_db (sv_Store (run_service Approved [run_approval_row]))) = Some (run_row Approved)"
  "stored_of (run_row Approved) = Inr (run_item Approved)" "rr_status (run_row Approved) = Approved"
  "approval_at ''r1'' (st_db (sv_Store (run_service Approved [run_approval_row]))) = Some run_approval_row"
  "ar_consumed_at run_approval_row = None" "dec_approval (ar_approval_json run_approval_row) = Inr run_approval"
  "approval_binds (run_item Approved) (Inr (Some run_approval))"
  "execution_at ''r1'' (st_db (sv_Store (run_service Approved [run_approval_row]))) = None"
  "not_expired (run_item Approved) (w_now busy_world 0)" "\<not> hash_mismatch (w_jcs busy_world) (run_item Approved)"
  "check_policy_and_files busy_world run_config (sr_Request (run_item Approved)) =
     Proceed run_file run_directory None [''PATH='' @ safePath, ''HOME=/root'', ''LANG=C.UTF-8'']"
  using busy_spares run_approval_binds run_hash_matches
  by (simp_all add: quiet_def run_db_ok run_stored run_not_expired run_approval_decodes busy_checks run_checks)

lemma busy_runs:
  obtains r t where "execute busy_world run_config (Runs chatty_run) ''r1'' (run_service Approved [run_approval_row]) = (r, t)"
  by fastforce

theorem execute_completes_witness:
  "map_option rr_status (request_at ''r1'' (st_db (sv_Store
     (snd (execute busy_world run_config (Runs chatty_run) ''r1'' (run_service Approved [run_approval_row])))))) = Some Failed"
proof -
  obtain r t where run: "execute busy_world run_config (Runs chatty_run) ''r1'' (run_service Approved [run_approval_row]) = (r, t)"
    by (rule busy_runs)
  have "recorded_exit chatty_run = Some 3" by (simp add: recorded_exit_def chatty_run_def)
  with execute_completes [OF busy_ready run] run show ?thesis by simp
qed

lemma busy_output:
  "chunks_at ''r1'' (st_db (sv_Store (run_service Approved [run_approval_row]))) = []"
  "rr_output_bytes (run_row Approved) = 0" "rr_output_truncated (run_row Approved) = 0"
  "out_PersistedBytes (cf_Output run_config) = int 10485760" "int64_range (int 10485760)" "length (ch_output chatty_run) \<le> 2 ^ 63"
  "hasCapacity (w_sizes busy_world i) (int j + 4096) (st_maxBytes (sv_Store (run_service Approved [run_approval_row])))"
  by (simp_all add: chunks_at_def run_db_def example_db_def run_row_def example_row_def run_config_def default_config_def
      int64_range_def chatty_run_def hasCapacity_def run_service_def)


end
