(* ===== verification/Daemon_Approval.thy ===== *)
theory Daemon_Approval
  imports Daemon_Decide Daemon_Progress
begin

section \<open>From the approval to the end of the command\<close>

text \<open>
  The composition of \<open>decide\<close> and \<open>execute\<close>: after root approved a waiting request, the execution that \<open>decide\<close>
  spawns finds everything it needs, runs the command that was approved and records its outcome.
\<close>

text \<open>The checks of an execution do not look at the state.\<close>

lemma checks_any_status [simp]:
  "hash_mismatch jcs (item\<lparr>sr_Status := st\<rparr>) = hash_mismatch jcs item"
  "not_expired (item\<lparr>sr_Status := st\<rparr>) n = not_expired item n"
  by (simp_all add: hash_mismatch_def not_expired_def split: sum.split option.split)

text \<open>A reported approval of a request that was still waiting and undecided was made by this call.\<close>

lemma not_decided_before:
  assumes "approval_at (er_RequestID (sr_Request item)) (st_db (sv_Store sv)) = None" and "quiet (sv_Store sv)"
    and "w_env w i = []"
  shows "on_store w i (existingDecision item decision) sv = (Inr None, sv)"
  using assms by (simp add: on_store_def existingDecision_def ApprovalFor_def and_then_def select_quiet quiet_def ret_def)

lemma event_undisturbed:
  assumes "w_env w i = []" and "quiet (sv_Store sv)" and "db_ok (st_db (sv_Store sv))"
    and "ignoring (on_store w i (RecordSecurityEvent ty j hash detail t)) sv = (r, v)"
  shows "undisturbed k (sv_Store sv) (sv_Store v) \<and> v = sv\<lparr>sv_Store := sv_Store v\<rparr>"
proof -
  obtain q s where e: "RecordSecurityEvent ty j hash detail t (sv_Store sv) = (q, s)" by fastforce
  have v: "v = sv\<lparr>sv_Store := s\<rparr>"
    using assms(1,4) e by (simp add: ignoring_def and_then_def attempt_def on_store_def ret_def)
  have "quiet s" using keepsD [OF quiet_ops(18) assms(2), of ty j hash detail t] e by simp
  moreover have "db_ok (st_db s)"
    using ok.on_db_effect [OF ok.RecordSecurityEvent_within, of "sv_Store sv" ty j hash detail t] assms(3) e by (simp add: db_inv_def)
  moreover have "alike k (st_db (sv_Store sv)) (st_db s) \<and> st_maxBytes s = st_maxBytes (sv_Store sv)"
    using withinD [where s = "sv_Store sv", OF alike_ops(6), of k ty j hash detail t] e by (simp add: on_db_def)
  ultimately show ?thesis by (simp add: v undisturbed_def)
qed

lemma approve_waiting:
  assumes q: "quiet (sv_Store sv)" and ok: "db_ok (st_db (sv_Store sv))" and env: "\<And>i. w_env w i = []"
    and row: "request_at k (st_db (sv_Store sv)) = Some row" "stored_of row = Inr item" "rr_status row = Waiting"
    and k: "er_RequestID (sr_Request item) = k" "di_RequestId input = k"
    and undecided: "approval_at k (st_db (sv_Store sv)) = None"
    and actor: "requester_of ctx = Inr actor" and uuid: "UUID (w_uuid w) = Inr approvalID"
    and run: "decide w ctx input ''approve'' sv = (Inr response, sv')"
  defines "a \<equiv> make_approval actor item ''approve'' (TrimSpace (di_Reason input)) approvalID (w_now w 1)"
  shows "quiet (sv_Store sv') \<and> db_ok (st_db (sv_Store sv')) \<and> sv_executing sv' = sv_executing sv
    \<and> sv_launched sv' = sv_launched sv \<and> sv_spawned sv' = sv_spawned sv @ [k] \<and> \<not> hash_mismatch (w_jcs w) item
    \<and> request_at k (st_db (sv_Store sv')) = Some (row\<lparr>rr_status := Approved\<rparr>)
    \<and> approval_at k (st_db (sv_Store sv')) = Some (approval_row_of a (w_now w 2))
    \<and> execution_at k (st_db (sv_Store sv')) = execution_at k (st_db (sv_Store sv))"
proof -
  have root: "rootRequester ctx = Inr actor"
    using run actor by (cases "rootRequester ctx") (simp_all add: decide_def and_then_def lift_res_def rootRequester_Inr)
  let ?reason = "TrimSpace (di_Reason input)"
  note body = run [unfolded decide_def root and_then_lift_Inr Let_def]
  have "\<not> (length ?reason > 4096 \<or> contains_byte ?reason NUL)"
    using body by (auto simp: outcome_fail split: if_splits)
  note body = body [unfolded if_not_P [OF this] and_then_Inr]
  let ?st = "if expirable (w_sf w) (now_text (w_now w 0)) row then Expired else Waiting"
  obtain s1 where e: "on_store w 0 (ExpireOutstanding (w_sf w) (w_now w 0)) sv = (Inr (), sv\<lparr>sv_Store := s1\<rparr>)"
    and s1: "quiet s1" "st_db s1 = snd (update_status Expired (expirable (w_sf w) (now_text (w_now w 0))) (st_db (sv_Store sv)))"
    using q env by (simp add: on_store_def ExpireOutstanding_def and_then_def stmt_quiet quiet_def ret_def update_status_def)
  have ok1: "db_ok (st_db s1)"
    using ok_on_store [OF e ok.ExpireOutstanding_within ok] by simp
  have row1: "request_at k (st_db s1) = Some (row\<lparr>rr_status := ?st\<rparr>)" "approval_at k (st_db s1) = None"
    "execution_at k (st_db s1) = execution_at k (st_db (sv_Store sv))"
    using row undecided by (auto simp: s1(2) update_status_def lookup_by_update_where)
  let ?sv1 = "sv\<lparr>sv_Store := s1\<rparr>" and ?item = "item\<lparr>sr_Status := ?st\<rparr>"
  have "stored_of (row\<lparr>rr_status := ?st\<rparr>) = Inr ?item"
    using row(2) by (auto simp: stored_of_def res_bind_Inr)
  then have g: "on_store w 1 (Get k) ?sv1 = (Inr (Some ?item), ?sv1)"
    using row1 s1 env by (simp add: on_store_def Get_def getFrom_quiet quiet_def)
  have again: "decide_again w ?item ''approve'' ?sv1 \<noteq> (Inr response, sv')"
    using not_decided_before [of ?item ?sv1 w 2 "''approve''"] row1 s1 env k
    by (simp add: decide_again_def and_then_def fail_def)
  have rest: "record_decision w ctx actor ?item ''approve'' ?reason approvalID ?sv1 = (Inr response, sv')"
    and waiting: "?st = Waiting" and hash: "\<not> hash_mismatch (w_jcs w) ?item"
    using body e g again uuid k(2)
    by (auto simp: and_then_lift_Inr outcome_simps split: if_splits)
  have a: "make_approval actor ?item ''approve'' ?reason approvalID (w_now w 1) = a" "ap_RequestID a = k" "ap_Decision a = ''approve''"
    using k(1) by (simp_all add: a_def make_approval_def)
  obtain q s2 where acc: "AcceptApprovalContext a (w_now w 2) s1 = (q, s2)" by fastforce
  let ?sv2 = "?sv1\<lparr>sv_Store := s2\<rparr>"
  have call: "on_store w 3 (AcceptApprovalContext a (w_now w 2)) ?sv1 = (q, ?sv2)"
    using acc env by (simp add: on_store_def)
  note body = rest [unfolded record_decision_def Let_def a(1) and_then_attempt [where m = "on_store w 3 _", OF call]]
  have q2: "quiet s2" using keepsD [OF quiet_ops(11) s1(1), of a "w_now w 2"] acc by simp
  have "q = Inr ()"
  proof (cases q)
    case (Inl e)
    then have "st_db s2 = st_db s1" using AcceptApproval_result [OF ok1, of a "w_now w 2"] acc by simp
    then have "on_store w 4 (existingDecision ?item ''approve'') ?sv2 = (Inr None, ?sv2)"
      using not_decided_before [of ?item ?sv2 w 4] q2 row1(2) env k(1) by simp
    then show ?thesis using body Inl by (auto simp: and_then_def fail_def split: option.splits)
  qed simp
  have ok2: "db_ok (st_db s2)"
    using ok.on_db_effect [OF ok.AcceptApprovalContext_within, of s1 a "w_now w 2"] ok1 acc by (simp add: db_inv_def)
  have s2: "st_db s2 = set_status k Approved ((st_db s1)\<lparr>d_approvals := d_approvals (st_db s1) @ [approval_row_of a (w_now w 2)]\<rparr>)"
    using AcceptApproval_result [OF ok1, of a "w_now w 2"] acc \<open>q = Inr ()\<close> a by simp
  then have row2: "request_at k (st_db s2) = Some (row\<lparr>rr_status := Approved\<rparr>)"
    "approval_at k (st_db s2) = Some (approval_row_of a (w_now w 2))"
    "execution_at k (st_db s2) = execution_at k (st_db (sv_Store sv))"
    using request_at_set_status [of k k Approved "(st_db s1)\<lparr>d_approvals := d_approvals (st_db s1) @ [approval_row_of a (w_now w 2)]\<rparr>"]
      row1 a(2) by (simp_all add: lookup_by_append)
  obtain r3 sv3 where ev: "ignoring (on_store w 5 (RecordSecurityEvent ''request.approved'' (er_RequestID (sr_Request ?item))
      (sr_RequestHash ?item) (if ?reason = '''' then ''approve'' @ ''d by local uid 0'' else ?reason) (w_now w 3))) ?sv2 = (r3, sv3)"
    by fastforce
  have event: "undisturbed k s2 (sv_Store sv3)" "sv3 = ?sv2\<lparr>sv_Store := sv_Store sv3\<rparr>"
    using event_undisturbed [OF env _ _ ev, of k] q2 ok2 by simp_all
  have "sv' = sv3\<lparr>sv_spawned := sv_spawned sv3 @ [k]\<rparr>"
    using body ev k(1) unfolding \<open>q = Inr ()\<close>
    by (auto simp: and_then_Inr outcome_ret spawn_execute_def outcome_state_upd)
  moreover have "sv_executing sv3 = sv_executing sv" "sv_launched sv3 = sv_launched sv" "sv_spawned sv3 = sv_spawned sv"
    using arg_cong [OF event(2), of sv_executing] arg_cong [OF event(2), of sv_launched] arg_cong [OF event(2), of sv_spawned]
    by simp_all
  ultimately show ?thesis
    using event(1) row2 hash by (simp add: undisturbed_def alike_def)
qed

text \<open>(C8) A command that root approved is run. After a reported approval of a request that was waiting, the execution
  \<open>decide\<close> spawned, at a later moment and with the others using the store for other requests before and during it, starts
  the approved command and nothing else, and the request ends with the outcome of the process recorded, provided that
  the request has not expired then, that policy and files still permit it, and that no statement fails.\<close>

theorem approved_command_runs:
  assumes "quiet (sv_Store sv)" and "db_ok (st_db (sv_Store sv))" and "\<And>i. w_env w i = []"
    and "request_at k (st_db (sv_Store sv)) = Some row" and "stored_of row = Inr item" and "rr_status row = Waiting"
    and "er_RequestID (sr_Request item) = k" and "di_RequestId input = k"
    and "approval_at k (st_db (sv_Store sv)) = None" and "execution_at k (st_db (sv_Store sv)) = None"
    and "requester_of ctx = Inr actor" and "UUID (w_uuid w) = Inr approvalID"
    and "valid_approval (make_approval actor item ''approve'' (TrimSpace (di_Reason input)) approvalID (w_now w 1))"
    and "decide w ctx input ''approve'' sv = (Inr response, sv1)"
    and "k \<notin> sv_executing sv" and "list_all (spares sf k (Some (rr_expires_at row))) between"
    and "sv2 = sv1\<lparr>sv_Store := run_calls sf between (sv_Store sv1)\<rparr>"
    and "beside k (Some (rr_expires_at row)) v" and "w_jcs v = w_jcs w"
    and "not_expired item (w_now v 0)"
    and "check_policy_and_files v cfg (sr_Request item) = Proceed executable directory interpreter environment"
    and "execute v cfg (Runs c) k sv2 = (r, t)"
  shows "sv_spawned sv1 = sv_spawned sv @ [k]
    \<and> sv_launched t = sv_launched sv @ [\<lparr>la_RequestID = k, la_Args = helper_arguments (sr_Request item),
        la_Env = environment, la_Executable = executable, la_Directory = directory, la_Interpreter = interpreter\<rparr>]
    \<and> map_option rr_status (request_at k (st_db (sv_Store t))) =
        Some (if recorded_exit c = Some 0 then Succeeded else Failed)
    \<and> (\<exists>x. execution_at k (st_db (sv_Store t)) = Some x \<and> xr_exit_code x = recorded_exit c
        \<and> xr_signal x = nullable (recorded_signal c))"
proof -
  let ?a = "make_approval actor item ''approve'' (TrimSpace (di_Reason input)) approvalID (w_now w 1)"
  let ?row = "row\<lparr>rr_status := Approved\<rparr>" and ?item = "item\<lparr>sr_Status := Approved\<rparr>"
  have d: "quiet (sv_Store sv1)" "db_ok (st_db (sv_Store sv1))" "sv_executing sv1 = sv_executing sv"
    "sv_launched sv1 = sv_launched sv" "sv_spawned sv1 = sv_spawned sv @ [k]" "\<not> hash_mismatch (w_jcs w) item"
    "request_at k (st_db (sv_Store sv1)) = Some ?row" "approval_at k (st_db (sv_Store sv1)) = Some (approval_row_of ?a (w_now w 2))"
    "execution_at k (st_db (sv_Store sv1)) = None"
    using approve_waiting [OF assms(1,2,3,4,5,6,7,8,9,11,12,14)] assms(10) by simp_all
  have "standing k (Some (rr_expires_at row)) (st_db (sv_Store sv1))" using d by (simp add: standing_def stands_def)
  then have u: "undisturbed k (sv_Store sv1) (sv_Store sv2)"
    using run_calls_undisturbed [OF assms(16) d(1,2)] assms(17) by simp
  have stored: "stored_of ?row = Inr ?item"
    using assms(5) by (auto simp: stored_of_def res_bind_Inr)
  have app: "dec_approval (ar_approval_json (approval_row_of ?a (w_now w 2))) = Inr ?a"
    using assms(13) by (simp add: dec_approval_json)
  have binds: "approval_binds ?item (Inr (Some ?a))"
    by (simp add: approval_binds_Some make_approval_def)
  have others: "beside k (Some (rr_expires_at ?row)) v" using assms(18) by simp
  have facts: "quiet (sv_Store sv2)" "db_ok (st_db (sv_Store sv2))" "k \<notin> sv_executing sv2"
    "request_at k (st_db (sv_Store sv2)) = Some ?row" "rr_status ?row = Approved"
    "approval_at k (st_db (sv_Store sv2)) = Some (approval_row_of ?a (w_now w 2))"
    "ar_consumed_at (approval_row_of ?a (w_now w 2)) = None" "execution_at k (st_db (sv_Store sv2)) = None"
    "not_expired ?item (w_now v 0)" "\<not> hash_mismatch (w_jcs v) ?item"
    "check_policy_and_files v cfg (sr_Request ?item) = Proceed executable directory interpreter environment"
    using u d assms(15,17,19,20,21) by (simp_all add: undisturbed_def alike_def)
  have "sv_launched sv2 = sv_launched sv" using assms(17) d(4) by simp
  then show ?thesis
    using execute_ends [OF facts(1) others facts(2-4) stored facts(5-7) app binds facts(8-11) assms(22) refl] d(5)
    by (auto simp: ended_def outcome_def)
qed

subsection \<open>A waiting request that root approves\<close>

abbreviation waiting :: service where "waiting \<equiv> run_service Waiting []"

lemma run_hash_not_Nil: "run_hash \<noteq> []"
  using length_sha256_hex by (metis list.size(3) run_hash_def zero_neq_numeral)

lemma waiting_accepts:
  assumes "ap_RequestID a = ''r1''" "approval_well_formed a" "ap_Decision a = ''approve''"
  shows "\<exists>s. AcceptApprovalContext a t (sv_Store waiting) = (Inr (), s)"
proof -
  let ?d = "run_db Waiting [approval_row_of a t]"
  have up: "(run_db Waiting [])\<lparr>d_approvals := bs\<rparr> = run_db Waiting bs" for bs by (simp add: run_db_def example_db_def)
  have ins: "insert_approval (approval_row_of a t) (run_db Waiting []) = (Inr (), ?d)"
    using assms(1) by (simp add: insert_approval_Inr up)
  have "db_ok ?d"
    using withinD [OF ok.insert_approval_eff [of "approval_row_of a t"], of "run_db Waiting []"] ins run_db_ok
    by (simp add: db_inv_def)
  then have "fst (AcceptApprovalContext a t (sv_Store waiting)) = Inr ()"
    using assms ins transition_quiet [of "(sv_Store waiting)\<lparr>st_db := ?d\<rparr>" "''r1''" "run_row Waiting" _ "Some Waiting" Approved]
    by (simp add: AcceptApprovalContext_def transaction_quiet and_then_def stmt_quiet run_stored)
  then show ?thesis by (metis prod.collapse)
qed

lemma waiting_get: "on_store run_world i (Get ''r1'') waiting = (Inr (Some (run_item Waiting)), waiting)"
  by (simp add: on_store_def Get_def getFrom_quiet run_stored)

lemma run_id: "er_RequestID run_request = ''r1''"
  by (simp add: run_request_def example_request_def)

lemma root_ok: "rootRequester root_context = Inr (the (case rootRequester root_context of Inl _ \<Rightarrow> None | Inr a \<Rightarrow> Some a))"
  by (simp add: rootRequester_def requester_of_def root_context_def)

lemma waiting_decided:
  "\<exists>response sv. decide run_world root_context \<lparr>di_RequestId = ''r1'', di_Reason = '''', di_RequestHash = run_hash\<rparr> ''approve''
     waiting = (Inr response, sv)"
proof -
  obtain actor where root: "rootRequester root_context = Inr actor" using root_ok by blast
  obtain k where k: "UUID (w_uuid run_world) = Inr k" "k \<noteq> ''''"
    by (simp add: UUID_def run_world_def Let_def)
  let ?a = "make_approval actor (run_item Waiting) ''approve'' '''' k 0"
  have "approval_well_formed ?a"
    using k(2) run_hash_not_Nil by (simp add: approval_well_formed_def make_approval_def run_id)
  then obtain s where s: "AcceptApprovalContext ?a 0 (sv_Store waiting) = (Inr (), s)"
    using waiting_accepts [of ?a] by (auto simp: make_approval_def run_id)
  then have acc: "on_store run_world 3 (AcceptApprovalContext ?a 0) waiting = (Inr (), waiting\<lparr>sv_Store := s\<rparr>)"
    by (simp add: on_store_def)
  have trim: "TrimSpace [] = []" by code_simp
  have "\<exists>response sv. record_decision run_world root_context actor (run_item Waiting) ''approve'' '''' k waiting = (Inr response, sv)"
    unfolding record_decision_def Let_def run_world_simps
    by (subst and_then_attempt [where m = "on_store run_world 3 _", OF acc])
      (simp add: and_then_def ignoring_def attempt_def spawn_execute_def state_upd_def ret_def split: prod.splits)
  then show ?thesis
    using run_expires_nothing [of waiting Waiting "[]" 0, OF refl] waiting_get [of 1] run_hash_matches [of Waiting] k(1)
    by (simp add: decide_def root and_then_def lift_res_def trim contains_byte_def Let_def)
qed

lemma waiting_uuid: "UUID (w_uuid run_world) = Inr ''00000000-0000-4000-8000-000000000000''"
  by (simp add: run_world_def) code_simp

theorem approved_command_runs_witness:
  "\<exists>response sv1. decide run_world root_context \<lparr>di_RequestId = ''r1'', di_Reason = '''', di_RequestHash = run_hash\<rparr> ''approve''
       waiting = (Inr response, sv1)
     \<and> map_option rr_status (request_at ''r1'' (st_db (sv_Store (snd (execute busy_world run_config (Runs chatty_run) ''r1''
         (sv1\<lparr>sv_Store := run_calls example_sf [CallExpireOutstanding 0, CallGet ''r1''] (sv_Store sv1)\<rparr>)))))) = Some Failed"
proof -
  let ?in = "\<lparr>di_RequestId = ''r1'', di_Reason = '''', di_RequestHash = run_hash\<rparr>"
  let ?between = "[CallExpireOutstanding 0, CallGet ''r1'']"
  obtain response sv1 where decided: "decide run_world root_context ?in ''approve'' waiting = (Inr response, sv1)"
    using waiting_decided by blast
  let ?sv2 = "sv1\<lparr>sv_Store := run_calls example_sf ?between (sv_Store sv1)\<rparr>"
  obtain r t where run: "execute busy_world run_config (Runs chatty_run) ''r1'' ?sv2 = (r, t)" by fastforce
  let ?actor = "\<lparr>rq_UID = 0, rq_GID = 0, rq_PID = Some 1, rq_Username = Some ''root'', rq_GroupName = Some ''root''\<rparr>"
  have actor: "requester_of root_context = Inr ?actor"
    by (simp add: requester_of_def root_context_def)
  have trim: "TrimSpace (di_Reason ?in) = []" by simp code_simp
  have valid: "valid_approval (make_approval ?actor (run_item Waiting) ''approve'' (TrimSpace (di_Reason ?in))
      ''00000000-0000-4000-8000-000000000000'' (w_now run_world 1))"
    unfolding trim
    by (simp add: valid_approval_def make_approval_def run_id int64_range_def valid_opt_def run_hash_def valid_utf8_hex
        valid_utf8_ascii [OF ascii_fmt_time] valid_utf8_ascii ascii_def byte_def del: ascii_fmt_time)
  have row: "request_at ''r1'' (st_db (sv_Store waiting)) = Some (run_row Waiting)" "rr_status (run_row Waiting) = Waiting"
    by simp_all
  have env: "\<And>i. w_env run_world i = []" and sv2: "?sv2 = ?sv2" and jcs: "w_jcs busy_world = w_jcs run_world"
    by (simp_all add: run_world_def)
  have store: "quiet (sv_Store waiting)" "db_ok (st_db (sv_Store waiting))" "stored_of (run_row Waiting) = Inr (run_item Waiting)"
    "er_RequestID (sr_Request (run_item Waiting)) = ''r1''" "di_RequestId ?in = ''r1''"
    "approval_at ''r1'' (st_db (sv_Store waiting)) = None" "execution_at ''r1'' (st_db (sv_Store waiting)) = None"
    "''r1'' \<notin> sv_executing waiting"
    by (simp_all add: quiet_def run_db_ok run_stored run_id)
  have spare: "list_all (spares example_sf ''r1'' (Some (rr_expires_at (run_row Waiting)))) ?between"
    "beside ''r1'' (Some (rr_expires_at (run_row Waiting))) busy_world"
    using busy_spares run_not_due [of Waiting] by (simp_all add: run_row_def example_row_def)
  have fresh: "not_expired (run_item Waiting) (w_now busy_world 0)" by (simp add: run_not_expired)
  have checks: "check_policy_and_files busy_world run_config (sr_Request (run_item Waiting)) =
     Proceed run_file run_directory None [''PATH='' @ safePath, ''HOME=/root'', ''LANG=C.UTF-8'']"
    by (simp add: busy_checks run_checks)
  have "recorded_exit chatty_run = Some 3" by (simp add: recorded_exit_def chatty_run_def)
  with approved_command_runs [OF store(1,2) env row(1) store(3) row(2) store(4,5,6,7) actor waiting_uuid valid decided store(8)
      spare(1) sv2 spare(2) jcs fresh checks run] decided run
  show ?thesis by (intro exI [of _ response] exI [of _ sv1]) simp
qed

end
