(* ===== verification/Cli_Example.thy ===== *)
theory Cli_Example
  imports Cli_Daemon Daemon_Approval
begin

section \<open>A review from the terminal to the database\<close>

text \<open>Root runs \<open>shudo --approve\<close> on the database of the earlier examples: the list is fetched, the first request
  chosen, its record inspected and confirmed at the terminal, and the decision recorded.\<close>

lemma answers: "TrimSpace ''1'' = ''1''" "TrimSpace ''y'' = ''y''" "Atoi ''1'' = Some 1"
  "read_line 32 ''1'' = (''1'', Some (External ''EOF''))" "read_line 8 ''y'' = (''y'', Some (External ''EOF''))"
  by (simp_all add: TrimSpace_one byte_def is_space_def Atoi_def digits_value_def int64_range_def read_line_def NEWLINE_def)

abbreviation waiting_record :: request_record where "waiting_record \<equiv> record_of (run_item Waiting) None"

lemma waiting_no_approval: "on_store run_world i (ApprovalFor ''r1'') waiting = (Inr None, waiting)"
  by (simp add: on_store_def ApprovalFor_def and_then_def select_quiet ret_def)

lemma waiting_record_of: "requestRecord run_world i (run_item Waiting) waiting = (Inr waiting_record, waiting)"
  by (simp add: requestRecord_def run_id waiting_no_approval and_then_attempt [where m = "on_store run_world i (ApprovalFor ''r1'')"] ret_def)

lemma waiting_recent: "on_store run_world i (RecentPending (w_sf run_world) 0 256 0 True) waiting = (Inr [run_item Waiting], waiting)"
proof -
  have e: "ExpireOutstanding (w_sf run_world) 0 (sv_Store waiting) = (Inr (), sv_Store waiting)"
    using run_expires_nothing [of waiting Waiting "[]" i, OF refl]
    by (auto simp: on_store_def run_service_def split: prod.splits)
  have "recent (w_sf run_world) 256 0 True [Waiting] (sv_Store waiting) = (Inr [run_item Waiting], sv_Store waiting)"
    by (simp add: recent_def and_then_def select_quiet recent_ids_def order_desc_def Get_def getFrom_quiet run_stored ret_def)
  with e show ?thesis by (simp add: on_store_def RecentPending_def and_then_def run_service_def)
qed

lemma waiting_listed: "ListRequests run_world root_context False waiting = (Inr [waiting_record], waiting)"
  using run_expires_nothing [of waiting Waiting "[]" 0, OF refl] waiting_recent [of 1]
  by (subst ListRequests_def, subst root_ok)
    (simp add: and_then_def lift_res_def newest_first_def order_desc_def waiting_record_of ret_def)

lemma waiting_inspected: "InspectRequest run_world root_context ''r1'' waiting = (Inr waiting_record, waiting)"
  by (subst InspectRequest_def, subst root_ok) (simp add: and_then_def lift_res_def waiting_get waiting_record_of)

definition review_link :: link where
  "review_link = \<lparr>ln_service = run_service Waiting [], ln_calls = replicate 3 (run_world, Delivered), ln_heard = []\<rparr>"

definition review_console :: console where
  "review_console = \<lparr>co_stdout = '''', co_stderr = '''', co_terminal = '''', co_answers = [Inr ''1'', Inr ''y'']\<rparr>"

definition review_options :: admin_options where
  "review_options = no_admin\<lparr>ad_operation := ''approve''\<rparr>"

lemma review_runs:
  "\<exists>l' c'. runAdmin (daemon_broker root_context) 0 review_options (review_link, review_console) = (Inr (0, None), (l', c'))"
proof -
  let ?b = "daemon_broker root_context"
  let ?l = "\<lambda>n. \<lparr>ln_service = waiting, ln_calls = replicate n (run_world, Delivered), ln_heard = []\<rparr>"
  have calls: "br_list ?b False (?l 3) = (Inr [waiting_record], ?l 2)" "br_inspect ?b ''r1'' (?l 2) = (Inr waiting_record, ?l 1)"
    by (simp_all add: daemon_broker_def rpc_def on_wire_def Let_def eval_nat_numeral waiting_listed waiting_inspected)
  have rec: "re_RequestId waiting_record = ''r1''" "re_RequestHash waiting_record = run_hash"
    by (simp_all add: record_of_def Let_def run_id)
  obtain c1 where pick: "pickRequest [waiting_record] ''Approve'' review_console = (Inr ''r1'', c1)" "co_answers c1 = [Inr ''y'']"
    by (simp add: pickRequest_def and_then_def attempt_def open_tty_def review_console_def print_tty_def state_upd_def ret_def
        answers Let_def rec)
  obtain c2 where confirm: "confirmApproval waiting_record c1 = (Inr (), c2)"
    using pick(2) by (simp add: confirmApproval_def and_then_def attempt_def open_tty_def print_tty_def state_upd_def ret_def answers)
  obtain response sv where "decide run_world root_context \<lparr>di_RequestId = ''r1'', di_Reason = '''', di_RequestHash = run_hash\<rparr> ''approve''
     waiting = (Inr response, sv)" using waiting_decided by blast
  then have decide: "\<exists>l. br_decide ?b ''approve'' \<lparr>di_RequestId = ''r1'', di_Reason = '''', di_RequestHash = run_hash\<rparr> (?l 1) = (Inr response, l)"
    by (simp add: daemon_broker_def rpc_def on_wire_def Let_def)
  have o: "ad_operation review_options = ''approve''" "ad_requestID review_options = ''''" "ad_reason review_options = ''''"
    "ad_confirmHash review_options = ''''" "\<not> ad_json review_options"
    by (simp_all add: review_options_def no_admin_def)
  have select: "selectRequest ?b '''' False ''Approve'' (review_link, review_console) = (Inr ''r1'', (?l 2, c1))"
    using calls(1) pick(1) by (simp add: selectRequest_def and_then_def on_broker_def on_console_def review_link_def)
  have "\<exists>l c. conclude ?b review_options ''r1'' run_hash (?l 1, c2) = (Inr (0, None), (l, c))"
    using decide o
    by (auto simp: conclude_def send_decision_def or_exit_def and_then_def attempt_def on_broker_def on_console_def ret_def
        print_out_def state_upd_def)
  then have "\<exists>l c. confirmed_hash ?b review_options ''r1'' (conclude ?b review_options ''r1'') (?l 2, c1) = (Inr (0, None), (l, c))"
    using calls(2) confirm o rec
    by (simp add: confirmed_hash_def confirm_record_def or_exit_def and_then_def attempt_def on_broker_def on_console_def)
  then show ?thesis
    using select o
    by (simp add: runAdmin_def decide_command_def or_exit_def and_then_def attempt_def lift_res_def requireRootReview_def
        daemon_broker_def)
qed


end
