(* ===== verification/Cli_Stream.thy ===== *)
theory Cli_Stream
  imports Cli_Watch Cli_Example
begin

section \<open>A command from the client to the daemon and back\<close>

text \<open>
  The client of \<open>Cli_Watch\<close> connected to the daemon's \<open>Submit\<close>, \<open>Cancel\<close> and \<open>Watch\<close>. A stream carries the messages
  of one run of \<open>Watch\<close> in order; it may break after any number of them, and an attempt may not reach
  the daemon at all.
\<close>

record stream_script =
  ss_world :: world
  ss_send :: "nat \<Rightarrow> err option"
  ss_rounds :: "(world \<times> err option) list"
  ss_received :: nat
  ss_end :: err

datatype stream = Refused err | Streamed stream_script

text \<open>What ends a stream that was received to its end.\<close>

definition stream_end :: "'a res \<Rightarrow> err" where
  "stream_end r = (case on_wire r of Inl e \<Rightarrow> e | Inr _ \<Rightarrow> External ''EOF'')"

definition watch_stream :: "daemon_config \<Rightarrow> call_context \<Rightarrow> stream_script \<Rightarrow> string \<Rightarrow> u64 \<Rightarrow> (local_event list \<times> err) link_op" where
  "watch_stream cfg ctx sc k n = (\<lambda>l.
     case Watch (ss_send sc) cfg (ss_world sc) ctx k n (ss_rounds sc) (ln_service l, []) of (r, (sv, sent)) \<Rightarrow>
       let received = take (ss_received sc) sent;
           e = (if length sent < ss_received sc \<and> r \<noteq> Inr False then stream_end r else ss_end sc)
       in (Inr (received, e), l\<lparr>ln_service := sv, ln_heard := ln_heard l @ received\<rparr>))"

definition daemon_attempt :: "daemon_config \<Rightarrow> call_context \<Rightarrow> stream \<times> stop option \<times> stop option \<Rightarrow> link attempt" where
  "daemon_attempt cfg ctx = (\<lambda>(st, after, waiting).
     \<lparr>at_watch = (\<lambda>k n. case st of Refused e \<Rightarrow> fail e | Streamed sc \<Rightarrow> watch_stream cfg ctx sc k n),
      at_stop = after, at_delay_stop = waiting\<rparr>)"

definition daemon_client :: "daemon_config \<Rightarrow> call_context \<Rightarrow> link client" where
  "daemon_client cfg ctx = \<lparr>cl_broker = daemon_broker ctx,
     cl_submit = (\<lambda>q. rpc (\<lambda>w. Submit w cfg ctx (Some q))),
     cl_cancel = (\<lambda>k. and_then (rpc (\<lambda>w. Cancel w ctx k)) (\<lambda>_. ret ()))\<rparr>"

lemma stream_order_events:
  assumes "stream_order k n r sent"
  shows "stream_events k n (take m sent)"
proof -
  obtain outs final where s: "sent = map (output_event k) outs @ final" "in_order n outs"
    "list_all (\<lambda>c. oc_Sequence c < oc_Sequence c + 1) outs"
    "if r = Inr True then \<exists>e. final = [e] \<and> final_message k e else final = []"
    using assms by (auto simp: stream_order_def)
  let ?rest = "take (m - length outs) final"
  have "?rest = [] \<or> (\<exists>e. ?rest = [e] \<and> final_message k e)"
    using s(4) by (cases "m - length outs") (auto split: if_splits)
  moreover have "in_order n (take m outs)" "list_all (\<lambda>c. oc_Sequence c < oc_Sequence c + 1) (take m outs)"
    using s(2,3) in_set_takeD by (fastforce simp: in_order_def list_all_iff intro: sorted_wrt_take)+
  ultimately show ?thesis
    unfolding stream_events_def s(1)
    by (intro exI [of _ "take m outs"] exI [of _ ?rest]) (simp add: take_map)
qed

lemma rpc_heard: "ln_heard (snd (rpc handler l)) = ln_heard l"
  by (simp add: rpc_def Let_def split: list.splits prod.splits rpc_fault.splits)

lemma watch_stream_good:
  assumes "watch_stream cfg ctx sc k n l = (x, l')" "service_ok l"
  shows "service_ok l' \<and> (\<exists>events e. x = Inr (events, e) \<and> ln_heard l' = ln_heard l @ events \<and> stream_events k n events)"
proof -
  obtain r sv sent where w: "Watch (ss_send sc) cfg (ss_world sc) ctx k n (ss_rounds sc) (ln_service l, []) = (r, (sv, sent))"
    by (metis prod.exhaust)
  have ok: "db_ok (st_db (sv_Store (ln_service l)))" using assms(2) by (simp add: service_ok_def)
  from assms(1) w show ?thesis
    using Watch_ok [OF ok w] stream_order_events [OF conjunct1 [OF Watch_delivers [OF ok w]], of "ss_received sc"]
    by (auto simp: watch_stream_def Let_def service_ok_def)
qed

interpretation stream: watch_contract "daemon_client cfg ctx" service_ok ln_heard "\<lambda>a. a \<in> range (daemon_attempt cfg ctx)"
  for cfg ctx
proof
  show "service_ok l' \<and> ln_heard l' = ln_heard l" if ok: "service_ok l" and run: "cl_submit (daemon_client cfg ctx) q l = (x, l')" for l q x l'
  proof -
    let ?h = "\<lambda>w. Submit w cfg ctx (Some q)"
    have "l' = snd (rpc ?h l)" using run by (simp add: daemon_client_def)
    moreover have "service_ok (snd (rpc ?h l))" by (rule rpc_ok [OF submit_cancel_ok(1) ok])
    ultimately show ?thesis by (simp add: rpc_heard)
  qed
  show "service_ok l' \<and> ln_heard l' = ln_heard l" if ok: "service_ok l" and run: "cl_cancel (daemon_client cfg ctx) k l = (x, l')" for l k x l'
  proof -
    let ?h = "\<lambda>w. Cancel w ctx k"
    have "l' = snd (rpc ?h l)"
      using run by (auto simp: daemon_client_def and_then_def ret_def split: prod.splits sum.splits)
    moreover have "service_ok (snd (rpc ?h l))" by (rule rpc_ok [OF submit_cancel_ok(2) ok])
    ultimately show ?thesis by (simp add: rpc_heard)
  qed
  show "service_ok l' \<and> (case r of Inl _ \<Rightarrow> ln_heard l' = ln_heard l
         | Inr (events, _) \<Rightarrow> ln_heard l' = ln_heard l @ events \<and> stream_events k n events)"
    if a: "a \<in> range (daemon_attempt cfg ctx)" "service_ok l" "at_watch a k n l = (r, l')" for a l k n r l'
  proof -
    obtain st after waiting where st: "a = daemon_attempt cfg ctx (st, after, waiting)" using a(1) by auto
    show ?thesis
    proof (cases st)
      case (Streamed sc)
      with a(3) st watch_stream_good [of cfg ctx sc k n l r l'] a(2) show ?thesis by (auto simp: daemon_attempt_def)
    qed (use a(2,3) st in \<open>auto simp: daemon_attempt_def fail_def\<close>)
  qed
qed

lemma parse_command: "parse scale arguments = Inr o0 \<Longrightarrow> op_command o0 \<noteq> []"
  by (auto simp: parse_def res_bind_def split: sum.splits prod.splits if_splits)

text \<open>(C4) What a command prints is its output, once and in order, across every break of the connection. After
  \<open>shudo COMMAND\<close>, without \<open>--json\<close> and \<open>--detach\<close>, the client has heard output messages of one request with strictly
  growing sequence numbers and then at most one final message, over all the streams it opened; standard
  output is exactly the data of those that are not for standard error, standard error (without \<open>--verbose\<close>) of the
  others. The exit is the one the final message gives, and it is never a success without that message.
  The request is the one the daemon created for the command typed, in the directory it was typed in.\<close>

theorem command_relays_output:
  assumes "runCommand (daemon_client cfg ctx) scale getwd (map (daemon_attempt cfg ctx) tries) arguments (l, d) = (r, (l', d'))"
    and "parse scale arguments = Inr o0" "\<not> op_json o0" "\<not> op_detach o0"
    and "db_ok (st_db (sv_Store (ln_service l)))"
  shows "\<exists>x outs final k. r = Inr x
    \<and> ln_heard l' = ln_heard l @ map (output_event k) outs @ final
    \<and> in_order 0 outs
    \<and> co_stdout d' = co_stdout d @ data_on False outs
    \<and> (op_verbose o0 \<or> co_stderr d' = co_stderr d @ data_on True outs)
    \<and> (final = [] \<and> (x = None \<or> fst (the x) \<noteq> 0) \<or> (\<exists>e. final = [e] \<and> final_message k e \<and> x = Some (finished_exit e)))
    \<and> (outs = [] \<and> final = [] \<or> (\<exists>q response t. cl_submit (daemon_client cfg ctx) q l = (Inr response, t)
         \<and> k = sb_RequestId response \<and> si_Executable q # si_Argv q = op_command o0 \<and> getwd = Inr (si_Cwd q)))"
proof -
  have "list_all (\<lambda>a. a \<in> range (daemon_attempt cfg ctx)) (map (daemon_attempt cfg ctx) tries)"
    by (simp add: list_all_iff)
  from stream.runCommand_relays [OF assms(1-4) parse_command [OF assms(2)] this] assms(5)
  obtain x new where r: "r = Inr x" "ln_heard l' = ln_heard l @ new"
    "relayed_run (daemon_client cfg ctx) getwd o0 l x new d d'"
    by (auto simp: service_ok_def)
  from r(3) obtain outs final k where m: "new = map (output_event k) outs @ final" "in_order 0 outs"
     "co_stdout d' = co_stdout d @ data_on False outs"
     "\<not> op_verbose o0 \<longrightarrow> co_stderr d' = co_stderr d @ data_on True outs"
     "final = [] \<and> (\<forall>y. x = Some y \<longrightarrow> fst y \<noteq> 0) \<or> (\<exists>e. final = [e] \<and> final_message k e \<and> x = Some (finished_exit e))"
     "new = [] \<or> (\<exists>q response t. cl_submit (daemon_client cfg ctx) q l = (Inr response, t) \<and> k = sb_RequestId response
          \<and> si_Executable q # si_Argv q = op_command o0 \<and> getwd = Inr (si_Cwd q))"
    unfolding relayed_run_def by blast
  show ?thesis
  proof (intro exI conjI)
    show "final = [] \<and> (x = None \<or> fst (the x) \<noteq> 0) \<or> (\<exists>e. final = [e] \<and> final_message k e \<and> x = Some (finished_exit e))"
      using m(5) by (cases x) auto
  qed (use r m in auto)
qed

subsection \<open>A session\<close>

text \<open>A user types \<open>shudo --reason x --timeout 1s -- /bin/ls -l\<close>; the daemon creates the request, root denies it before
  the client watches it, and the stream brings the outcome.\<close>

definition typed :: "string list" where
  "typed = [''--reason'', ''x'', ''--timeout'', ''1s'', ''--'', ''/bin/ls'', ''-l'']"

definition denied_world :: world where
  "denied_world = submit_world\<lparr>w_env := (\<lambda>i. if i = 0 then [CallTransition submit_id Denied (Some Waiting)] else [])\<rparr>"

definition denied_stream :: stream_script where
  "denied_stream = \<lparr>ss_world = denied_world, ss_send = (\<lambda>_. None), ss_rounds = [(submit_world, None)],
     ss_received = 2, ss_end = External ''broken''\<rparr>"

definition session_link :: link where
  "session_link = \<lparr>ln_service = submit_service, ln_calls = [(submit_world, Delivered)], ln_heard = []\<rparr>"

lemma typed_parsed: "parse (\<lambda>_ _ _. 0) typed = Inr \<lparr>op_reason = ''x'', op_timeout = 1 * second, op_detach = False,
    op_json = False, op_verbose = False, op_command = [''/bin/ls'', ''-l'']\<rparr>"
proof -
  have "nat_dec 1 @ ''s'' = ''1s''" by code_simp
  then have d: "ParseDuration (\<lambda>_ _ _. 0) ''1s'' = Some (1 * second)" using ParseDuration_seconds [of 1 "\<lambda>_ _ _. 0"] by simp
  have rest: "parse_options scale o1 (''--'' # cmd) = Inr (o1, cmd)" for scale o1 cmd by simp
  show ?thesis
    by (simp add: parse_def typed_def res_bind_def rest parse_options_reason parse_options_timeout [OF d] second_def
        no_options_def del: parse_options.simps)
qed

lemma submit_transition_denied:
  "Transition submit_id Denied (Some Waiting) (submit_store [submit_row Waiting]) = (Inr (), submit_store [submit_row Denied])"
proof -
  obtain c where "stored_of (submit_row Waiting) = Inr c" using submit_row_stored by fastforce
  moreover have "db_ok ((run_db Created [])\<lparr>d_requests := [submit_row Waiting]\<rparr>)"
    by (simp add: db_ok_def run_db_def example_db_def int64_range_def)
  ultimately show ?thesis
    using transition_quiet [of "submit_store [submit_row Waiting]" submit_id "submit_row Waiting" c "Some Waiting" Denied]
    by (simp add: Transition_def transaction_def transaction_quiet update_where_def)
qed

lemma denied_watched:
  assumes "sv_Store sv = submit_store [submit_row Waiting]" "li_watchersByUID (sv_limits sv) = Map.empty"
    "li_watchersByRequest (sv_limits sv) = Map.empty"
  shows "\<exists>sv' e. Watch (\<lambda>_. None) run_config denied_world user_context submit_id 0 [(submit_world, None)] (sv, [])
    = (Inr True, (sv', [e])) \<and> le_Type e = ''finished'' \<and> le_Status e = Some Denied"
proof -
  let ?st = "submit_store [submit_row Denied]" and ?at = "0 :: u64"
  let ?dv = "sv\<lparr>sv_Store := ?st\<rparr>"
  obtain c where c: "stored_of (submit_row Denied) = Inr c" "sr_Request c = submit_made" "sr_Status c = Denied"
    by (simp add: stored_of_def dec_execution_request_json submit_made_valid)
  then have item: "er_RequestID (sr_Request c) = submit_id" "rq_UID (er_Requester (sr_Request c)) = 1000" "sr_Status c = Denied"
    using c by (simp_all add: submit_made_fields submit_made_def build_request_def)
  have first: "on_store denied_world 0 (Get submit_id) sv = (Inr (Some c), ?dv)"
    using assms(1) c(1) submit_transition_denied by (simp add: on_store_def denied_world_def Get_def getFrom_quiet)
  obtain l where l: "acquireWatcher run_config 1000 submit_id (sv_limits sv) = (Inr (), l)"
    using assms(2,3) by (simp add: acquireWatcher_def run_config_def default_config_def)
  let ?lv = "?dv\<lparr>sv_limits := l\<rparr>"
  have quiet: "on_store submit_world i (Get submit_id) ?lv = (Inr (Some c), ?lv)"
    "on_store submit_world i (OutputAfter submit_id ?at n) ?lv = (Inr ([], False), ?lv)"
    "on_store submit_world i (ApprovalFor submit_id) ?lv = (Inr None, ?lv)"
    "on_store submit_world i (Execution submit_id) ?lv = (Inr None, ?lv)"
    "on_store submit_world i (ExpireOutstanding example_sf 0) ?lv = (Inr (), ?lv)" for i n
    using c(1) by (simp_all add: on_store_def Get_def getFrom_quiet OutputAfter_def bind_u64_def chunks_from_def ApprovalFor_def
        Execution_def and_then_def select_quiet lift_res_def ret_def run_db_def example_db_def ExpireOutstanding_def stmt_quiet
        update_status_def update_where_def expirable_def rows_matching_def)
  have "\<exists>e. watch_round (\<lambda>_. None) run_config submit_id submit_world ?at (?lv, []) = (Inr (?at, Finished), (?lv, [e]))
     \<and> le_Type e = ''finished'' \<and> le_Status e = Some Denied"
    using item by (simp add: watch_round_def and_then_def on_service_def quiet ret_def attempt_def send_event_def Let_def
        finished_event_def state_event_def empty_event_def ok_or_none_def)
  then obtain e where e: "watch_rounds (\<lambda>_. None) run_config submit_id [(submit_world, None)] ?at (?lv, []) = (Inr True, (?lv, [e]))"
    "le_Type e = ''finished''" "le_Status e = Some Denied"
    by (auto simp: and_then_def ret_def)
  have actor: "requester_of user_context = Inr user_requester"
    by (simp add: requester_of_def user_context_def)
  show ?thesis
    using e first l item actor
    by (simp add: Watch_def and_then_lift_Inr) (simp add: and_then_def on_service_def on_limits_def watch_finally_def)
qed

lemma session_runs:
  "\<exists>l' e d'. runCommand (daemon_client run_config user_context) (\<lambda>_ _ _. 0) (Inr ''/tmp'')
     (map (daemon_attempt run_config user_context) [(Streamed denied_stream, None, None)]) typed (session_link, review_console)
     = (Inr (Some (1, Some (Plain ''request denied''))), (l', d')) \<and> ln_heard l' = [e]"
proof -
  let ?c = "daemon_client run_config user_context" and ?a = "daemon_attempt run_config user_context (Streamed denied_stream, None, None)"
  let ?o = "\<lparr>op_reason = ''x'', op_timeout = 1 * second, op_detach = False, op_json = False, op_verbose = False,
    op_command = [''/bin/ls'', ''-l'']\<rparr>"
  obtain response sv where s: "Submit submit_world run_config user_context (Some submit_input) submit_service = (Inr response, sv)"
    "sb_RequestId response = submit_id" "sv_Store sv = submit_store [submit_row Waiting]"
    "li_watchersByUID (sv_limits sv) = Map.empty" "li_watchersByRequest (sv_limits sv) = Map.empty"
    using submit_accepted by blast
  have q: "submission ?o ''/tmp'' = submit_input"
    by (simp add: submission_def submit_input_def second_def millisecond_def)
  let ?l = "\<lparr>ln_service = sv, ln_calls = [], ln_heard = []\<rparr>"
  have submit: "cl_submit ?c submit_input session_link = (Inr response, ?l)"
    using s(1) by (simp add: daemon_client_def rpc_def session_link_def on_wire_def)
  obtain sv' e where w: "Watch (\<lambda>_. None) run_config denied_world user_context submit_id 0 [(submit_world, None)] (sv, [])
    = (Inr True, (sv', [e]))" "le_Type e = ''finished''" "le_Status e = Some Denied"
    using denied_watched [OF s(3-5)] by blast
  let ?l' = "?l\<lparr>ln_service := sv', ln_heard := [e]\<rparr>"
  have watch: "at_watch ?a submit_id 0 ?l = (Inr ([e], External ''EOF''), ?l')"
    using w(1) by (simp add: daemon_attempt_def watch_stream_def denied_stream_def stream_end_def on_wire_def Let_def)
  have dial: "br_dial (cl_broker ?c) = Inr ()" by (simp add: daemon_client_def daemon_broker_def)
  have "receive ?o start_progress [e] review_console = (Inr (Inl (1, Some (Plain ''request denied''))), review_console)"
    using w(2,3) by (simp add: Let_def and_then_def show_event_def finish_watch_def finished_exit_def ret_def)
  then have "watch_loop ?c ?o submit_id [?a] start_progress (?l, review_console)
      = (Inr (Some (1, Some (Plain ''request denied''))), (?l', review_console))"
    using watch by (simp add: Let_def dial and_then_def attempt_def on_broker_def on_console_def start_progress_def ret_def)
  then show ?thesis
    using submit s(2) q
    by (simp add: runCommand_def typed_parsed with_reason_def example_trim or_stop_def and_then_def attempt_def lift_res_def dial
        on_broker_def on_console_def after_submit_def ret_def)
qed

theorem command_relays_output_witness:
  "\<exists>l' d' outs final k. runCommand (daemon_client run_config user_context) (\<lambda>_ _ _. 0) (Inr ''/tmp'')
      (map (daemon_attempt run_config user_context) [(Streamed denied_stream, None, None)]) typed (session_link, review_console)
      = (Inr (Some (1, Some (Plain ''request denied''))), (l', d'))
     \<and> ln_heard l' = map (output_event k) outs @ final \<and> ln_heard l' \<noteq> [] \<and> co_stdout d' = data_on False outs"
proof -
  obtain l' e d' where run: "runCommand (daemon_client run_config user_context) (\<lambda>_ _ _. 0) (Inr ''/tmp'')
     (map (daemon_attempt run_config user_context) [(Streamed denied_stream, None, None)]) typed (session_link, review_console)
     = (Inr (Some (1, Some (Plain ''request denied''))), (l', d'))" "ln_heard l' = [e]"
    using session_runs by blast
  have ok: "db_ok (st_db (sv_Store (ln_service session_link)))"
    by (simp add: session_link_def submit_service_def db_ok_def run_db_def example_db_def)
  obtain outs final k where "ln_heard l' = ln_heard session_link @ map (output_event k) outs @ final"
    "co_stdout d' = co_stdout review_console @ data_on False outs"
    using command_relays_output [OF run(1) typed_parsed _ _ ok] by (simp only: options.simps simp_thms) blast
  with run show ?thesis
    by (intro exI [of _ l'] exI [of _ d'] exI [of _ outs] exI [of _ final] exI [of _ k])
      (simp add: session_link_def review_console_def)
qed
text \<open>Messages with a final one among them always give an exit, that of the first final message.\<close>

lemma receive_finished:
  assumes "m \<in> set events" "le_Type m = ''finished''"
  shows "\<exists>e d'. e \<in> set events \<and> le_Type e = ''finished'' \<and> receive o1 p events d = (Inr (Inl (finished_exit e)), d')"
  using assms(1)
proof (induction events arbitrary: p d)
  case (Cons e events)
  let ?p1 = "p\<lparr>pg_delay := 50 * millisecond\<rparr>"
  obtain d1 where show1: "show_event o1 e d = (Inr (), d1)"
    by (cases "show_event o1 e d")
      (auto simp: show_event_def emitJSON_def print_out_def print_err_def state_upd_def ret_def split: if_splits)
  show ?case
  proof (cases "le_Type e = ''finished''")
    case True
    have "\<exists>d2. finish_watch o1 e d1 = (Inr (finished_exit e), d2)"
      by (auto simp: finish_watch_def and_then_def print_err_def state_upd_def ret_def)
    then show ?thesis using True show1 by (auto simp: Let_def and_then_def ret_def)
  next
    case False
    with Cons.prems assms(2) have m: "m \<in> set events" by auto
    consider "receive o1 p (e # events) d = receive o1 ?p1 events d"
      | q where "receive o1 p (e # events) d = receive o1 q events d1"
      using False show1 by (cases "le_Type e = ''output'' \<and> le_Sequence e < pg_next p") (auto simp: Let_def and_then_def)
    then show ?thesis
    proof cases
      case 1
      with Cons.IH [OF m, of ?p1 d] show ?thesis by auto
    next
      case (2 q)
      with Cons.IH [OF m, of q d1] show ?thesis by auto
    qed
  qed
qed simp

text \<open>(C23) The client outlasts a daemon that is away. However often the daemon cannot be reached, as long as each failure
  is one to try again after and nobody interrupts, the client goes on, and when a stream then delivers the
  final message of the request it ends with the exit of that message.\<close>

theorem client_outlasts_restart:
  assumes "list_all retryableWatchError es"
    and "watch_stream cfg ctx sc k (pg_next p) l = (Inr (events, e), l')"
    and "m \<in> set events" and "le_Type m = ''finished''"
  shows "\<exists>f d'. f \<in> set events \<and> le_Type f = ''finished'' \<and>
     watch_loop (daemon_client cfg ctx) o1 k
       (map (\<lambda>e. daemon_attempt cfg ctx (Refused e, None, None)) es @ daemon_attempt cfg ctx (Streamed sc, stop1, stop2) # later) p (l, d)
     = (Inr (Some (finished_exit f)), (l', d'))"
  using assms(1,2)
proof (induction es arbitrary: p)
  case Nil
  obtain f d' where f: "f \<in> set events" "le_Type f = ''finished''"
    "receive o1 p events d = (Inr (Inl (finished_exit f)), d')"
    using receive_finished [OF assms(3,4)] by blast
  with Nil show ?case
    by (intro exI [of _ f] exI [of _ d'])
      (simp add: daemon_client_def daemon_broker_def daemon_attempt_def Let_def and_then_def attempt_def on_broker_def
        on_console_def ret_def)
next
  case (Cons e' es)
  have "pg_next (p\<lparr>pg_delay := next_delay (pg_delay p)\<rparr>) = pg_next p" by simp
  with Cons.IH [of "p\<lparr>pg_delay := next_delay (pg_delay p)\<rparr>"] Cons.prems obtain f d' where f: "f \<in> set events" "le_Type f = ''finished''"
    "watch_loop (daemon_client cfg ctx) o1 k
       (map (\<lambda>e. daemon_attempt cfg ctx (Refused e, None, None)) es @ daemon_attempt cfg ctx (Streamed sc, stop1, stop2) # later)
       (p\<lparr>pg_delay := next_delay (pg_delay p)\<rparr>) (l, d) = (Inr (Some (finished_exit f)), (l', d'))"
    by auto
  moreover have "br_dial (cl_broker (daemon_client cfg ctx)) = Inr ()" by (simp add: daemon_client_def daemon_broker_def)
  moreover have "daemon_attempt cfg ctx (Refused e', None, None)
      = \<lparr>at_watch = (\<lambda>k n. fail e'), at_stop = None, at_delay_stop = None\<rparr>" by (simp add: daemon_attempt_def)
  ultimately show ?case
    using Cons.prems(1)
    by (intro exI [of _ f] exI [of _ d'])
      (simp add: Let_def and_then_def attempt_def on_broker_def fail_def reconnect_def)
qed

theorem client_outlasts_restart_witness:
  "\<exists>l l' f d'. watch_loop (daemon_client run_config user_context) no_options submit_id
     [daemon_attempt run_config user_context (Refused (Status Unavailable ''connection refused''), None, None),
      daemon_attempt run_config user_context (Streamed denied_stream, None, None)] start_progress (l, review_console)
     = (Inr (Some (finished_exit f)), (l', d')) \<and> le_Type f = ''finished''"
proof -
  obtain sv :: service where s: "sv_Store sv = submit_store [submit_row Waiting]"
    "li_watchersByUID (sv_limits sv) = Map.empty" "li_watchersByRequest (sv_limits sv) = Map.empty"
    using submit_accepted by blast
  obtain sv' e where w: "Watch (\<lambda>_. None) run_config denied_world user_context submit_id 0 [(submit_world, None)] (sv, [])
    = (Inr True, (sv', [e]))" "le_Type e = ''finished''" "le_Status e = Some Denied"
    using denied_watched [OF s] by blast
  let ?l = "\<lparr>ln_service = sv, ln_calls = [], ln_heard = []\<rparr>"
  have "watch_stream run_config user_context denied_stream submit_id (pg_next start_progress) ?l
      = (Inr ([e], External ''EOF''), ?l\<lparr>ln_service := sv', ln_heard := [e]\<rparr>)"
    using w(1) by (simp add: watch_stream_def denied_stream_def stream_end_def on_wire_def Let_def start_progress_def)
  from client_outlasts_restart [of "[Status Unavailable ''connection refused'']", OF _ this _ w(2), of no_options None None "[]" review_console]
  show ?thesis by (auto simp: retryableWatchError_def status_code_def)
qed

end
