(* ===== verification/Store_Lifecycle.thy ===== *)
theory Store_Lifecycle
  imports Store_Retention
begin

section \<open>The life of a request\<close>

text \<open>
  The specification of what happens to one request, without tables, statements and failures: its state and
  the authorization it holds, moved by five steps. The store refines it: whatever call the daemon makes,
  and whichever statements fail, each request makes some of these steps or none. What the
  specification promises by induction over its steps then holds of the tables.
\<close>

subsection \<open>The specification\<close>

datatype authorization = Undecided | Unused | Used

type_synonym life = "(req_status \<times> authorization) option"

inductive life_step :: "life \<Rightarrow> life \<Rightarrow> bool" where
  submitted: "life_step None (Some (Created, Undecided))"
| moved: "life_step (Some (st, a)) (Some (st', a))"
    if "st' \<in> set (transitions st)" "st' \<notin> {Approved, Denied, Executing}"
| decided: "life_step (Some (Waiting, Undecided)) (Some (st', Unused))" if "st' \<in> {Approved, Denied}"
| started: "life_step (Some (Approved, Unused)) (Some (Executing, Used))"
| pruned: "life_step (Some (st, Undecided)) None" if "Terminal st"

abbreviation life_steps :: "life \<Rightarrow> life \<Rightarrow> bool" where
  "life_steps \<equiv> life_step\<^sup>*\<^sup>*"

inductive_cases life_stepE: "life_step l l'"

text \<open>A request is executing, succeeded or failed exactly when its authorization was used up, approved or denied only
  with an authorization that is still unused, and undecided before.\<close>

fun life_ok :: "life \<Rightarrow> bool" where
  "life_ok None \<longleftrightarrow> True"
| "life_ok (Some (st, a)) \<longleftrightarrow>
     (st \<in> {Executing, Succeeded, Failed} \<longleftrightarrow> a = Used) \<and> (st \<in> {Approved, Denied} \<longrightarrow> a = Unused)
     \<and> (st \<in> {Created, Queued, Synced, Waiting} \<longrightarrow> a = Undecided)"

lemma life_step_ok: "life_step l l' \<Longrightarrow> life_ok l \<Longrightarrow> life_ok l'"
proof (induction rule: life_step.induct)
  case (moved st' st a)
  then show ?case by (cases st; cases st') auto
qed auto

lemma life_steps_ok: "life_steps l l' \<Longrightarrow> life_ok l \<Longrightarrow> life_ok l'"
  by (induction rule: rtranclp_induct) (auto intro: life_step_ok)

text \<open>An authorization that was used stays used, and only a start leads to an execution.\<close>

lemma used_step: "life_step (Some (st, Used)) l \<Longrightarrow> \<exists>st'. l = Some (st', Used)"
  by (auto elim: life_stepE)

lemma used_steps: "life_steps (Some (st, Used)) l \<Longrightarrow> \<exists>st'. l = Some (st', Used)"
  by (induction rule: rtranclp_induct) (auto dest: used_step)

lemma executing_step: "life_step l (Some (Executing, a)) \<longleftrightarrow> l = Some (Approved, Unused) \<and> a = Used"
  by (auto elim: life_stepE intro: life_step.started)

subsection \<open>The abstraction\<close>

definition authorization_of :: "approval_row option \<Rightarrow> authorization" where
  "authorization_of a = (case a of None \<Rightarrow> Undecided | Some r \<Rightarrow> if ar_consumed_at r = None then Unused else Used)"

definition life :: "string \<Rightarrow> db \<Rightarrow> life" where
  "life k d = map_option (\<lambda>r. (rr_status r, authorization_of (approval_at k d))) (request_at k d)"

definition lives :: "db \<Rightarrow> db \<Rightarrow> bool" where
  "lives d e \<longleftrightarrow> (db_ok d \<longrightarrow> db_ok e \<and> (\<forall>k. life_steps (life k d) (life k e)))"

interpretation lives: table_effect lives
  by unfold_locales (auto simp: lives_def intro: rtranclp_trans)

text \<open>A statement refines the specification if it keeps the tables in order and each request makes at most a step.\<close>

lemma lives_statement:
  assumes "within db_inv m" "\<And>d k. db_ok d \<Longrightarrow> life k (snd (m d)) = life k d \<or> life_step (life k d) (life k (snd (m d)))"
  shows "within lives m"
proof (rule withinI)
  fix d
  show "lives d (snd (m d))"
    unfolding lives_def
  proof (intro impI conjI allI)
    assume ok: "db_ok d"
    show "db_ok (snd (m d))" using withinD [OF assms(1)] ok by (simp add: db_inv_def)
    fix k
    from assms(2) [OF ok, of k] show "life_steps (life k d) (life k (snd (m d)))" by auto
  qed
qed

lemma life_same: "d_requests e = d_requests d \<Longrightarrow> d_approvals e = d_approvals d \<Longrightarrow> life k e = life k d"
  by (simp add: life_def)

lemma lives_update_status:
  assumes "\<And>r. p r \<Longrightarrow> nx \<in> set (transitions (rr_status r))" "nx \<notin> {Approved, Denied, Executing}"
  shows "within lives (update_status nx p)"
proof (rule lives_statement)
  show "within db_inv (update_status nx p)" by (rule ok.update_status_eff) (rule assms(1))
  fix d k
  show "life k (snd (update_status nx p d)) = life k d \<or> life_step (life k d) (life k (snd (update_status nx p d)))"
    using life_step.moved assms by (cases "request_at k d") (auto simp: life_def update_status_def lookup_by_update_where)
qed

lemma lives_update_output: "0 \<le> n \<Longrightarrow> within lives (update_output n flag k)"
  by (rule lives_statement [OF ok.update_output_eff])
    (simp_all add: life_def update_output_def lookup_by_update_where option.map_comp comp_def if_distrib cong: if_cong)

lemma lives_insert_request: "rr_status r = Created \<Longrightarrow> rr_output_bytes r = 0 \<Longrightarrow> within lives (insert_request r)"
proof (rule lives_statement [OF ok.insert_request_eff], assumption+)
  fix d k
  assume ok: "db_ok d" and new: "rr_status r = Created"
  have none: "approval_at k d = None" if "request_at k d = None"
    using ok that by (auto simp: db_ok_def lookup_by_None_iff)
  show "life k (snd (insert_request r d)) = life k d \<or> life_step (life k d) (life k (snd (insert_request r d)))"
    using none new life_step.submitted
    by (cases "request_at k d") (auto simp: life_def insert_request_def lookup_by_append authorization_of_def)
qed

lemma lives_quiet:
  assumes "within db_inv m" "\<And>d. d_requests (snd (m d)) = d_requests d \<and> d_approvals (snd (m d)) = d_approvals d"
  shows "within lives m"
  using assms(2) by (intro lives_statement [OF assms(1)] disjI1 life_same) auto

lemma lives_insert_chunk: "0 \<le> cr_sequence c \<Longrightarrow> cr_sequence c < 2 ^ 63 \<Longrightarrow> within lives (insert_chunk c)"
  by (rule lives_quiet [OF ok.insert_chunk_eff]) (simp_all add: insert_chunk_def)

lemma lives_update_executions:
  "(\<And>x. xr_request_id (f x) = xr_request_id x) \<Longrightarrow> within lives (update_executions q f)"
  by (rule lives_quiet [OF ok.update_executions_eff]) (simp_all add: update_executions_def)

lemma lives_rest:
  "within lives (insert_event ty rido hash detail at)" "within lives (insert_server_state key v)"
  "within lives (delete_server_state key)" "within lives (drop_table tb)" "within lives drop_host_id"
  by (rule lives_quiet, rule ok.insert_event_eff ok.insert_server_state_eff ok.delete_server_state_eff ok.drop_table_eff
      ok.drop_host_id_eff, simp add: insert_event_def insert_server_state_def delete_server_state_def drop_table_def
      drop_host_id_def state_upd_def)+

subsection \<open>The operations refine the specification\<close>

lemma lives_transition: "nx \<notin> {Approved, Denied, Executing} \<Longrightarrow> within (on_db lives) (transition k nx ex)"
  unfolding transition_def by (intro lives.op_effects lives.getFrom_within lives_update_status) simp_all

lemma lives_Transition: "nx \<notin> {Approved, Denied, Executing} \<Longrightarrow> within (on_db lives) (Transition k nx ex)"
  unfolding Transition_def transaction_def by (intro lives.op_effects lives_transition)

lemma lives_ExpireOutstanding: "within (on_db lives) (ExpireOutstanding sf t)"
  unfolding ExpireOutstanding_def by (intro lives.op_effects lives_update_status) (auto simp: expirable_def)

lemma lives_Pending: "within (on_db lives) (Pending sf t)" "within (on_db lives) (RecentPending sf t limit uid allUsers)"
  unfolding Pending_def RecentPending_def
  by (intro lives.op_effects lives_ExpireOutstanding lives.read_ops_within)+

lemma lives_Create: "within (on_db lives) (Create sizes request hash)"
  unfolding Create_def by (intro lives.op_effects lives_insert_request) simp_all

lemma lives_FinishExecution: "within (on_db lives) (FinishExecution k exitCode signal t)"
  unfolding FinishExecution_def transaction_def
  by (intro lives.op_effects lives_transition lives_update_executions) simp_all

lemma lives_AppendOutput: "within (on_db lives) (AppendOutput sizes k sequence stream data limit)"
proof -
  have insert: "within (on_db lives) (and_then (bind_u64 sequence) (\<lambda>seq. stmt (insert_chunk
      \<lparr>cr_request_id = k, cr_sequence = seq, cr_stream = stream, cr_data = bytes\<rparr>)))" for bytes
    by (cases "uint sequence < 2 ^ 63")
      (simp_all add: bind_u64_def and_then_def fail_def ret_def within_def
        withinD [OF lives.within_stmt [OF lives_insert_chunk]] lives.store_effect.eff_refl)
  show ?thesis
    unfolding AppendOutput_def Let_def
    by (intro lives.op_effects lives.Get_within insert lives_update_output) simp
qed

lemma lives_RecordSecurityEvent: "within (on_db lives) (RecordSecurityEvent ty k hash detail t)"
  unfolding RecordSecurityEvent_def by (intro lives.op_effects lives_rest)

lemma lives_Open: "lives (st_db s) (st_db (snd (Open t1 t2 s)))"
proof (rule lives.Open_effect)
  show "within (on_db lives) (recoverInterrupted t1)"
    unfolding recoverInterrupted_def
    by (intro lives.op_effects lives_update_status lives_update_executions) simp_all
  show "within (on_db lives) (migrateLocalOnly t2)"
    unfolding migrateLocalOnly_def transaction_def
    by (intro lives.op_effects lives_update_status lives_rest) auto
qed

text \<open>The two operations whose statements only together make a step: a decision, and the start of an execution.\<close>

lemma lives_AcceptApproval: "lives (st_db s) (st_db (snd (AcceptApprovalContext a t s)))"
proof (cases "fst (AcceptApprovalContext a t s)")
  case (Inl e)
  then have "st_db (snd (AcceptApprovalContext a t s)) = st_db s"
    by (cases "AcceptApprovalContext a t s")
      (auto simp: AcceptApprovalContext_def outcome_simps split: if_splits dest: transactionContext_InlD)
  then show ?thesis by (simp add: lives.tab_refl)
next
  case (Inr u)
  let ?k = "ap_RequestID a" and ?e = "st_db (snd (AcceptApprovalContext a t s))"
  have run: "AcceptApprovalContext a t s = (Inr u, snd (AcceptApprovalContext a t s))"
    using Inr by (metis prod.collapse)
  show ?thesis
    unfolding lives_def
  proof (intro impI conjI allI)
    assume ok: "db_ok (st_db s)"
    show "db_ok ?e" using ok.on_db_effect [OF ok.AcceptApprovalContext_within] ok by (simp add: db_inv_def)
    fix k
    show "life_steps (life k (st_db s)) (life k ?e)"
    proof (rule AcceptApproval_Inr [OF run ok])
      fix r c
      assume r: "request_at ?k (st_db s) = Some r" "rr_status r = Waiting" "approval_at ?k (st_db s) = None"
        and e: "?e = set_status ?k (decided_status a) ((st_db s)\<lparr>d_approvals := d_approvals (st_db s) @ [approval_row_of a t]\<rparr>)"
      show ?thesis
      proof (cases "k = ?k")
        case True
        have "life k (st_db s) = Some (Waiting, Undecided)" using r True by (simp add: life_def authorization_of_def)
        moreover have "life k ?e = Some (decided_status a, Unused)"
          using r True lookup_by_SomeD [OF r(1)]
          by (simp add: e life_def lookup_by_update_where authorization_of_def lookup_by_append)
        ultimately show ?thesis using life_step.decided [of "decided_status a"] by auto
      next
        case False
        then have "life k ?e = life k (st_db s)"
          using lookup_by_SomeD [of rr_request_id k "d_requests (st_db s)"]
          by (cases "request_at k (st_db s)")
            (auto simp: e life_def lookup_by_update_where lookup_by_append authorization_of_def split: option.splits)
        then show ?thesis by simp
      qed
    qed
  qed
qed

definition only_request :: "string \<Rightarrow> db \<Rightarrow> db \<Rightarrow> bool" where
  "only_request k d e \<longleftrightarrow> (\<forall>j. j \<noteq> k \<longrightarrow> life j e = life j d)"

interpretation only: table_effect "only_request k" for k
  by unfold_locales (auto simp: only_request_def)

lemma BeginExecution_only: "within (on_db (only_request k)) (BeginExecution k ex t1 t2)"
proof -
  have "within (only_request k) (update_status nx (\<lambda>r. rr_request_id r = k \<and> rr_status r = st))" for nx st
  proof (rule withinI)
    fix d
    have "rr_request_id r = j" if "request_at j d = Some r" for j r using lookup_by_SomeD [OF that] by simp
    then show "only_request k d (snd (update_status nx (\<lambda>r. rr_request_id r = k \<and> rr_status r = st) d))"
      by (auto simp: only_request_def life_def update_status_def lookup_by_update_where option.map_comp comp_def
          intro!: map_option_cong)
  qed
  moreover have "within (only_request k) (insert_execution x)" for x
    by (rule withinI) (simp add: only_request_def life_def insert_execution_def)
  moreover have "within (only_request k) (update_consumed at k)" for at
  proof (rule withinI)
    fix d
    have "ar_request_id a = j" if "approval_at j d = Some a" for j a using lookup_by_SomeD [OF that] by simp
    then have "approval_at j (snd (update_consumed at k d)) = approval_at j d" if "j \<noteq> k" for j
      using that by (cases "approval_at j d") (auto simp: update_consumed_def lookup_by_update_where)
    then show "only_request k d (snd (update_consumed at k d))"
      by (simp add: only_request_def life_def) (simp add: update_consumed_def)
  qed
  ultimately show ?thesis
    unfolding BeginExecution_def transaction_def transition_def
    by (intro only.op_effects only.getFrom_within)
qed

lemma lives_BeginExecution: "lives (st_db s) (st_db (snd (BeginExecution k Approved t1 t2 s)))"
proof (cases "fst (BeginExecution k Approved t1 t2 s)")
  case (Inl e)
  then have "st_db (snd (BeginExecution k Approved t1 t2 s)) = st_db s"
    using transactionContext_Inl_db by (auto simp: BeginExecution_def transaction_def)
  then show ?thesis by (simp add: lives.tab_refl)
next
  case (Inr u)
  let ?e = "st_db (snd (BeginExecution k Approved t1 t2 s))"
  have run: "BeginExecution k Approved t1 t2 s = (Inr u, snd (BeginExecution k Approved t1 t2 s))"
    using Inr by (metis prod.collapse)
  show ?thesis
    unfolding lives_def
  proof (intro impI conjI allI)
    assume ok: "db_ok (st_db s)"
    show "db_ok ?e" using ok.on_db_effect [OF ok.BeginExecution_within] ok by (simp add: db_inv_def)
    fix j
    show "life_steps (life j (st_db s)) (life j ?e)"
    proof (cases "j = k")
      case True
      show ?thesis
        by (rule BeginExecution_Approved [OF run ok])
          (use life_step.started in \<open>auto simp: True life_def authorization_of_def\<close>)
    next
      case False
      then have "life j ?e = life j (st_db s)"
        using only.on_db_effect [OF BeginExecution_only] by (simp add: only_request_def)
      then show ?thesis by simp
    qed
  qed
qed

text \<open>Pruning removes the requests it selected, and these are finished and undecided.\<close>

definition removes :: "string set \<Rightarrow> db \<Rightarrow> db \<Rightarrow> bool" where
  "removes I d e \<longleftrightarrow> (\<forall>k. life k e = life k d \<or> k \<in> I \<and> life k e = None)"

interpretation removal: table_effect "removes I" for I
  by unfold_locales (auto simp: removes_def, metis+)

lemma delete_each_removes: "set ids \<subseteq> I \<Longrightarrow> within (on_db (removes I)) (delete_each ids)"
proof (induction ids)
  case (Cons i ids)
  have "within (removes I) (delete_chunks i)" "within (removes I) (delete_executions i)"
    by (rule withinI, simp add: removes_def life_def delete_chunks_def delete_executions_def state_upd_def)+
  moreover have "within (removes I) (delete_request i)"
  proof (rule withinI)
    fix d :: db
    let ?kept = "filter (\<lambda>r. rr_request_id r \<noteq> i) (d_requests d)"
    have "lookup_by rr_request_id j ?kept = (if j = i then None else request_at j d)" for j
      by (auto simp: lookup_by_None_iff lookup_filter_key)
    then show "removes I d (snd (delete_request i d))"
      using Cons.prems by (simp add: removes_def life_def delete_request_def)
  qed
  ultimately show ?case using Cons by (auto intro!: removal.op_effects)
qed (simp add: removal.op_effects)

lemma prune_candidate_life:
  assumes "db_ok d" "k \<in> fst ` set (prune_candidates d)"
  shows "\<exists>st. life k d = Some (st, Undecided) \<and> Terminal st"
proof -
  obtain r where r: "r \<in> set (d_requests d)" "prunable d r" "rr_request_id r = k"
    using assms(2) by (auto simp: prune_candidates_rows)
  have "distinct (map rr_request_id (d_requests d))" using assms(1) by (simp add: db_ok_def)
  then have "request_at k d = Some r" using lookup_by_distinct r(1,3) by metis
  moreover have "approval_at k d = None" using r by (auto simp: prunable_def lookup_by_None_iff)
  ultimately show ?thesis using r(2) by (auto simp: life_def authorization_of_def prunable_def)
qed

lemma lives_PruneUnapproved: "lives (st_db s) (st_db (snd (PruneUnapproved old n s)))"
proof -
  let ?I = "fst ` set (prune_candidates (st_db s))" and ?e = "st_db (snd (PruneUnapproved old n s))"
  have "removes ?I (st_db s) ?e"
  proof (cases "n < 0")
    case False
    obtain q s1 where sel: "select prune_candidates s = (q, s1)" by fastforce
    have s1: "st_db s1 = st_db s" using sel by (cases q) (auto dest: select_Inr select_Inl)
    show ?thesis
    proof (cases q)
      case (Inl e)
      then show ?thesis using sel s1 False by (simp add: PruneUnapproved_def and_then_def removal.tab_refl)
    next
      case (Inr rows)
      then have rows: "rows = prune_candidates (st_db s)" using sel by (auto dest: select_Inr)
      let ?ids = "prune_ids old n 0 rows"
      have "within (on_db (removes ?I)) (if ?ids = [] then ret () else transaction (delete_each ?ids))"
        unfolding transaction_def using prune_ids_subset [of old n 0 rows] rows
        by (intro removal.op_effects delete_each_removes) simp
      from removal.on_db_effect [OF this, of s1] s1 sel Inr False show ?thesis
        by (simp add: PruneUnapproved_def and_then_def Let_def)
    qed
  qed (simp add: PruneUnapproved_def fail_def removal.tab_refl)
  then show ?thesis
    unfolding lives_def
  proof (intro impI conjI allI)
    assume r: "removes ?I (st_db s) ?e" and ok: "db_ok (st_db s)"
    show "db_ok ?e" using ok.on_db_effect [OF ok.PruneUnapproved_within] ok by (simp add: db_inv_def)
    fix k
    from r have "life k ?e = life k (st_db s) \<or> k \<in> ?I \<and> life k ?e = None"
      unfolding removes_def by (rule spec)
    then consider "life k ?e = life k (st_db s)" | "k \<in> ?I" "life k ?e = None" by (elim disjE conjE) simp_all
    then show "life_steps (life k (st_db s)) (life k ?e)"
    proof cases
      case 2
      with prune_candidate_life [OF ok 2(1)] show ?thesis using life_step.pruned by auto
    qed simp
  qed
qed

subsection \<open>Histories of the daemon\<close>

lemma run_call_lives:
  assumes "daemon_call c"
  shows "lives (st_db s) (st_db (run_call sf c s))"
  using assms
  by (cases c)
    (auto intro!: lives_Open lives_AcceptApproval lives_BeginExecution lives_PruneUnapproved
      lives.on_db_effect [OF lives_Transition] lives.on_db_effect [OF lives_ExpireOutstanding]
      lives.on_db_effect [OF lives_Pending(1)] lives.on_db_effect [OF lives_Pending(2)] lives.on_db_effect [OF lives_Create]
      lives.on_db_effect [OF lives_FinishExecution] lives.on_db_effect [OF lives_AppendOutput]
      lives.on_db_effect [OF lives_RecordSecurityEvent] lives.on_db_effect [OF lives.Get_within]
      lives.on_db_effect [OF lives.Recent_within] lives.on_db_effect [OF lives.byStatuses_within]
      lives.on_db_effect [OF lives.OutstandingCounts_within] lives.on_db_effect [OF lives.ApprovalFor_within]
      lives.on_db_effect [OF lives.Execution_within] lives.on_db_effect [OF lives.OutputAfter_within]
      simp: SetMaxBytes_def state_upd_def lives.tab_refl)

lemma run_calls_lives: "list_all daemon_call calls \<Longrightarrow> lives (st_db s) (st_db (run_calls sf calls s))"
  by (induction calls arbitrary: s) (auto simp: lives.tab_refl intro: lives.tab_trans run_call_lives)

text \<open>(C6) The store refines the life of a request. Under every history of the daemon's calls, with restarts and failing
  statements anywhere, each request goes only through steps of the specification: it is submitted, moves along
  the table, is decided together with its state while it waits and is undecided, is started together with
  the use of its authorization, and is deleted only when it is finished and was never decided.\<close>

theorem store_refines_life:
  assumes "db_ok (st_db s)" and "list_all daemon_call calls"
  shows "life_step\<^sup>*\<^sup>* (life k (st_db s)) (life k (st_db (run_calls sf calls s)))"
  using run_calls_lives [OF assms(2), of s sf] assms(1) by (simp add: lives_def)

text \<open>Nothing runs, or has run, without an authorization that was used up for it. In every history of the daemon's
  calls that starts with tables where this holds, such as empty ones, a request that is executing, succeeded
  or failed has its approval consumed, one that is approved or denied has a decision not yet used, and one
  still waiting has none.\<close>

theorem executed_only_authorized:
  assumes "db_ok (st_db s)" and "list_all daemon_call calls" and "life_ok (life k (st_db s))"
    and "life k (st_db (run_calls sf calls s)) = Some (st, a)"
  shows "(st \<in> {Executing, Succeeded, Failed} \<longrightarrow> a = Used)
    \<and> (st \<in> {Approved, Denied} \<longrightarrow> a = Unused)
    \<and> (st \<in> {Created, Queued, Synced, Waiting} \<longrightarrow> a = Undecided)"
proof -
  have "life_steps (life k (st_db s)) (life k (st_db (run_calls sf calls s)))"
    using run_calls_lives [OF assms(2), of s sf] assms(1) by (simp add: lives_def)
  from life_steps_ok [OF this assms(3)] assms(4) show ?thesis by simp
qed

theorem executed_only_authorized_witness:
  "life ''r1'' (st_db (run_calls example_sf [CallBeginExecution ''r1'' Approved 1 2] (example_store Approved [example_approval_row])))
     = Some (Executing, Used)"
proof -
  let ?s = "example_store Approved [example_approval_row]"
  have "fst (BeginExecution ''r1'' Approved 1 2 ?s) = Inr ()"
    by (rule BeginExecution_starts [where r = "example_row Approved" and a = example_approval_row, OF _ _ _ example_stored]) simp_all
  then have run: "BeginExecution ''r1'' Approved 1 2 ?s = (Inr (), snd (BeginExecution ''r1'' Approved 1 2 ?s))"
    by (metis prod.collapse)
  have "\<exists>a. life ''r1'' (st_db (run_calls example_sf [CallBeginExecution ''r1'' Approved 1 2] ?s)) = Some (Executing, a)"
    by (rule BeginExecution_Approved [OF run]) (auto simp: life_def)
  moreover have "life_ok (life ''r1'' (st_db ?s))" by (simp add: life_def authorization_of_def)
  ultimately show ?thesis
    using executed_only_authorized [of ?s "[CallBeginExecution ''r1'' Approved 1 2]" "''r1''" example_sf Executing] by auto
qed

text \<open>A history in the examples' database: an approved request is started and ends.\<close>

lemma example_lives: "life ''r1'' (example_db Approved [example_approval_row]) = Some (Approved, Unused)"
  by (simp add: life_def authorization_of_def)

theorem store_refines_life_witness:
  "life_step\<^sup>*\<^sup>* (Some (Approved, Unused))
     (life ''r1'' (st_db (run_calls example_sf [CallBeginExecution ''r1'' Approved 1 2, CallFinishExecution ''r1'' (Some 0) [] 3]
       (example_store Approved [example_approval_row]))))"
  using store_refines_life [of "example_store Approved [example_approval_row]"
      "[CallBeginExecution ''r1'' Approved 1 2, CallFinishExecution ''r1'' (Some 0) [] 3]" "''r1''" example_sf]
  by (simp add: example_lives)

end
