(* ===== verification/Daemon_Lifetimes.thy ===== *)
theory Daemon_Lifetimes
  imports Daemon_Main Daemon_Progress Store_Lifecycle
begin

section \<open>The daemon over its restarts\<close>

text \<open>
  A lifetime of the daemon is a start, in \<open>run\<close>, and what its handlers, executions and maintenance do until the process
  ends; the next one starts on the tables it left. Which statements fail is a list of each lifetime: a process
  that is killed in the middle of an operation is one whose later statements all fail. When the start fails after
  the service was recovered, its executions have already begun, so the calls of a lifetime need no socket.
  The launches of all lifetimes are collected in one list.
\<close>

record lifetime =
  lt_startup :: startup
  lt_host :: host
  lt_faults :: "bool list"
  lt_world :: world
  lt_calls :: "(world \<times> handler_call) list"

definition live :: "lifetime \<Rightarrow> db \<times> launch list \<Rightarrow> db \<times> launch list" where
  "live lt = (\<lambda>(d, launched).
     case start_service (lt_startup lt) (lt_world lt) (lt_host lt, \<lparr>st_db = d, st_maxBytes = 0, st_faults = lt_faults lt\<rparr>) of
       (Inl e, (h, s)) \<Rightarrow> (st_db s, launched)
     | (Inr (loaded, cfg, sv), (h, s)) \<Rightarrow>
         let t = run_handlers cfg (lt_calls lt) (sv\<lparr>sv_launched := launched\<rparr>) in (st_db (sv_Store t), sv_launched t))"

definition lifetimes :: "lifetime list \<Rightarrow> db \<times> launch list \<Rightarrow> db \<times> launch list" where
  "lifetimes lts st = fold live lts st"

lemma lifetimes_simps [simp]:
  "lifetimes [] st = st" "lifetimes (lt # lts) st = lifetimes lts (live lt st)"
  by (simp_all add: lifetimes_def)

subsection \<open>Effects of a lifetime\<close>

definition on_host :: "(db \<Rightarrow> db \<Rightarrow> bool) \<Rightarrow> host \<times> store \<Rightarrow> host \<times> store \<Rightarrow> bool" where
  "on_host Q x y \<longleftrightarrow> Q (st_db (snd x)) (st_db (snd y))"

sublocale table_effect \<subseteq> host_effect: effect_order "on_host Q"
  by unfold_locales (auto simp: on_host_def tab_refl intro: tab_trans)

definition relies :: "(store_call \<Rightarrow> bool) \<Rightarrow> lifetime \<Rightarrow> bool" where
  "relies P lt \<longleftrightarrow> others P (lt_world lt) \<and> list_all (others_in P) (lt_calls lt)"

lemma relies_True [simp]: "relies (\<lambda>c. True) lt"
  by (simp add: relies_def list_all_iff)

context handler_contract
begin

lemma on_files_host: "within (on_host Q) (on_files m)"
  by (rule withinI) (simp add: on_files_def on_host_def tab_refl case_prod_unfold)

lemma with_context_host: "within (on_host Q) m \<Longrightarrow> within (on_host Q) (with_context what m)"
  by (simp add: within_def with_context_def case_prod_unfold split: sum.splits)

lemma Open_host: "within (on_host Q) (on_database (Open t1 t2))"
  using call_effect [of "CallOpen t1 t2"] by (intro withinI) (simp add: on_database_def on_host_def case_prod_unfold)

lemma recovered_service_host:
  assumes "others rely w"
  shows "within (on_host Q) (recovered_service w cfg)"
proof (rule withinI)
  fix x :: "host \<times> store"
  have "on_sv Q (snd (New cfg (snd x))) (snd (RecoverApproved w (snd (New cfg (snd x)))))"
    by (rule withinD [OF RecoverApproved_sv [OF assms]])
  then show "on_host Q x (snd (recovered_service w cfg x))"
    by (simp add: recovered_service_def on_host_def on_sv_def New_def SetMaxBytes_def state_upd_def case_prod_unfold Let_def)
qed

lemma start_service_host: "others rely w \<Longrightarrow> within (on_host Q) (start_service su w)"
  unfolding start_service_def
  by (intro host_effect.within_intros within_branches on_files_host with_context_host Open_host recovered_service_host)

lemma start_service_effect:
  "others rely w \<Longrightarrow> start_service su w (h, s) = (r, (h', s')) \<Longrightarrow> Q (st_db s) (st_db s')"
  using withinD [where s = "(h, s)", OF start_service_host, of w su] by (simp add: on_host_def)

lemma live_effect:
  assumes "relies rely lt"
  shows "Q (fst st) (fst (live lt st))"
proof -
  let ?s = "\<lparr>st_db = fst st, st_maxBytes = 0, st_faults = lt_faults lt\<rparr>"
  obtain r h s where start: "start_service (lt_startup lt) (lt_world lt) (lt_host lt, ?s) = (r, (h, s))"
    by (metis prod.collapse)
  have begun: "Q (fst st) (st_db s)"
    using start_service_effect [OF _ start] assms by (simp add: relies_def)
  show ?thesis
  proof (cases r)
    case (Inl e)
    then show ?thesis using begun start by (simp add: live_def case_prod_unfold)
  next
    case (Inr x)
    obtain loaded cfg sv where x: "x = (loaded, cfg, sv)" by (metis prod.collapse)
    have s: "s = sv_Store sv"
      using start unfolding Inr x by (rule start_service_Inr) simp
    have "on_sv Q (sv\<lparr>sv_launched := snd st\<rparr>) (run_handlers cfg (lt_calls lt) (sv\<lparr>sv_launched := snd st\<rparr>))"
      using assms by (intro handlers_effect) (simp add: relies_def)
    then have "Q (st_db s) (fst (live lt st))"
      using start Inr x s by (simp add: live_def on_sv_def case_prod_unfold Let_def)
    with begun show ?thesis by (rule tab_trans)
  qed
qed

lemma lifetimes_effect: "list_all (relies rely) lts \<Longrightarrow> Q (fst st) (fst (lifetimes lts st))"
proof (induction lts arbitrary: st)
  case (Cons lt lts)
  then have "Q (fst st) (fst (live lt st))" "Q (fst (live lt st)) (fst (lifetimes lts (live lt st)))"
    using live_effect [of lt st] by simp_all
  then show ?case by (simp add: tab_trans)
qed (simp add: tab_refl)

end

subsection \<open>Launches of all lifetimes\<close>

definition history_ok :: "jcs_transform \<Rightarrow> db \<times> launch list \<Rightarrow> bool" where
  "history_ok jcs st \<longleftrightarrow> db_ok (fst st) \<and> distinct (map la_RequestID (snd st)) \<and> (\<forall>la \<in> set (snd st). launch_ok jcs (fst st) la)"

lemma launches_ok_history: "launches_ok jcs sv \<longleftrightarrow> history_ok jcs (st_db (sv_Store sv), sv_launched sv)"
  by (simp add: launches_ok_def history_ok_def)

lemma history_ok_audit: "history_ok jcs (d, L) \<Longrightarrow> audit d e \<Longrightarrow> db_ok e \<Longrightarrow> history_ok jcs (e, L)"
  by (auto simp: history_ok_def intro: launch_ok_audit)

lemma history_ok_live:
  assumes "history_ok jcs st" and "list_all (\<lambda>c. w_jcs (fst c) = jcs) (lt_calls lt)"
  shows "history_ok jcs (live lt st)"
proof -
  let ?s = "\<lparr>st_db = fst st, st_maxBytes = 0, st_faults = lt_faults lt\<rparr>"
  obtain r h s where start: "start_service (lt_startup lt) (lt_world lt) (lt_host lt, ?s) = (r, (h, s))"
    by (metis prod.collapse)
  have "audit (fst st) (st_db s)" "db_ok (st_db s)"
    using trail.any.start_service_effect [OF others_True start] ok.any.start_service_effect [OF others_True start] assms(1)
    by (simp_all add: db_inv_def history_ok_def)
  then have begun: "history_ok jcs (st_db s, snd st)"
    using history_ok_audit [of jcs "fst st" "snd st"] assms(1) by simp
  show ?thesis
  proof (cases r)
    case (Inl e)
    then show ?thesis using begun start by (simp add: live_def case_prod_unfold)
  next
    case (Inr x)
    obtain loaded cfg sv where x: "x = (loaded, cfg, sv)" by (metis prod.collapse)
    have "s = sv_Store sv"
      using start unfolding Inr x by (rule start_service_Inr) simp
    then have "launches_ok jcs (sv\<lparr>sv_launched := snd st\<rparr>)"
      using begun by (simp add: launches_ok_history)
    from launches_ok_handlers [OF this assms(2), of cfg] show ?thesis
      using start Inr x by (simp add: live_def launches_ok_history case_prod_unfold Let_def)
  qed
qed

lemma history_ok_lifetimes:
  "history_ok jcs st \<Longrightarrow> list_all (\<lambda>lt. list_all (\<lambda>c. w_jcs (fst c) = jcs) (lt_calls lt)) lts \<Longrightarrow>
    history_ok jcs (lifetimes lts st)"
proof (induction lts arbitrary: st)
  case (Cons lt lts)
  then show ?case using history_ok_live [of jcs st lt] by simp
qed simp

text \<open>(C2) No request is ever started twice, restarts of the daemon included: through any number of lifetimes, each with
  any history of handlers, executions, recovery and maintenance, any interference and any failing statements, the
  processes started belong to different requests, and each of them to a consumed \<open>approve\<close> decision whose
  hash is the hash of the started command.\<close>

theorem launched_once_over_restarts:
  assumes "db_ok d" and "list_all (\<lambda>lt. list_all (\<lambda>c. w_jcs (fst c) = jcs) (lt_calls lt)) lts"
    and "lifetimes lts (d, []) = (d', launched)"
  shows "distinct (map la_RequestID launched) \<and> list_all (launch_ok jcs d') launched"
  using history_ok_lifetimes [OF _ assms(2), of "(d, [])"] assms(1,3) by (simp add: history_ok_def list_all_iff)

subsection \<open>The life of a request under the daemon\<close>

text \<open>The daemon's handlers refine the life of a request: each of them makes only its steps, relying on the others
  for the same.\<close>

interpretation daemon_life: handler_contract lives daemon_call
  by unfold_locales (rule run_call_lives, assumption)+

lemma life_Used:
  assumes "db_ok d" and "approval_at k d = Some a" and "ar_consumed_at a \<noteq> None"
  shows "\<exists>st. life k d = Some (st, Used)"
proof -
  have "k \<in> request_ids d"
    using assms(1) lookup_by_SomeD [OF assms(2)] by (auto simp: db_ok_def)
  then obtain r where "request_at k d = Some r"
    by (cases "request_at k d") (auto simp: lookup_by_None_iff)
  then show ?thesis using assms by (simp add: life_def authorization_of_def)
qed

text \<open>(C7) Whatever the daemon does, nothing runs without an authorization that was used up for it. Through any number of
  lifetimes, with the others' calls between any two accesses to the store and failing statements anywhere, every request
  goes only through steps of the specification; a request is executing, succeeded or failed exactly when its
  authorization was used, approved or denied only with one that is not used yet, and waiting only
  undecided; and every process that was started belongs to a request that is executing or has ended, with its
  authorization used.\<close>

theorem daemon_runs_authorized:
  assumes "db_ok d" and "\<And>j. life_ok (life j d)" and "list_all (relies daemon_call) lts"
    and "list_all (\<lambda>lt. list_all (\<lambda>c. w_jcs (fst c) = jcs) (lt_calls lt)) lts"
    and "lifetimes lts (d, []) = (d', launched)"
  shows "life_step\<^sup>*\<^sup>* (life k d) (life k d') \<and> life_ok (life k d')
    \<and> list_all (\<lambda>la. \<exists>st \<in> {Executing, Succeeded, Failed}. life (la_RequestID la) d' = Some (st, Used)) launched"
proof -
  have steps: "life_steps (life j d) (life j d')" for j
    using daemon_life.lifetimes_effect [OF assms(3), of "(d, [])"] assms(1,5) by (simp add: lives_def)
  have good: "life_ok (life j d')" for j
    by (rule life_steps_ok [OF steps assms(2)])
  have "history_ok jcs (d', launched)"
    using history_ok_lifetimes [OF _ assms(4), of "(d, [])"] assms(1,5) by (simp add: history_ok_def)
  then have "\<exists>st \<in> {Executing, Succeeded, Failed}. life (la_RequestID la) d' = Some (st, Used)" if "la \<in> set launched" for la
    using that life_Used [of d'] good [of "la_RequestID la"] by (fastforce simp: history_ok_def launch_ok_def)
  then show ?thesis using steps good by (simp add: list_all_iff)
qed

subsection \<open>A lifetime that runs a command\<close>

definition example_life :: lifetime where
  "example_life = \<lparr>lt_startup = start_up, lt_host = start_host, lt_faults = [], lt_world = run_world,
     lt_calls = [(run_world, DoExecute run_process ''r1'')]\<rparr>"

lemma example_life_simps [simp]:
  "lt_world example_life = run_world" "lt_calls example_life = [(run_world, DoExecute run_process ''r1'')]"
  by (simp_all add: example_life_def)

abbreviation run_tables :: db where
  "run_tables \<equiv> run_db Approved [run_approval_row]"

lemma example_opens:
  "Open 2 3 \<lparr>st_db = run_tables, st_maxBytes = 0, st_faults = []\<rparr> = (Inr (), \<lparr>st_db = run_tables, st_maxBytes = 0, st_faults = []\<rparr>)"
  by (simp add: Open_def SetMaxBytes_def recoverInterrupted_def migrateLocalOnly_def and_then_def stmt_quiet
      ret_def select_quiet state_upd_def update_status_def update_executions_def update_where_def
      run_db_def run_row_def example_db_def)

lemma run_not_expirable: "\<not> expirable example_sf (now_text 0) (run_row Approved)"
  by (simp add: expirable_def run_row_def example_row_def example_sf_def now_text_readable example_expiry)

lemma example_expires:
  "ExpireOutstanding example_sf 0 \<lparr>st_db = run_tables, st_maxBytes = m, st_faults = []\<rparr>
     = (Inr (), \<lparr>st_db = run_tables, st_maxBytes = m, st_faults = []\<rparr>)"
  using run_not_expirable
  by (simp add: ExpireOutstanding_def and_then_def stmt_quiet ret_def update_status_def update_where_def run_db_def example_db_def)

lemma example_recovers:
  assumes "sv_Store sv = \<lparr>st_db = run_tables, st_maxBytes = m, st_faults = []\<rparr>"
  shows "snd (RecoverApproved run_world sv) = sv\<lparr>sv_spawned := sv_spawned sv @ [''r1'']\<rparr>"
proof -
  have "er_RequestID run_request = ''r1''" by (simp add: run_request_def example_request_def)
  moreover have "byStatuses [Approved] (sv_Store sv) = (Inr [run_item Approved], sv_Store sv)"
    by (simp add: assms byStatuses_def and_then_def select_quiet ret_def Get_def getFrom_quiet run_stored)
  ultimately show ?thesis
    using assms
    by (simp add: RecoverApproved_def Approved_requests_def on_store_def and_then_def attempt_def run_world_def
        example_expires state_upd_def)
qed

lemma start_effective: "effective_config start_config = run_config"
  by (simp add: effective_config_def start_config_def run_config_def default_config_def with_default_def)

lemma example_live:
  "map la_RequestID (snd (live example_life (run_tables, []))) = [''r1'']"
proof -
  let ?store = "\<lparr>st_db = run_tables, st_maxBytes = 0, st_faults = []\<rparr>"
  let ?new = "snd (New start_config ?store)"
  have new: "sv_Store ?new = \<lparr>st_db = run_tables, st_maxBytes = cf_MaxDatabaseBytes start_config, st_faults = []\<rparr>"
    by (simp add: New_def SetMaxBytes_def state_upd_def quiet_def others_def)
  let ?sv = "?new\<lparr>sv_spawned := sv_spawned ?new @ [''r1''], sv_launched := []\<rparr>"
  obtain r t where run: "execute run_world run_config run_process ''r1'' ?sv = (r, t)" by fastforce
  have "sv_launched t = sv_launched ?sv @ [\<lparr>la_RequestID = ''r1'', la_Args = helper_arguments run_request,
      la_Env = [''PATH='' @ safePath, ''HOME=/root'', ''LANG=C.UTF-8''], la_Executable = run_file,
      la_Directory = run_directory, la_Interpreter = None\<rparr>]"
    using execute_ends [OF _ _ _ _ _ run_stored _ _ _ _ run_approval_binds _ _ run_hash_matches _ run [unfolded run_process_def] refl]
      run_db_ok run_not_expired run_checks run_approval_decodes
    by (simp add: New_def SetMaxBytes_def state_upd_def quiet_def beside_def)
  moreover have "live example_life (run_tables, []) = (st_db (sv_Store t), sv_launched t)"
    using start_service_runs [OF example_opens, of run_world] run
    by (simp add: live_def example_life_def example_recovers [OF new] start_effective Let_def)
  ultimately show ?thesis by simp
qed

theorem launched_once_over_restarts_witness:
  "map la_RequestID (snd (live example_life (run_tables, []))) = [''r1''] \<and>
   distinct (map la_RequestID (snd (lifetimes [example_life, example_life] (run_tables, []))))"
  using launched_once_over_restarts [of run_tables "\<lambda>t. Inr t" "[example_life, example_life]"] run_db_ok example_live
  by (cases "lifetimes [example_life, example_life] (run_tables, [])") simp

theorem daemon_runs_authorized_witness:
  "\<exists>st. life ''r1'' (fst (live example_life (run_tables, []))) = Some (st, Used)"
proof -
  have "life_ok (life k run_tables)" for k by (simp add: life_def authorization_of_def)
  moreover have "others daemon_call run_world" by (simp add: others_def)
  ultimately have "list_all (\<lambda>la. \<exists>st \<in> {Executing, Succeeded, Failed}.
      life (la_RequestID la) (fst (live example_life (run_tables, []))) = Some (st, Used)) (snd (live example_life (run_tables, [])))"
    using daemon_runs_authorized [of run_tables "[example_life]" "\<lambda>t. Inr t" "fst (live example_life (run_tables, []))"
        "snd (live example_life (run_tables, []))" "''r1''"] run_db_ok
    by (simp add: relies_def)
  then show ?thesis using example_live by (auto simp: list_all_iff)
qed

end
