(* ===== verification/Watch_Race.thy ===== *)
theory Watch_Race
  imports Daemon_Watch
begin

section \<open>Output that a watcher misses\<close>

text \<open>
  A round of \<open>Watch\<close> first reads the output and then the state. A process that writes its last output and ends
  between the two leaves a request that is finished when its state is read, with output that was not there
  when the output was read; the round sends \<open>finished\<close> and the stream ends without that output.
\<close>

definition last_output :: chunk_row where
  "last_output = \<lparr>cr_request_id = ''r1'', cr_sequence = 0, cr_stream = ''stdout'', cr_data = ''done''\<rparr>"

text \<open>While the round runs, between its second and its third access to the store, the executing handler stores the
  output and the end of the process.\<close>

definition racing_world :: world where
  "racing_world = run_world\<lparr>w_env := (\<lambda>i. if i = 2
     then [CallAppendOutput [] ''r1'' 0 ''stdout'' ''done'' 100, CallFinishExecution ''r1'' (Some 0) '''' 0] else [])\<rparr>"

definition written_db :: "req_status \<Rightarrow> db" where
  "written_db st = (run_db st [])\<lparr>d_requests := [(run_row st)\<lparr>rr_output_bytes := 4\<rparr>], d_output_chunks := [last_output]\<rparr>"

definition written_store :: "req_status \<Rightarrow> store" where
  "written_store st = \<lparr>st_db = written_db st, st_maxBytes = 0, st_faults = []\<rparr>"

lemma written_run_simps:
  "st_faults (written_store st) = []" "st_db (written_store st) = written_db st"
  "d_requests (written_db st) = [(run_row st)\<lparr>rr_output_bytes := 4\<rparr>]" "d_approvals (written_db st) = []"
  "d_executions (written_db st) = []"
  by (simp_all add: written_store_def written_db_def)

lemma run_row_output: "rr_output_bytes (run_row st) = 0" "rr_output_truncated (run_row st) = 0"
  by (simp_all add: run_row_def example_row_def)

lemma written_stored: "stored_of ((run_row st)\<lparr>rr_output_bytes := 4\<rparr>) = Inr ((run_item st)\<lparr>sr_OutputBytes := 4\<rparr>)"
  using run_stored [of st] by (auto simp: stored_of_def res_bind_def split: sum.splits)

lemma output_appended:
  "snd (AppendOutput [] ''r1'' 0 ''stdout'' ''done'' 100 (sv_Store (run_service Executing []))) = written_store Executing"
proof -
  let ?s = "sv_Store (run_service Executing [])"
  have item: "sr_OutputTruncated (run_item Executing) = False" "sr_OutputBytes (run_item Executing) = 0"
    using stored_of_fields [OF run_stored [of Executing]] run_row_output by simp_all
  have base: "st_maxBytes ?s = 0" "?s\<lparr>st_db := x\<rparr> = \<lparr>st_db = x, st_maxBytes = 0, st_faults = []\<rparr>" for x
    by (simp_all add: run_service_def)
  have kept: "kept_output [] 0 0 100 ''done'' = ''done''"
    by (rule kept_output_whole) (simp_all add: int64_range_def)
  let ?d = "(run_db Executing [])\<lparr>d_output_chunks := [last_output]\<rparr>"
  have ins: "insert_chunk last_output (run_db Executing []) = (Inr (), ?d)"
    by (simp add: insert_chunk_def last_output_def run_db_def example_db_def)
  have upd: "update_output 4 0 ''r1'' ?d = (Inr 1, written_db Executing)"
    by (simp add: update_output_def int64_range_def run_row_output update_where_def rows_matching_def written_db_def)
  show ?thesis
    using item kept ins upd
    by (simp add: AppendOutput_def Get_def and_then_def getFrom_quiet run_stored state_get_def Let_def bind_u64_def ret_def
        last_output_def [symmetric] stmt_quiet boolInt_def base written_store_def)
qed

lemma execution_finished:
  "snd (FinishExecution ''r1'' (Some 0) '''' 0 (written_store Executing)) = written_store Succeeded"
proof -
  have "db_ok (written_db Executing)"
    by (simp add: db_ok_def written_db_def last_output_def int64_range_def run_db_def example_db_def)
  then have "transition ''r1'' Succeeded (Some Executing) (written_store Executing)
      = (Inr (), (written_store Executing)\<lparr>st_db := set_status ''r1'' Succeeded (written_db Executing)\<rparr>)"
    using transition_quiet [of "written_store Executing" "''r1''" "(run_row Executing)\<lparr>rr_output_bytes := 4\<rparr>" _
        "Some Executing" Succeeded] written_stored [of Executing]
    by (simp add: written_run_simps)
  moreover have "set_status ''r1'' Succeeded (written_db Executing) = written_db Succeeded"
    by (simp add: written_db_def update_where_def run_row_def example_row_def run_db_def example_db_def)
  ultimately show ?thesis
    by (simp add: FinishExecution_def transaction_def transaction_quiet written_run_simps and_then_def stmt_quiet
        update_executions_def update_where_def ret_def) (simp add: written_store_def written_db_def)
qed

text \<open>The round: nothing is stored when the output is read, all of it when the state is.\<close>

lemma racing_world_simps:
  "w_env racing_world 0 = []" "w_env racing_world (Suc 0) = []" "w_env racing_world 3 = []" "w_env racing_world 4 = []"
  "w_env racing_world 2 = [CallAppendOutput [] ''r1'' 0 ''stdout'' ''done'' 100, CallFinishExecution ''r1'' (Some 0) '''' 0]"
  "w_sf racing_world = w_sf run_world" "w_now racing_world i = w_now run_world i"
  by (simp_all add: racing_world_def run_world_def)

lemma racing_round:
  assumes "sv_Store lv = sv_Store (run_service Executing [])"
  shows "\<exists>e. watch_round (\<lambda>_. None) run_config ''r1'' racing_world 0 (lv, [])
      = (Inr (0, Finished), (lv\<lparr>sv_Store := written_store Succeeded\<rparr>, [e]))
    \<and> le_Type e = ''finished'' \<and> le_Status e = Some Succeeded"
proof -
  let ?wv = "lv\<lparr>sv_Store := written_store Succeeded\<rparr>"
  note world = racing_world_simps
  have expire: "on_store racing_world 0 (ExpireOutstanding (w_sf racing_world) (w_now racing_world 0)) lv = (Inr (), lv)"
    using run_expires_nothing [OF assms, of 0] by (simp add: on_store_def world)
  have nothing_yet: "on_store racing_world (Suc 0) (OutputAfter ''r1'' 0 n) lv = (Inr ([], False), lv)" for n
    by (simp add: on_store_def world OutputAfter_def bind_u64_def chunks_from_def and_then_def select_quiet lift_res_def ret_def
        run_db_def assms)
  have get: "on_store racing_world 2 (Get ''r1'') lv = (Inr (Some ((run_item Succeeded)\<lparr>sr_OutputBytes := 4\<rparr>)), ?wv)"
    using output_appended execution_finished
    by (simp add: on_store_def world assms Get_def getFrom_quiet written_run_simps written_stored)
  have rest: "on_store racing_world 3 (ApprovalFor ''r1'') ?wv = (Inr None, ?wv)"
    "on_store racing_world 4 (Execution ''r1'') ?wv = (Inr None, ?wv)"
    by (simp_all add: on_store_def world ApprovalFor_def Execution_def and_then_def select_quiet written_run_simps ret_def)
  show ?thesis
    by (simp add: watch_round_def and_then_def on_service_def expire nothing_yet get rest ret_def attempt_def send_event_def Let_def
        finished_event_def state_event_def empty_event_def ok_or_none_def)
qed

text \<open>(C28) A watcher can miss the end of the output: on the database of an executing request, with a process that writes
  and ends while a round runs, the watch ends regularly with the message \<open>finished\<close> and nothing else, although
  the output is stored.\<close>

theorem Watch_misses_last_output:
  "\<exists>sv' e. Watch (\<lambda>_. None) run_config run_world root_context ''r1'' 0 [(racing_world, None)] (run_service Executing [], [])
      = (Inr True, (sv', [e]))
    \<and> le_Type e = ''finished'' \<and> le_Status e = Some Succeeded
    \<and> chunks_from ''r1'' 0 (st_db (sv_Store sv')) = [last_output]"
proof -
  let ?sv = "run_service Executing []" and ?at = "0 :: u64"
  obtain actor where root: "requester_of root_context = Inr actor" "rq_UID actor = 0"
    by (simp add: requester_of_def root_context_def)
  obtain l where l: "acquireWatcher run_config 0 ''r1'' no_limits = (Inr (), l)"
    by (simp add: acquireWatcher_def no_limits_def run_config_def default_config_def)
  let ?lv = "?sv\<lparr>sv_limits := l\<rparr>"
  let ?wv = "?lv\<lparr>sv_Store := written_store Succeeded\<rparr>"
  have id: "er_RequestID run_request = ''r1''" by (simp add: run_request_def example_request_def)
  have store: "sv_Store ?lv = sv_Store ?sv" "sv_limits ?sv = no_limits" by (simp_all add: run_service_def)
  have first: "on_store run_world 0 (Get ''r1'') ?sv = (Inr (Some (run_item Executing)), ?sv)"
    by (simp add: on_store_def Get_def getFrom_quiet run_stored)
  note round = racing_round [of ?lv, OF store(1)]
  from round obtain e where e: "watch_rounds (\<lambda>_. None) run_config ''r1'' [(racing_world, None)] ?at (?lv, []) = (Inr True, (?wv, [e]))"
    "le_Type e = ''finished''" "le_Status e = Some Succeeded"
    by (auto simp: and_then_def ret_def)
  have "\<exists>sv'. Watch (\<lambda>_. None) run_config run_world root_context ''r1'' ?at [(racing_world, None)] (?sv, []) = (Inr True, (sv', [e]))
     \<and> sv_Store sv' = written_store Succeeded"
    using root l store first e(1)
    by (simp add: Watch_def and_then_lift_Inr id) (simp add: and_then_def on_service_def on_limits_def watch_finally_def id)
  moreover have "chunks_from ''r1'' 0 (written_db Succeeded) = [last_output]"
    by (simp add: chunks_from_def written_db_def last_output_def)
  ultimately show ?thesis using e(2,3) by (auto simp: written_run_simps)
qed

end
