(* ===== verification/Daemon_Serve.thy ===== *)
theory Daemon_Serve
  imports Daemon_Main
begin

section \<open>Serving until a signal\<close>

text \<open>
  The end of \<open>run\<close>: the gRPC server with its message limits, and the goroutine that stops it after a signal. When
  \<open>GracefulStop\<close> is done, what \<open>Serve\<close> returns and how large a message is are answers of the library.
\<close>

record server_options =
  so_MaxRecvMsgSize :: nat
  so_MaxSendMsgSize :: nat

definition server :: server_options where
  "server = \<lparr>so_MaxRecvMsgSize = 512 * 1024, so_MaxSendMsgSize = 2 * 1024 * 1024\<rparr>"

text \<open>Times are nanoseconds from the start of \<open>Serve\<close>: the first SIGINT or SIGTERM, a failure of \<open>Serve\<close> of its own, how long
  \<open>GracefulStop\<close> takes from a moment on (\<open>None\<close>: a call in progress does not end), which branch is taken when both are
  ready, and what \<open>Serve\<close> returns once it was stopped.\<close>

record serving =
  se_signal :: "nat option"
  se_failure :: "(nat \<times> err) option"
  se_graceful :: "nat \<Rightarrow> nat option"
  se_both_ready :: bool
  se_stopped :: "nat \<Rightarrow> unit res"

definition grace :: nat where
  "grace = 1000000000"

text \<open>The \<open>select\<close> of the goroutine: whether \<open>Stop\<close> is called, and when the server is stopped.\<close>

definition shutdown :: "serving \<Rightarrow> nat \<Rightarrow> bool \<times> nat" where
  "shutdown x t = (case se_graceful x t of
     Some d \<Rightarrow> if d < grace \<or> d = grace \<and> se_both_ready x then (False, t + d) else (True, t + grace)
   | None \<Rightarrow> (True, t + grace))"

definition serve :: "serving \<Rightarrow> (nat \<times> unit res) option" where
  "serve x = (case (se_failure x, se_signal x) of
     (Some (u, e), Some t) \<Rightarrow>
       Some (if u \<le> t then (u, Inl e) else (snd (shutdown x t), se_stopped x (snd (shutdown x t))))
   | (Some (u, e), None) \<Rightarrow> Some (u, Inl e)
   | (None, Some t) \<Rightarrow> Some (snd (shutdown x t), se_stopped x (snd (shutdown x t)))
   | (None, None) \<Rightarrow> None)"

text \<open>The process as a whole: when it exits and with what, or \<open>None\<close> as long as it serves.\<close>

definition daemon_process :: "startup \<Rightarrow> world \<Rightarrow> serving \<Rightarrow> host \<times> store \<Rightarrow> (nat \<times> int \<times> string) option" where
  "daemon_process su w x s = (case fst (run su w s) of
     Inl e \<Rightarrow> Some (0, main_exit_code (Inl e))
   | Inr _ \<Rightarrow> map_option (\<lambda>(t, r). (t, main_exit_code r)) (serve x))"

text \<open>After a signal the server is stopped within a second, even if a \<open>Watch\<close> never ends; handlers that end earlier are
  not cut off.\<close>

lemma shutdown_in_time: "t \<le> snd (shutdown x t) \<and> snd (shutdown x t) \<le> t + grace"
  by (simp add: shutdown_def split: option.splits)

lemma shutdown_waits:
  assumes "se_graceful x t = Some d" and "d < grace"
  shows "shutdown x t = (False, t + d)"
  using assms by (simp add: shutdown_def)

lemma daemon_process_stops:
  assumes "fst (run su w s) = Inr y" and "se_signal x = Some t" and "se_failure x = None"
    and "\<And>u. se_stopped x u = Inr ()"
  shows "\<exists>u. daemon_process su w x s = Some (u, 0, '''') \<and> t \<le> u \<and> u \<le> t + grace"
  using assms shutdown_in_time [of t x] by (simp add: daemon_process_def serve_def main_exit_code_def)

text \<open>It goes on serving exactly when the start succeeded and neither a signal comes nor \<open>Serve\<close> fails.\<close>

lemma daemon_process_serves:
  "daemon_process su w x s = None \<longleftrightarrow> (\<exists>y. fst (run su w s) = Inr y) \<and> se_signal x = None \<and> se_failure x = None"
  by (auto simp: daemon_process_def serve_def split: sum.splits option.splits)

end
