(* ===== verification/Message_Limits.thy ===== *)
theory Message_Limits
  imports Daemon_Serve Cli_Example
begin

section \<open>Requests too large to be reviewed\<close>

text \<open>
  The daemon does not send, and the client does not receive, a message of more than 2 MiB, but one user may have eight
  requests of 384 KiB of arguments waiting, and a record carries the arguments twice, as a list and as the displayed
  command. Three such requests are enough that the list of pending requests is never delivered; as \<open>selectRequest\<close>
  fetches that list for every decision, root can then neither list, approve nor deny any request with the client.
\<close>

subsection \<open>The size of a list of records\<close>

definition argument_bytes :: "string list \<Rightarrow> nat" where
  "argument_bytes argv = sum_list (map length argv)"

text \<open>A message carries at least the bytes of these two fields of each record.\<close>

definition record_bytes :: "request_record \<Rightarrow> nat" where
  "record_bytes r = argument_bytes (re_Argv r) + length (re_Command r)"

lemma quote_rune_longer: "rune_span p \<Longrightarrow> length (snd p) \<le> length (quote_rune p)"
proof -
  assume v: "rune_span p"
  obtain r bs where p: "p = (r, bs)" by fastforce
  have hex: "length (hex_byte n) = 2" for n by (simp add: hex_byte_def)
  from v [unfolded p] show ?thesis
    by (cases rule: rune_span_cases) (auto simp: p quote_rune_def hex encode_rune_def)
qed

lemma displayArgument_longer: "length v \<le> length (displayArgument v)"
proof -
  have "length (concat (map snd ps)) \<le> length (concat (map quote_rune ps))" if "list_all rune_span ps" for ps
    using that by (induction ps) (auto intro: add_mono quote_rune_longer)
  from this [OF spans_valid [of v]] show ?thesis
    by (simp add: displayArgument_def QuoteToASCII_def spans_bytes)
qed

lemma join_with_longer: "sum_list (map length ws) \<le> length (join_with sep ws)"
  by (induction sep ws rule: join_with.induct) auto

lemma command_longer: "argument_bytes argv \<le> length (command executable argv)"
proof -
  have "argument_bytes argv \<le> sum_list (map length (map displayArgument argv))"
    unfolding argument_bytes_def map_map by (intro sum_list_mono) (simp add: displayArgument_longer)
  also have "\<dots> \<le> length (command executable argv)"
    using join_with_longer [of "map displayArgument (executable # argv)" "'' ''"] by (simp add: command_def)
  finally show ?thesis .
qed

lemma record_of_bytes: "2 * argument_bytes (ex_Argv (er_Execution (sr_Request item))) \<le> record_bytes (record_of item approval)"
  using command_longer by (simp add: record_bytes_def record_of_def Let_def)

lemma size_of_records:
  assumes "list_all2 (\<lambda>c r. \<exists>a. r = record_of c a) items rs"
  shows "(\<Sum>c\<leftarrow>items. 2 * argument_bytes (ex_Argv (er_Execution (sr_Request c)))) \<le> (\<Sum>r\<leftarrow>rs. record_bytes r)"
  using assms by (induction rule: list_all2_induct) (auto intro: add_mono record_of_bytes)

subsection \<open>What the daemon lists\<close>

definition row_bytes :: "request_row \<Rightarrow> nat" where
  "row_bytes r = (case stored_of r of Inl _ \<Rightarrow> 0 | Inr c \<Rightarrow> argument_bytes (ex_Argv (er_Execution (sr_Request c))))"

abbreviation is_waiting :: "request_row \<Rightarrow> bool" where
  "is_waiting r \<equiv> rr_status r = Waiting"

text \<open>Expiry leaves the rows that are not due, and never adds a waiting one.\<close>

definition holds_waiting :: "request_row set \<Rightarrow> store \<Rightarrow> bool" where
  "holds_waiting R s \<longleftrightarrow> quiet s \<and> db_ok (st_db s) \<and> R \<subseteq> set (filter is_waiting (d_requests (st_db s)))
     \<and> length (filter is_waiting (d_requests (st_db s))) \<le> 256"

lemma expiry_holds:
  assumes "holds_waiting R s" and "\<And>r. r \<in> R \<Longrightarrow> \<not> due sf (rr_expires_at r) t"
  obtains s' where "ExpireOutstanding sf t s = (Inr (), s')" "holds_waiting R s'"
proof -
  let ?f = "\<lambda>r. if expirable sf (now_text t) r then r\<lparr>rr_status := Expired\<rparr> else r"
  let ?rows = "d_requests (st_db s)"
  obtain s' where e: "ExpireOutstanding sf t s = (Inr (), s')" and s': "st_db s' = snd (update_status Expired (expirable sf (now_text t)) (st_db s))"
    using assms(1) by (auto simp: holds_waiting_def quiet_def ExpireOutstanding_def and_then_def stmt_quiet ret_def update_status_def)
  have rows: "d_requests (st_db s') = map ?f ?rows"
    by (simp add: s' update_status_def update_where_def)
  have "quiet s'" using keepsD [OF quiet_ops(4), of s sf t] assms(1) e by (simp add: holds_waiting_def)
  moreover have "db_ok (st_db s')"
    using ok.on_db_effect [OF ok.ExpireOutstanding_within, of s sf t] assms(1) e by (simp add: holds_waiting_def db_inv_def)
  moreover have "R \<subseteq> set (filter is_waiting (map ?f ?rows))"
    using assms by (force simp: holds_waiting_def expirable_due)
  moreover have "length (filter is_waiting (map ?f rs)) \<le> length (filter is_waiting rs)" for rs
    by (induction rs) auto
  ultimately show thesis
    using assms(1) e that by (metis (no_types, lifting) holds_waiting_def le_trans rows)
qed

lemma sum_order_desc: "(\<Sum>x\<leftarrow>order_desc key xs. f x) = (\<Sum>x\<leftarrow>xs. f x :: nat)"
proof -
  have "mset (map f (order_desc key xs)) = mset (map f xs)" by (simp add: order_desc_def)
  then show ?thesis by (metis sum_mset_sum_list)
qed

lemma recent_holds:
  assumes "holds_waiting R s" and "recent sf 256 uid True [Waiting] s = (Inr items, s')"
  shows "(\<Sum>r\<in>R. row_bytes r) \<le> (\<Sum>c\<leftarrow>items. argument_bytes (ex_Argv (er_Execution (sr_Request c))))"
proof -
  let ?d = "st_db s" and ?w = "filter is_waiting (d_requests (st_db s))"
  let ?rows = "order_desc rr_created_at ?w"
  have ids: "distinct (map rr_request_id (d_requests ?d))" using assms(1) by (simp add: holds_waiting_def db_ok_def)
  have "take 256 ?rows = ?rows" using assms(1) by (simp add: holds_waiting_def order_desc_def)
  then have get: "get_each (map rr_request_id ?rows) s = (Inr items, s')"
    using assms by (simp add: recent_def recent_ids_def and_then_def select_quiet holds_waiting_def quiet_def)
  have "List.map_filter (\<lambda>i. request_at i ?d) (map rr_request_id ?rows) = ?rows"
    using ids by (intro map_filter_lookup) auto
  then have all: "list_all2 (\<lambda>r c. stored_of r = Inr c) ?rows items"
    using get_each_quiet [OF _ get] assms(1) by (simp add: holds_waiting_def quiet_def)
  have "distinct ?w" using ids by (simp add: distinct_map)
  then have "(\<Sum>r\<in>R. row_bytes r) \<le> (\<Sum>r\<leftarrow>?w. row_bytes r)"
    using assms(1) by (subst sum_list_distinct_conv_sum_set) (auto simp: holds_waiting_def intro!: sum_mono2)
  also have "\<dots> = (\<Sum>r\<leftarrow>?rows. row_bytes r)"
    by (simp add: sum_order_desc)
  also have "\<dots> = (\<Sum>c\<leftarrow>items. argument_bytes (ex_Argv (er_Execution (sr_Request c))))"
    using all by (induction rule: list_all2_induct) (simp_all add: row_bytes_def)
  finally show ?thesis .
qed

lemma request_records_Inr:
  "request_records w i items sv = (Inr rs, sv') \<Longrightarrow> list_all2 (\<lambda>c r. \<exists>a. r = record_of c a) items rs"
  by (induction items arbitrary: i sv rs) (auto simp: outcome_simps requestRecord_def)

lemma ListRequests_bytes:
  assumes "holds_waiting R (sv_Store sv)" and "\<And>i. w_env w i = []"
    and "\<And>r i. r \<in> R \<Longrightarrow> i < 2 \<Longrightarrow> \<not> due (w_sf w) (rr_expires_at r) (w_now w i)"
    and "ListRequests w ctx False sv = (Inr rs, sv')"
  shows "2 * (\<Sum>r\<in>R. row_bytes r) \<le> (\<Sum>r\<leftarrow>rs. record_bytes r)"
proof -
  obtain s1 where 1: "ExpireOutstanding (w_sf w) (w_now w 0) (sv_Store sv) = (Inr (), s1)" "holds_waiting R s1"
    using expiry_holds [OF assms(1)] assms(3) by (metis zero_less_numeral)
  obtain s2 where 2: "ExpireOutstanding (w_sf w) (w_now w 1) s1 = (Inr (), s2)" "holds_waiting R s2"
    using expiry_holds [OF 1(2)] assms(3) by (metis one_less_numeral_iff semiring_norm(76))
  obtain items s3 sv3 where 3: "recent (w_sf w) 256 0 True [Waiting] s2 = (Inr items, s3)"
    and records: "request_records w 2 (newest_first items) sv3 = (Inr rs, sv')"
    using assms(2,4) 1(1) 2(1)
    by (auto simp: ListRequests_def outcome_simps on_store_def RecentPending_def split: prod.splits)
  have "2 * (\<Sum>r\<in>R. row_bytes r) \<le> (\<Sum>c\<leftarrow>newest_first items. 2 * argument_bytes (ex_Argv (er_Execution (sr_Request c))))"
    using recent_holds [OF 2(2) 3] by (simp add: newest_first_def sum_order_desc sum_list_const_mult)
  also have "\<dots> \<le> (\<Sum>r\<leftarrow>rs. record_bytes r)"
    by (rule size_of_records [OF request_records_Inr [OF records]])
  finally show ?thesis .
qed

subsection \<open>The review commands\<close>

text \<open>The connection of \<open>dialLocal\<close>, with the same limit on what it receives as the server has on what it sends; what
  becomes of an answer under a limit is the library's. The other answers carry one record at most; no limit is put on them.\<close>

definition dialLocal :: "(nat \<Rightarrow> request_record list res \<Rightarrow> request_record list res) \<Rightarrow> call_context \<Rightarrow> link broker" where
  "dialLocal transport ctx = (daemon_broker ctx)\<lparr>br_list := (\<lambda>history l.
     case br_list (daemon_broker ctx) history l of (r, l') \<Rightarrow>
       (transport (2 * 1024 * 1024) (transport (so_MaxSendMsgSize server) r), l'))\<rparr>"

lemma pending_list_fails:
  assumes too_big: "\<And>n rs. n < (\<Sum>r\<leftarrow>rs. record_bytes r) \<Longrightarrow> \<exists>e. transport n (Inr rs) = Inl e"
    and errors: "\<And>n e. \<exists>e'. transport n (Inl e) = Inl e'"
    and "holds_waiting R (sv_Store (ln_service l))" and "1024 * 1024 < (\<Sum>r\<in>R. row_bytes r)"
    and "ln_calls l = (w, fault) # rest" and "\<And>i. w_env w i = []"
    and "\<And>r i. r \<in> R \<Longrightarrow> i < 2 \<Longrightarrow> \<not> due (w_sf w) (rr_expires_at r) (w_now w i)"
  obtains e l' where "br_list (dialLocal transport ctx) False l = (Inl e, l')" "ln_calls l' = rest"
proof -
  obtain r l' where call: "br_list (daemon_broker ctx) False l = (r, l')" by fastforce
  have rest: "ln_calls l' = rest"
    using call assms(5) by (cases fault) (auto simp: daemon_broker_def rpc_def Let_def split: prod.splits)
  have "\<exists>e. transport (2 * 1024 * 1024) r = Inl e"
  proof (cases r)
    case (Inr rs)
    then have "rpc (\<lambda>w. ListRequests w ctx False) l = (Inr rs, l')" using call by (simp add: daemon_broker_def)
    then have "ListRequests w ctx False (ln_service l) = (Inr rs, ln_service l')"
      using assms(5) by (auto elim: rpc_Inr)
    from ListRequests_bytes [OF assms(3,6,7) this] assms(4) show ?thesis
      unfolding Inr by (intro too_big) simp
  qed (use errors in blast)
  then obtain e where "transport (2 * 1024 * 1024) r = Inl e" by blast
  moreover obtain e' where "transport (2 * 1024 * 1024) (Inl e) = Inl e'" using errors by blast
  ultimately show thesis
    using call rest by (intro that [of e' l']) (simp_all add: dialLocal_def server_def)
qed

text \<open>(C27) Any user can keep root from reviewing requests. While more than 1 MiB of arguments is waiting for a decision, three
  requests of the 384 KiB a submission may carry, \<open>shudo --pending\<close>, \<open>--approve\<close> and \<open>--deny\<close> all end with an error
  and exit code 1 after the listing, the only call they got to, whichever request was named.\<close>

theorem large_requests_block_review:
  assumes "\<And>n rs. n < (\<Sum>r\<leftarrow>rs. record_bytes r) \<Longrightarrow> \<exists>e. transport n (Inr rs) = Inl e"
    and "\<And>n e. \<exists>e'. transport n (Inl e) = Inl e'"
    and "holds_waiting R (sv_Store (ln_service l))" and "1024 * 1024 < (\<Sum>r\<in>R. row_bytes r)"
    and "ln_calls l = (w, fault) # rest" and "\<And>i. w_env w i = []"
    and "\<And>r i. r \<in> R \<Longrightarrow> i < 2 \<Longrightarrow> \<not> due (w_sf w) (rr_expires_at r) (w_now w i)"
    and "ad_operation o1 \<in> {''pending'', ''approve'', ''deny''}"
  shows "\<exists>e l'. runAdmin (dialLocal transport ctx) 0 o1 (l, c) = (Inr (1, Some e), (l', c)) \<and> ln_calls l' = rest"
proof -
  obtain e l' where l: "br_list (dialLocal transport ctx) False l = (Inl e, l')" "ln_calls l' = rest"
    by (rule pending_list_fails [OF assms(1-7)])
  have "br_dial (dialLocal transport ctx) = Inr ()" by (simp add: dialLocal_def daemon_broker_def)
  then show ?thesis
    using assms(8) l
    by (auto simp: runAdmin_def or_exit_def list_command_def decide_command_def selectRequest_def on_broker_def requireRootReview_def
        and_then_def attempt_def lift_res_def ret_def fail_def)
qed

subsection \<open>Three submissions of one user\<close>

definition large_size :: nat where
  "large_size = 131072"

definition large_argv :: "string list" where
  "large_argv = replicate 3 (replicate large_size (CHR ''a''))"

definition large_request :: "string \<Rightarrow> execution_request" where
  "large_request k = run_request\<lparr>er_RequestID := k, er_Execution := (er_Execution run_request)\<lparr>ex_Argv := large_argv\<rparr>\<rparr>"

definition large_row :: "string \<Rightarrow> request_row" where
  "large_row k = (run_row Waiting)\<lparr>rr_request_id := k, rr_request_json := execution_request_json (large_request k)\<rparr>"

definition crowded_service :: service where
  "crowded_service = waiting\<lparr>sv_Store := (sv_Store waiting)\<lparr>st_db := (run_db Waiting [])\<lparr>d_requests :=
     [large_row ''r1'', large_row ''r2'', large_row ''r3'']\<rparr>\<rparr>\<rparr>"

definition limited :: "nat \<Rightarrow> request_record list res \<Rightarrow> request_record list res" where
  "limited n r = (case r of Inl e \<Rightarrow> Inl e
     | Inr rs \<Rightarrow> if n < (\<Sum>r\<leftarrow>rs. record_bytes r) then Inl (Status ResourceExhausted ''message larger than max'') else Inr rs)"

lemma large_size_le: "large_size \<le> 131072"
  by (simp add: large_size_def)

text \<open>Such a submission passes the input checks, and the default limits leave room for three.\<close>

lemma large_argv_bytes: "argument_bytes large_argv = 384 * 1024"
  by (simp add: argument_bytes_def large_argv_def sum_list_replicate) (simp add: large_size_def)

lemma large_submission_accepted:
  "validateSubmit (Some \<lparr>si_Executable = ''/bin/ls'', si_Argv = large_argv, si_Cwd = ''/tmp'', si_Env = [], si_Reason = ''x'',
     si_TimeoutMs = 60000\<rparr>) = Inr ()"
  "3 < cf_MaxPendingPerUID default_config"
proof -
  have total: "(\<Sum>v\<leftarrow>large_argv. int (length v)) = 393216"
    unfolding large_argv_def map_replicate sum_list_replicate length_replicate large_size_def by simp
  have "\<forall>v \<in> set large_argv. length v \<le> 131072 \<and> NUL \<notin> set v"
    using large_size_le by (simp add: large_argv_def NUL_def)
  then have argv: "check_argv 0 large_argv = Some 393216"
    unfolding check_argv_iff total by simp
  have count: "length large_argv = 3"
    by (simp add: large_argv_def)
  have reason: "TrimSpace ''x'' = ''x''" by (simp add: TrimSpace_one byte_def is_space_def)
  have plain: "\<not> contains_byte ''/bin/ls'' NUL" "\<not> contains_byte ''/tmp'' NUL" "\<not> contains_byte ''x'' NUL" "IsAbs ''/tmp''"
    by (simp_all add: contains_byte_def NUL_def IsAbs_def has_prefix_def SLASH_def)
  show "validateSubmit (Some \<lparr>si_Executable = ''/bin/ls'', si_Argv = large_argv, si_Cwd = ''/tmp'', si_Env = [],
      si_Reason = ''x'', si_TimeoutMs = 60000\<rparr>) = Inr ()"
    by (simp add: validateSubmit_def argv count reason plain)
qed (simp add: default_config_def)

lemma large_request_valid: "ascii k \<Longrightarrow> valid_request (large_request k)"
proof -
  assume "ascii k"
  then have k: "valid_utf8 k" by (rule valid_utf8_ascii)
  have a: "valid_utf8 (replicate large_size (CHR ''a''))"
    by (rule valid_utf8_ascii) (simp add: ascii_def byte_def list_all_iff)
  have "valid_execution ((er_Execution run_request)\<lparr>ex_Argv := large_argv\<rparr>)"
    using run_request_valid a by (simp add: valid_request_def valid_execution_def valid_strs_def large_argv_def list_all_iff)
  then show ?thesis using run_request_valid k by (simp add: valid_request_def large_request_def)
qed

lemma large_row_bytes: "ascii k \<Longrightarrow> row_bytes (large_row k) = 384 * 1024"
  using large_request_valid [of k]
  by (simp add: row_bytes_def stored_of_def large_row_def run_row_def example_row_def dec_execution_request_json)
    (simp add: large_request_def large_argv_bytes)

theorem large_requests_block_review_witness:
  "\<exists>e l'. runAdmin (dialLocal limited root_context) 0 review_options
      (\<lparr>ln_service = crowded_service, ln_calls = [(run_world, Delivered), (run_world, Delivered)], ln_heard = []\<rparr>, review_console)
    = (Inr (1, Some e), (l', review_console)) \<and> ln_calls l' = [(run_world, Delivered)]"
proof -
  let ?R = "{large_row ''r1'', large_row ''r2'', large_row ''r3''}"
  let ?l = "\<lparr>ln_service = crowded_service, ln_calls = [(run_world, Delivered), (run_world, Delivered)], ln_heard = []\<rparr>"
  have field: "rr_request_id (large_row k) = k" "rr_status (large_row k) = Waiting"
    "rr_output_bytes (large_row k) = rr_output_bytes (run_row Waiting)" for k
    by (simp_all add: large_row_def run_row_def)
  have ne: "large_row i \<noteq> large_row j" if "i \<noteq> j" for i j using that field(1) by metis
  have "ascii ''r1''" "ascii ''r2''" "ascii ''r3''" by (simp_all add: ascii_def byte_def)
  then have big: "1024 * 1024 < (\<Sum>r\<in>?R. row_bytes r)" using ne by (simp add: large_row_bytes)
  have holds: "holds_waiting ?R (sv_Store (ln_service ?l))"
    using run_db_ok(1) [of Waiting] field
    by (auto simp: holds_waiting_def crowded_service_def quiet_def db_ok_def)
  have late: "\<not> due (w_sf run_world) (rr_expires_at r) (w_now run_world i)" if "r \<in> ?R" for r i
    using that run_not_due [of Waiting] by (auto simp: large_row_def run_world_def run_row_def)
  have env: "w_env run_world i = []" for i by (simp add: run_world_def)
  have op: "ad_operation review_options \<in> {''pending'', ''approve'', ''deny''}" by (simp add: review_options_def)
  have calls: "ln_calls ?l = (run_world, Delivered) # [(run_world, Delivered)]" by simp
  show ?thesis
    by (rule large_requests_block_review [OF _ _ holds big calls env late op]) (auto simp: limited_def)
qed

end
