(* ===== verification/Daemon_Delivery.thy ===== *)
theory Daemon_Delivery
  imports Daemon_Progress Daemon_Watch
begin

section \<open>The output reaches the watcher\<close>

text \<open>
  \<open>Watch\<close> on a request that was run to its end: whatever the others do for other requests, it sends every stored chunk
  from the requested one on, then the outcome, and returns, after at most one round more than there are chunks.
\<close>

subsection \<open>Accesses to the store\<close>

lemma ended_undisturbed:
  assumes "undisturbed k s t" and "ended k q c s"
  shows "ended k q c t" "chunks_at k (st_db t) = chunks_at k (st_db s)"
  using assms by (simp_all add: undisturbed_def ended_def alike_def)

lemma ended_standing: "ended k q c s \<Longrightarrow> quiet s \<and> db_ok (st_db s) \<and> standing k None (st_db s)"
  by (auto simp: ended_def standing_def stands_def outcome_def)

lemma ended_expires:
  assumes "ended k q c s"
  obtains t where "ExpireOutstanding sf at s = (Inr (), t)" "undisturbed k s t"
proof -
  obtain t where t: "ExpireOutstanding sf at s = (Inr (), t)"
    using ended_standing [OF assms] by (auto simp: quiet_def ExpireOutstanding_def and_then_def stmt_quiet ret_def update_status_def)
  have "run_call sf (CallExpireOutstanding at) s = t" by (simp add: t)
  then have "undisturbed k s t"
    using run_calls_undisturbed [of sf k None "[CallExpireOutstanding at]" s] ended_standing [OF assms] by simp
  with that t show thesis by blast
qed

lemma page_Inr: "list_all (\<lambda>c. 0 \<le> cr_sequence c) rows \<Longrightarrow> \<exists>x. page m t cs rows = Inr x"
  by (induction m t cs rows rule: page.induct) auto

lemma ended_reads:
  assumes "ended k q c s"
  shows "\<exists>item. Get k s = (Inr (Some item), s) \<and> sr_Request item = q \<and> sr_Status item = outcome c"
    and "\<exists>a. attempt (ApprovalFor k) s = (Inr a, s)"
    and "\<exists>x. Execution k s = (Inr (Some x), s) \<and> xe_ExitCode x = recorded_exit c \<and> xe_Signal x = recorded_signal c"
    and "uint after < 2 ^ 63 \<Longrightarrow> \<exists>chunks again. OutputAfter k after n s = (Inr (chunks, again), s)"
proof -
  have s: "st_faults s = []" "db_ok (st_db s)" using ended_standing [OF assms] by (simp_all add: quiet_def)
  show "\<exists>item. Get k s = (Inr (Some item), s) \<and> sr_Request item = q \<and> sr_Status item = outcome c"
    using assms s by (auto simp: ended_def Get_def getFrom_quiet stored_of_def)
  show "\<exists>a. attempt (ApprovalFor k) s = (Inr a, s)"
    using s by (auto simp: attempt_def ApprovalFor_def and_then_def select_quiet lift_res_def ret_def split: option.split sum.split)
  show "\<exists>x. Execution k s = (Inr (Some x), s) \<and> xe_ExitCode x = recorded_exit c \<and> xe_Signal x = recorded_signal c"
    using assms s by (auto simp: ended_def Execution_def and_then_def select_quiet ret_def nullable_def)
  show "\<exists>chunks again. OutputAfter k after n s = (Inr (chunks, again), s)" if "uint after < 2 ^ 63"
  proof -
    have "list_all (\<lambda>c. 0 \<le> cr_sequence c) (chunks_from k (uint after) (st_db s))"
      using chunks_from_range(1) [OF s(2)] by (auto simp: list_all_iff)
    from page_Inr [OF this, of n 0 "[]"] that s show ?thesis
      by (auto simp: OutputAfter_def bind_u64_def and_then_def select_quiet lift_res_def ret_def)
  qed
qed

lemma on_store_ended:
  assumes "beside k None w" and "ended k q c (sv_Store sv)"
  obtains s where "ended k q c s" "chunks_at k (st_db s) = chunks_at k (st_db (sv_Store sv))"
    "\<And>m :: 'a store_op. on_store w i m sv = (fst (m s), sv\<lparr>sv_Store := snd (m s)\<rparr>)"
proof -
  have "list_all (spares (w_sf w) k None) (w_env w i)" using assms(1) by (simp add: beside_None)
  then obtain s where s: "undisturbed k (sv_Store sv) s" "\<And>m :: 'a store_op. on_store w i m sv = (fst (m s), sv\<lparr>sv_Store := snd (m s)\<rparr>)"
    using on_store_calm [of w k None i sv] ended_standing [OF assms(2)] by metis
  show thesis
    by (rule that [OF ended_undisturbed(1) [OF s(1) assms(2)] ended_undisturbed(2) [OF s(1) assms(2)] s(2)])
qed

text \<open>A read finds the request as it was left.\<close>

lemma read_ended:
  fixes m :: "'a store_op"
  assumes "beside k None w" and "ended k q c (sv_Store sv)"
    and "\<And>s. ended k q c s \<Longrightarrow> \<exists>x. m s = (Inr x, s) \<and> P s x"
  obtains s x where "on_store w i m sv = (Inr x, sv\<lparr>sv_Store := s\<rparr>)" "P s x" "ended k q c s"
    "chunks_at k (st_db s) = chunks_at k (st_db (sv_Store sv))"
proof (rule on_store_ended [OF assms(1,2), of i])
  fix s assume s: "ended k q c s" "chunks_at k (st_db s) = chunks_at k (st_db (sv_Store sv))"
    and call: "\<And>m :: 'a store_op. on_store w i m sv = (fst (m s), sv\<lparr>sv_Store := snd (m s)\<rparr>)"
  from assms(3) [OF s(1)] obtain x where "m s = (Inr x, s)" "P s x" by blast
  then show thesis using that [of x s] s call [of m] by simp
qed

lemma attempt_on_store: "attempt (on_store w i m) = on_store w i (attempt m)"
  by (rule ext) (simp add: attempt_def on_store_def split: prod.splits)

subsection \<open>One round\<close>

lemma send_chunks_all:
  "send_chunks (\<lambda>_. None) k after chunks (sv, sent) =
    (Inr (if chunks = [] then after else oc_Sequence (last chunks) + 1), (sv, sent @ map (output_event k) chunks))"
  by (induction chunks arbitrary: after sent) (simp_all add: ret_def and_then_def send_event_def)

definition reports :: "child_run \<Rightarrow> local_event \<Rightarrow> bool" where
  "reports c e \<longleftrightarrow> le_Type e = ''finished'' \<and> le_Status e = Some (outcome c) \<and> le_HasExitCode e = (recorded_exit c \<noteq> None)
     \<and> le_ExitCode e = (case recorded_exit c of None \<Rightarrow> 0 | Some n \<Rightarrow> n) \<and> le_Signal e = recorded_signal c"

lemma finished_reports:
  "sr_Status item = outcome c \<Longrightarrow> xe_ExitCode x = recorded_exit c \<Longrightarrow> xe_Signal x = recorded_signal c \<Longrightarrow>
    reports c (finished_event (state_event k item a) (Some x))"
  by (simp add: reports_def finished_event_def state_event_def)

lemma outcome_terminal: "Terminal (outcome c)"
  by (simp add: outcome_def)

lemma ended_round:
  assumes w: "beside k None w" and e: "ended k q c (sv_Store sv)" and after: "uint after < 2 ^ 63"
  obtains chunks again s where "ended k q c s" "chunks_at k (st_db s) = chunks_at k (st_db (sv_Store sv))"
    "OutputAfter k after (out_LiveBytes (cf_Output cfg)) s = (Inr (chunks, again), s)"
    "again \<Longrightarrow> watch_round (\<lambda>_. None) cfg k w after (sv, sent) =
       (Inr (if chunks = [] then after else oc_Sequence (last chunks) + 1, More),
        (sv\<lparr>sv_Store := s\<rparr>, sent @ map (output_event k) chunks))"
    "\<not> again \<Longrightarrow> \<exists>after' t f. watch_round (\<lambda>_. None) cfg k w after (sv, sent) =
       (Inr (after', Finished), (sv\<lparr>sv_Store := t\<rparr>, sent @ map (output_event k) chunks @ [f])) \<and> reports c f"
proof -
  obtain s0 where 0: "ended k q c s0" "chunks_at k (st_db s0) = chunks_at k (st_db (sv_Store sv))"
    "on_store w 0 (ExpireOutstanding (w_sf w) (w_now w 0)) sv =
      (fst (ExpireOutstanding (w_sf w) (w_now w 0) s0), sv\<lparr>sv_Store := snd (ExpireOutstanding (w_sf w) (w_now w 0) s0)\<rparr>)"
    by (rule on_store_ended [OF w e, of 0]) blast
  obtain t0 where t0: "ExpireOutstanding (w_sf w) (w_now w 0) s0 = (Inr (), t0)" "undisturbed k s0 t0"
    by (rule ended_expires [OF 0(1)])
  note t0' = ended_undisturbed [OF t0(2) 0(1)]
  let ?sv0 = "sv\<lparr>sv_Store := t0\<rparr>" and ?m = "OutputAfter k after (out_LiveBytes (cf_Output cfg))"
  have e0: "ended k q c (sv_Store ?sv0)" using t0' by simp
  have page: "\<exists>p. ?m s = (Inr p, s) \<and> ?m s = (Inr p, s)" if "ended k q c s" for s
    using ended_reads(4) [OF that after] by auto
  obtain s1 p where 1: "on_store w 1 ?m ?sv0 = (Inr p, ?sv0\<lparr>sv_Store := s1\<rparr>)" "?m s1 = (Inr p, s1)" "ended k q c s1"
    "chunks_at k (st_db s1) = chunks_at k (st_db (sv_Store ?sv0))"
    by (rule read_ended [OF w e0 page, where i = 1]) blast
  obtain chunks again where p: "p = (chunks, again)" by fastforce
  let ?sent = "sent @ map (output_event k) chunks" and ?sv1 = "sv\<lparr>sv_Store := s1\<rparr>"
  let ?next = "if chunks = [] then after else oc_Sequence (last chunks) + 1"
  have start: "watch_round (\<lambda>_. None) cfg k w after (sv, sent) =
      (if again then ret (?next, More)
       else and_then (on_service (on_store w 2 (Get k))) (\<lambda>found.
         case found of None \<Rightarrow> fail (Status NotFound ''request not found'')
         | Some item \<Rightarrow>
           and_then (on_service (attempt (on_store w 3 (ApprovalFor k)))) (\<lambda>approval.
           let event = state_event k item (ok_or_none approval) in
           if Terminal (sr_Status item)
           then and_then (on_service (attempt (on_store w 4 (Execution k)))) (\<lambda>execution.
                and_then (send_event (\<lambda>_. None) (finished_event event (ok_or_none execution))) (\<lambda>_.
                ret (?next, Finished)))
           else ret (?next, Idle)))) (?sv1, ?sent)"
    using 0(3) t0(1) 1(1) by (simp add: watch_round_def and_then_def on_service_def p send_chunks_all)
  have "\<exists>after' t f. watch_round (\<lambda>_. None) cfg k w after (sv, sent) =
       (Inr (after', Finished), (sv\<lparr>sv_Store := t\<rparr>, ?sent @ [f])) \<and> reports c f" if "\<not> again"
  proof -
    have e1: "ended k q c (sv_Store ?sv1)" using 1(3) by simp
    have item: "\<exists>x. Get k s = (Inr x, s) \<and> (\<exists>item. x = Some item \<and> sr_Status item = outcome c)" if "ended k q c s" for s
      using ended_reads(1) [OF that] by auto
    obtain s2 x where 2: "on_store w 2 (Get k) ?sv1 = (Inr x, ?sv1\<lparr>sv_Store := s2\<rparr>)" "ended k q c s2"
      "\<exists>item. x = Some item \<and> sr_Status item = outcome c"
      by (rule read_ended [OF w e1 item, where i = 2]) blast
    have e2: "ended k q c (sv_Store (sv\<lparr>sv_Store := s2\<rparr>))" using 2(2) by simp
    have approval: "\<exists>x. attempt (ApprovalFor k) s = (Inr x, s) \<and> True" if "ended k q c s" for s
      using ended_reads(2) [OF that] by auto
    obtain s3 a where 3: "on_store w 3 (attempt (ApprovalFor k)) (sv\<lparr>sv_Store := s2\<rparr>) = (Inr a, (sv\<lparr>sv_Store := s2\<rparr>)\<lparr>sv_Store := s3\<rparr>)"
      "ended k q c s3"
      by (rule read_ended [OF w e2 approval, where i = 3]) blast
    have e3: "ended k q c (sv_Store (sv\<lparr>sv_Store := s3\<rparr>))" using 3(2) by simp
    have execution: "\<exists>y. attempt (Execution k) s = (Inr y, s) \<and> (\<exists>z. y = Inr (Some z) \<and> xe_ExitCode z = recorded_exit c
        \<and> xe_Signal z = recorded_signal c)" if "ended k q c s" for s
      using ended_reads(3) [OF that] by (auto simp: attempt_def)
    obtain s4 y where 4: "on_store w 4 (attempt (Execution k)) (sv\<lparr>sv_Store := s3\<rparr>) = (Inr y, (sv\<lparr>sv_Store := s3\<rparr>)\<lparr>sv_Store := s4\<rparr>)"
      "\<exists>z. y = Inr (Some z) \<and> xe_ExitCode z = recorded_exit c \<and> xe_Signal z = recorded_signal c"
      by (rule read_ended [OF w e3 execution, where i = 4]) blast
    show ?thesis
      using that 2 3 4 unfolding start
      by (auto simp: and_then_def on_service_def attempt_on_store outcome_terminal send_event_def ret_def ok_or_none_def
          finished_reports)
  qed
  then show thesis
    using that [of s1 chunks again] 1 t0'(2) 0(2) start by (simp add: p ret_def)
qed

subsection \<open>The whole stream\<close>

definition stored_from :: "string \<Rightarrow> u64 \<Rightarrow> service \<Rightarrow> output_chunk list" where
  "stored_from k after sv = map chunk_of (chunks_from k (uint after) (st_db (sv_Store sv)))"

lemma ended_rounds:
  assumes "ended k q c (sv_Store sv)" and "uint after < 2 ^ 63"
    and "list_all (\<lambda>(v, d). beside k None v) rounds" and "length (stored_from k after sv) < length rounds"
  shows "\<exists>s e. watch_rounds (\<lambda>_. None) cfg k rounds after (sv, sent) =
      (Inr True, (sv\<lparr>sv_Store := s\<rparr>, sent @ map (output_event k) (stored_from k after sv) @ [e])) \<and> reports c e"
  using assms
proof (induction rounds arbitrary: after sv sent)
  case (Cons r rounds)
  obtain v d where r: "r = (v, d)" by fastforce
  have v: "beside k None v" using Cons.prems(3) r by simp
  obtain chunks again s where s: "ended k q c s" "chunks_at k (st_db s) = chunks_at k (st_db (sv_Store sv))"
    "OutputAfter k after (out_LiveBytes (cf_Output cfg)) s = (Inr (chunks, again), s)"
    and more: "again \<Longrightarrow> watch_round (\<lambda>_. None) cfg k v after (sv, sent) =
       (Inr (if chunks = [] then after else oc_Sequence (last chunks) + 1, More),
        (sv\<lparr>sv_Store := s\<rparr>, sent @ map (output_event k) chunks))"
    and last: "\<not> again \<Longrightarrow> \<exists>after' t f. watch_round (\<lambda>_. None) cfg k v after (sv, sent) =
       (Inr (after', Finished), (sv\<lparr>sv_Store := t\<rparr>, sent @ map (output_event k) chunks @ [f])) \<and> reports c f"
    by (rule ended_round [OF v Cons.prems(1,2), where cfg = cfg and sent = sent]) blast
  have ok: "db_ok (st_db s)" using s(1) by (simp add: ended_def)
  note page = OutputAfter_resumes [OF ok s(3)]
  show ?case
  proof (cases again)
    case False
    then have "stored_from k after sv = chunks" using page s(2) by (simp add: stored_from_def chunks_from_at)
    then show ?thesis
      using last [OF False] by (auto simp: r and_then_def ret_def)
  next
    case True
    let ?last = "oc_Sequence (last chunks)"
    let ?rest = "chunks_from k (uint ?last + 1) (st_db s)"
    obtain n where n: "chunks = map chunk_of (take n (chunks_from k (uint after) (st_db s)))"
      "n < length (chunks_from k (uint after) (st_db s))"
      by (rule OutputAfter_take [OF ok s(3)]) (use True in auto)
    have all: "chunks \<noteq> []" "stored_from k after sv = chunks @ map chunk_of ?rest"
      using page True s(2) by (simp_all add: stored_from_def chunks_from_at)
    moreover have "length (stored_from k after sv) = length (chunks_from k (uint after) (st_db s))"
      using s(2) by (simp add: stored_from_def chunks_from_at)
    ultimately have "?rest \<noteq> []" using n by auto
    then obtain x where x: "x \<in> set ?rest" by fastforce
    have "uint ?last + 1 < 2 ^ 63" using chunks_from_range(2,3) [OF ok x] by simp
    then have below: "uint (?last + 1) = uint ?last + 1" "uint (?last + 1) < 2 ^ 63"
      using next_sequence(1) [of ?last] by simp_all
    let ?sv = "sv\<lparr>sv_Store := s\<rparr>"
    have rest: "stored_from k (?last + 1) ?sv = map chunk_of ?rest" by (simp add: stored_from_def below)
    have "length (stored_from k (?last + 1) ?sv) < length rounds"
      using Cons.prems(4) arg_cong [OF all(2), of length] all(1) unfolding rest length_map length_append list.size
      by (cases chunks) simp_all
    moreover have "ended k q c (sv_Store ?sv)" using s(1) by simp
    ultimately obtain t e where t: "watch_rounds (\<lambda>_. None) cfg k rounds (?last + 1) (?sv, sent @ map (output_event k) chunks) =
        (Inr True, (?sv\<lparr>sv_Store := t\<rparr>, (sent @ map (output_event k) chunks) @ map (output_event k) (stored_from k (?last + 1) ?sv) @ [e]))"
      "reports c e"
      using Cons.IH [of ?sv "?last + 1" "sent @ map (output_event k) chunks"] below(2) Cons.prems(3) by auto
    then show ?thesis
      using more [OF True] all by (auto simp: r and_then_def rest)
  qed
qed simp

text \<open>(C21) A watcher gets everything. After the end of an execution, with no failing statement and the others using the store for
  other requests, \<open>Watch\<close> sends root or the owner of the request every stored chunk from the requested number on, in
  order, then one message with the final state, the exit code and the signal that were recorded, and returns, within one
  round more than there are chunks.\<close>

theorem Watch_delivers_all:
  assumes "ended k q c (sv_Store sv)" and "beside k None w" and "list_all (\<lambda>(v, d). beside k None v) rounds"
    and "requester_of ctx = Inr actor"
    and "rq_UID actor = 0 \<or> rq_UID actor = rq_UID (er_Requester q)"
    and "acquireWatcher cfg (rq_UID actor) (er_RequestID q) (sv_limits sv) = (Inr (), limits)"
    and "uint after < 2 ^ 63" and "length (chunks_from k (uint after) (st_db (sv_Store sv))) < length rounds"
  shows "\<exists>sv' e. Watch (\<lambda>_. None) cfg w ctx k after rounds (sv, sent) =
      (Inr True, (sv', sent @ map (\<lambda>c. output_event k (chunk_of c)) (chunks_from k (uint after) (st_db (sv_Store sv))) @ [e]))
    \<and> le_Type e = ''finished'' \<and> le_Status e = Some (if recorded_exit c = Some 0 then Succeeded else Failed)
    \<and> le_HasExitCode e = (recorded_exit c \<noteq> None) \<and> le_ExitCode e = (case recorded_exit c of None \<Rightarrow> 0 | Some n \<Rightarrow> n)
    \<and> le_Signal e = recorded_signal c"
proof -
  have item: "\<exists>x. Get k s = (Inr x, s) \<and> (\<exists>item. x = Some item \<and> sr_Request item = q)" if "ended k q c s" for s
    using ended_reads(1) [OF that] by auto
  obtain s x where s: "on_store w 0 (Get k) sv = (Inr x, sv\<lparr>sv_Store := s\<rparr>)" "\<exists>item. x = Some item \<and> sr_Request item = q"
    "ended k q c s" "chunks_at k (st_db s) = chunks_at k (st_db (sv_Store sv))"
    by (rule read_ended [OF assms(2,1) item, where i = 0]) blast
  let ?sv = "sv\<lparr>sv_Store := s, sv_limits := limits\<rparr>"
  have all: "stored_from k after ?sv = map chunk_of (chunks_from k (uint after) (st_db (sv_Store sv)))"
    using s(4) by (simp add: stored_from_def chunks_from_at)
  have "ended k q c (sv_Store ?sv)" using s(3) by simp
  then obtain t e where t: "watch_rounds (\<lambda>_. None) cfg k rounds after (?sv, sent) =
      (Inr True, (?sv\<lparr>sv_Store := t\<rparr>, sent @ map (output_event k) (stored_from k after ?sv) @ [e]))" "reports c e"
    using ended_rounds [of k q c ?sv after rounds cfg sent] assms(3,7,8) by (auto simp: all)
  have "\<exists>sv'. Watch (\<lambda>_. None) cfg w ctx k after rounds (sv, sent) =
      (Inr True, (sv', sent @ map (output_event k) (stored_from k after ?sv) @ [e]))"
    using s(1,2) assms(5,6) t(1) unfolding Watch_def assms(4) and_then_lift_Inr
    by (auto simp: and_then_def on_service_def on_limits_def watch_finally_def)
  then obtain sv' where "Watch (\<lambda>_. None) cfg w ctx k after rounds (sv, sent) =
      (Inr True, (sv', sent @ map (output_event k) (stored_from k after ?sv) @ [e]))" ..
  with t(2) show ?thesis by (intro exI [of _ sv'] exI [of _ e]) (simp add: all reports_def outcome_def comp_def)
qed

subsection \<open>From the execution to the watcher\<close>

text \<open>The service after the execution of the example beside other handlers; a new watcher of root comes.\<close>

definition after_run :: service where
  "after_run = (run_service Succeeded [])\<lparr>sv_Store := sv_Store (snd (execute busy_world run_config (Runs chatty_run) ''r1''
     (run_service Approved [run_approval_row])))\<rparr>"

lemma after_run_ended: "ended ''r1'' run_request chatty_run (sv_Store after_run)"
proof -
  obtain r t where run: "execute busy_world run_config (Runs chatty_run) ''r1'' (run_service Approved [run_approval_row]) = (r, t)"
    by (rule busy_runs)
  with execute_ends [OF busy_ready run refl] show ?thesis by (simp add: after_run_def)
qed

lemma after_run_output:
  "map (\<lambda>c. (cr_stream c, cr_data c)) (chunks_from ''r1'' 0 (st_db (sv_Store after_run))) = [(''stdout'', ''hello''), (''stderr'', ''!'')]"
proof -
  obtain r t where run: "execute busy_world run_config (Runs chatty_run) ''r1'' (run_service Approved [run_approval_row]) = (r, t)"
    by (rule busy_runs)
  show ?thesis
    using execute_output [OF busy_ready run busy_output] run by (simp add: after_run_def chatty_run_def)
qed

theorem Watch_delivers_all_witness:
  "\<exists>sv' sent. Watch (\<lambda>_. None) run_config busy_world root_context ''r1'' 0 (replicate 3 (busy_world, None)) (after_run, [])
      = (Inr True, (sv', sent)) \<and> map le_Data (butlast sent) = [''hello'', ''!''] \<and> le_ExitCode (last sent) = 3"
proof -
  let ?rows = "chunks_from ''r1'' (uint (0 :: u64)) (st_db (sv_Store after_run))"
  obtain actor where root: "requester_of root_context = Inr actor" "rq_UID actor = 0"
    by (simp add: requester_of_def root_context_def)
  have id: "er_RequestID run_request = ''r1''" by (simp add: run_request_def example_request_def)
  have calm: "beside ''r1'' None busy_world" by (simp add: beside_def busy_world_def run_world_def)
  then have rounds: "list_all (\<lambda>(v, d). beside ''r1'' None v) (replicate 3 (busy_world, None :: err option))"
    by (simp add: list_all_iff)
  obtain l where l: "acquireWatcher run_config (rq_UID actor) (er_RequestID run_request) (sv_limits after_run) = (Inr (), l)"
    by (simp add: root id after_run_def run_service_def acquireWatcher_def no_limits_def run_config_def default_config_def)
  have out: "map (\<lambda>c. (cr_stream c, cr_data c)) ?rows = [(''stdout'', ''hello''), (''stderr'', ''!'')]"
    using after_run_output by simp
  have data: "map cr_data ?rows = [''hello'', ''!'']"
    using arg_cong [OF out, of "map snd"] by (simp add: comp_def)
  have few: "length ?rows < length (replicate 3 (busy_world, None :: err option))"
    using arg_cong [OF out, of length] by simp
  have code: "recorded_exit chatty_run = Some 3" by (simp add: recorded_exit_def chatty_run_def)
  have at: "uint (0 :: u64) < 2 ^ 63" by simp
  obtain sv' e where "Watch (\<lambda>_. None) run_config busy_world root_context ''r1'' 0 (replicate 3 (busy_world, None)) (after_run, [])
      = (Inr True, (sv', [] @ map (\<lambda>c. output_event ''r1'' (chunk_of c)) ?rows @ [e]))" "le_ExitCode e = 3"
    using Watch_delivers_all [OF after_run_ended calm rounds root(1) disjI1 [OF root(2)] l at few, of "[]"] code by auto
  moreover have "map le_Data (map (\<lambda>c. output_event ''r1'' (chunk_of c)) ?rows) = [''hello'', ''!'']"
    using data by (simp add: output_event_def chunk_of_def comp_def)
  ultimately show ?thesis by (simp add: butlast_append)
qed

end
